(* ===== verification/Go_Prelude.thy ===== *)
theory Go_Prelude
  imports Main
begin

text \<open>
  The part of Go's execution model that every component of the operator uses: error values,
  the outcome of a call (a value, a returned error, or a crash of the goroutine), and the
  sequencing of calls over an explicit state.

  A Go function \<open>f(...) (T, error)\<close> becomes a state transformer \<open>'s \<Rightarrow> 'a outcome \<times> 's\<close>.
  The idiom \<open>x, err := f(); if err != nil { return err }\<close> is \<open>go_bind\<close>, the idiom
  \<open>return fmt.Errorf("text: %v", err)\<close> is \<open>go_wrap\<close>, a call whose error the caller looks at
  itself is \<open>go_try\<close>, and a call whose error is dropped is \<open>go_ignore\<close>.
  A nil dereference, an index out of range, \<open>klog.Exitf\<close> and a receive that never completes
  are crashes: no branch of the caller sees them.
\<close>

section \<open>Errors and outcomes\<close>

text \<open>
  The reason of an error is what \<open>k8serrors.IsNotFound\<close> and \<open>k8serrors.IsAlreadyExists\<close> look
  at.  Formatting an error with \<open>%v\<close> keeps its text and loses its reason.
\<close>

datatype reason = NotFound | AlreadyExists | OtherReason

datatype gerror = GErr (err_reason: reason) (err_text: string)

definition errorf :: "string \<Rightarrow> gerror \<Rightarrow> gerror" where
  "errorf msg e = GErr OtherReason (msg @ err_text e)"

definition new_error :: "string \<Rightarrow> gerror" where
  "new_error msg = GErr OtherReason msg"

definition IsNotFound :: "gerror \<Rightarrow> bool" where
  "IsNotFound e \<longleftrightarrow> err_reason e = NotFound"

definition IsAlreadyExists :: "gerror \<Rightarrow> bool" where
  "IsAlreadyExists e \<longleftrightarrow> err_reason e = AlreadyExists"

datatype crash = NilDeref | IndexOutOfRange | ExplicitPanic | ProcessExit | Blocked

datatype 'a outcome = Ok 'a | Fail gerror | Crash crash

type_synonym ('s, 'a) go = "'s \<Rightarrow> 'a outcome \<times> 's"

section \<open>Sequencing\<close>

definition go_return :: "'a \<Rightarrow> ('s, 'a) go" where
  "go_return a = (\<lambda>s. (Ok a, s))"

definition go_fail :: "gerror \<Rightarrow> ('s, 'a) go" where
  "go_fail e = (\<lambda>s. (Fail e, s))"

definition go_crash :: "crash \<Rightarrow> ('s, 'a) go" where
  "go_crash c = (\<lambda>s. (Crash c, s))"

definition go_bind :: "('s, 'a) go \<Rightarrow> ('a \<Rightarrow> ('s, 'b) go) \<Rightarrow> ('s, 'b) go" where
  "go_bind m k = (\<lambda>s. case m s of
      (Ok a, s') \<Rightarrow> k a s'
    | (Fail e, s') \<Rightarrow> (Fail e, s')
    | (Crash c, s') \<Rightarrow> (Crash c, s'))"

definition go_then :: "('s, 'a) go \<Rightarrow> ('s, 'b) go \<Rightarrow> ('s, 'b) go" where
  "go_then m n = go_bind m (\<lambda>_. n)"

definition go_wrap :: "string \<Rightarrow> ('s, 'a) go \<Rightarrow> ('s, 'a) go" where
  "go_wrap msg m = (\<lambda>s. case m s of
      (Ok a, s') \<Rightarrow> (Ok a, s')
    | (Fail e, s') \<Rightarrow> (Fail (errorf msg e), s')
    | (Crash c, s') \<Rightarrow> (Crash c, s'))"

definition go_try :: "('s, 'a) go \<Rightarrow> ('s, gerror + 'a) go" where
  "go_try m = (\<lambda>s. case m s of
      (Ok a, s') \<Rightarrow> (Ok (Inr a), s')
    | (Fail e, s') \<Rightarrow> (Ok (Inl e), s')
    | (Crash c, s') \<Rightarrow> (Crash c, s'))"

definition go_ignore :: "('s, 'a) go \<Rightarrow> ('s, unit) go" where
  "go_ignore m = go_bind (go_try m) (\<lambda>_. go_return ())"

definition go_get :: "('s \<Rightarrow> 'a) \<Rightarrow> ('s, 'a) go" where
  "go_get f = (\<lambda>s. (Ok (f s), s))"

definition go_modify :: "('s \<Rightarrow> 's) \<Rightarrow> ('s, unit) go" where
  "go_modify f = (\<lambda>s. (Ok (), f s))"

definition go_lift :: "gerror + 'a \<Rightarrow> ('s, 'a) go" where
  "go_lift r = (case r of Inl e \<Rightarrow> go_fail e | Inr a \<Rightarrow> go_return a)"

definition go_deref :: "'a option \<Rightarrow> ('s, 'a) go" where
  "go_deref p = (case p of None \<Rightarrow> go_crash NilDeref | Some a \<Rightarrow> go_return a)"

definition go_index :: "'a list \<Rightarrow> nat \<Rightarrow> ('s, 'a) go" where
  "go_index xs i = (if i < length xs then go_return (xs ! i) else go_crash IndexOutOfRange)"

definition go_when :: "bool \<Rightarrow> ('s, unit) go \<Rightarrow> ('s, unit) go" where
  "go_when b m = (if b then m else go_return ())"

text \<open>
  \<open>defer d\<close> in front of the rest of the function: \<open>d\<close> runs when the function is left, also by a
  panic, but not when the process exits or the goroutine never goes on.
\<close>

definition go_defer :: "('s, unit) go \<Rightarrow> ('s, 'a) go \<Rightarrow> ('s, 'a) go" where
  "go_defer d m = (\<lambda>s. case m s of (r, s') \<Rightarrow>
     if r = Crash ProcessExit \<or> r = Crash Blocked then (r, s')
     else (case d s' of (Crash c, s'') \<Rightarrow> (Crash c, s'') | (_, s'') \<Rightarrow> (r, s'')))"

text \<open>A \<open>for _, x := range xs\<close> whose body may return an error out of the function.\<close>

fun go_each :: "('a \<Rightarrow> ('s, unit) go) \<Rightarrow> 'a list \<Rightarrow> ('s, unit) go" where
  "go_each f [] = go_return ()"
| "go_each f (x # xs) = go_then (f x) (go_each f xs)"

subsection \<open>Evaluation rules\<close>

named_theorems go_eval "equations that run the sequencing combinators on a state"

lemma go_return_eval [go_eval]: "go_return a s = (Ok a, s)"
  by (simp add: go_return_def)

lemma go_fail_eval [go_eval]: "go_fail e s = (Fail e, s)"
  by (simp add: go_fail_def)

lemma go_crash_eval [go_eval]: "go_crash c s = (Crash c, s)"
  by (simp add: go_crash_def)

lemma go_bind_eval [go_eval]:
  "go_bind m k s = (case m s of
      (Ok a, s') \<Rightarrow> k a s' | (Fail e, s') \<Rightarrow> (Fail e, s') | (Crash c, s') \<Rightarrow> (Crash c, s'))"
  by (simp add: go_bind_def)

lemma go_then_eval [go_eval]:
  "go_then m n s = (case m s of
      (Ok a, s') \<Rightarrow> n s' | (Fail e, s') \<Rightarrow> (Fail e, s') | (Crash c, s') \<Rightarrow> (Crash c, s'))"
  by (simp add: go_then_def go_bind_def)

lemma go_wrap_eval [go_eval]:
  "go_wrap msg m s = (case m s of
      (Ok a, s') \<Rightarrow> (Ok a, s')
    | (Fail e, s') \<Rightarrow> (Fail (errorf msg e), s')
    | (Crash c, s') \<Rightarrow> (Crash c, s'))"
  by (simp add: go_wrap_def)

lemma go_try_eval [go_eval]:
  "go_try m s = (case m s of
      (Ok a, s') \<Rightarrow> (Ok (Inr a), s')
    | (Fail e, s') \<Rightarrow> (Ok (Inl e), s')
    | (Crash c, s') \<Rightarrow> (Crash c, s'))"
  by (simp add: go_try_def)

lemma go_ignore_eval [go_eval]:
  "go_ignore m s = (case m s of
      (Ok a, s') \<Rightarrow> (Ok (), s') | (Fail e, s') \<Rightarrow> (Ok (), s') | (Crash c, s') \<Rightarrow> (Crash c, s'))"
  by (simp add: go_ignore_def go_bind_def go_try_def go_return_def
        split: prod.split outcome.split)

lemma go_get_eval [go_eval]: "go_get f s = (Ok (f s), s)"
  by (simp add: go_get_def)

lemma go_modify_eval [go_eval]: "go_modify f s = (Ok (), f s)"
  by (simp add: go_modify_def)

lemma go_lift_eval [go_eval]:
  "go_lift (Inl e) s = (Fail e, s)"
  "go_lift (Inr a) s = (Ok a, s)"
  by (simp_all add: go_lift_def go_fail_def go_return_def)

lemma go_deref_eval [go_eval]:
  "go_deref None s = (Crash NilDeref, s)"
  "go_deref (Some a) s = (Ok a, s)"
  by (simp_all add: go_deref_def go_crash_def go_return_def)

lemma go_index_eval [go_eval]:
  "go_index xs i s = (if i < length xs then (Ok (xs ! i), s) else (Crash IndexOutOfRange, s))"
  by (simp add: go_index_def go_crash_def go_return_def)

lemma go_defer_eval [go_eval]:
  "go_defer d m s = (case m s of (r, s') \<Rightarrow>
     if r = Crash ProcessExit \<or> r = Crash Blocked then (r, s')
     else (case d s' of (Crash c, s'') \<Rightarrow> (Crash c, s'') | (_, s'') \<Rightarrow> (r, s'')))"
  by (simp add: go_defer_def)

lemma go_when_eval [go_eval]:
  "go_when b m s = (if b then m s else (Ok (), s))"
  by (simp add: go_when_def go_return_def)

subsection \<open>Laws of sequencing\<close>

lemma go_bind_return [simp]: "go_bind (go_return a) k = k a"
  by (simp add: fun_eq_iff go_eval)

lemma go_bind_fail [simp]: "go_bind (go_fail e) k = go_fail e"
  by (simp add: fun_eq_iff go_eval)

lemma go_bind_crash [simp]: "go_bind (go_crash c) k = go_crash c"
  by (simp add: fun_eq_iff go_eval)

lemma go_bind_assoc: "go_bind (go_bind m k) h = go_bind m (\<lambda>a. go_bind (k a) h)"
  by (simp add: fun_eq_iff go_eval split: prod.split outcome.split)

lemma go_try_never_fails: "fst (go_try m s) \<noteq> Fail e"
  by (auto simp: go_eval split: prod.splits outcome.splits)

lemma go_ignore_never_fails: "fst (go_ignore m s) \<noteq> Fail e"
  by (auto simp: go_eval split: prod.splits outcome.splits)

lemma go_ignore_state: "snd (go_ignore m s) = snd (m s)"
  by (auto simp: go_eval split: prod.splits outcome.splits)

lemma errorf_reason [simp]: "err_reason (errorf msg e) = OtherReason"
  by (simp add: errorf_def)

subsection \<open>Successful runs\<close>

lemma go_bind_okE:
  assumes "go_bind m k s = (Ok b, t)"
  obtains a u where "m s = (Ok a, u)" and "k a u = (Ok b, t)"
  using assms by (auto simp: go_bind_eval split: prod.splits outcome.splits)

lemma go_then_okE:
  assumes "go_then m n s = (Ok b, t)"
  obtains a u where "m s = (Ok a, u)" and "n u = (Ok b, t)"
  using assms by (auto simp: go_then_eval split: prod.splits outcome.splits)

lemma go_wrap_ok [simp]: "go_wrap msg m s = (Ok a, t) \<longleftrightarrow> m s = (Ok a, t)"
  by (auto simp: go_wrap_eval split: prod.splits outcome.splits)

lemma go_deref_ok [simp]: "go_deref p s = (Ok a, t) \<longleftrightarrow> p = Some a \<and> t = s"
  by (cases p) (auto simp: go_eval)

lemma go_lift_ok [simp]: "go_lift r s = (Ok a, t) \<longleftrightarrow> r = Inr a \<and> t = s"
  by (cases r) (auto simp: go_eval)

text \<open>A run of a sequence stops in its first part or goes on with the second.\<close>

lemma go_bind_cases:
  assumes "go_bind m k s = (r, t)"
  obtains (stop) q where "m s = (q, t)" and "\<And>a. q \<noteq> Ok a"
  | (cont) a u where "m s = (Ok a, u)" and "k a u = (r, t)"
  using assms by (auto simp: go_bind_eval split: prod.splits outcome.splits)

lemma go_then_cases:
  assumes "go_then m n s = (r, t)"
  obtains (stop) q where "m s = (q, t)" and "\<And>a. q \<noteq> Ok a"
  | (cont) a u where "m s = (Ok a, u)" and "n u = (r, t)"
  using assms by (auto simp: go_then_eval split: prod.splits outcome.splits)

lemma go_wrap_cases:
  assumes "go_wrap msg m s = (r, t)"
  obtains q where "m s = (q, t)" and "\<And>a. r = Ok a \<longleftrightarrow> q = Ok a" and "\<And>c. r = Crash c \<longleftrightarrow> q = Crash c"
  using assms by (auto simp: go_wrap_eval split: prod.splits outcome.splits)

section \<open>Code that cannot crash\<close>

definition no_crash :: "('s, 'a) go \<Rightarrow> bool" where
  "no_crash m \<longleftrightarrow> (\<forall>s c. fst (m s) \<noteq> Crash c)"

named_theorems no_crash_intro "composition rules of no_crash"

lemma no_crashI: "(\<And>s c. fst (m s) \<noteq> Crash c) \<Longrightarrow> no_crash m"
  by (simp add: no_crash_def)

lemma no_crashD: "no_crash m \<Longrightarrow> m s \<noteq> (Crash c, t)"
  by (metis no_crash_def fst_conv)

lemma no_crash_leaf [no_crash_intro]:
  "no_crash (go_return a)" "no_crash (go_fail e)" "no_crash (go_get f)" "no_crash (go_modify g)"
  "no_crash (go_lift r)"
  by (auto simp: no_crash_def go_eval) (cases r; simp add: go_eval)

lemma no_crash_bind [no_crash_intro]:
  "no_crash m \<Longrightarrow> (\<And>a. no_crash (k a)) \<Longrightarrow> no_crash (go_bind m k)"
  unfolding no_crash_def go_bind_eval by (auto split: prod.split outcome.split) (metis fst_conv)

lemma no_crash_then [no_crash_intro]: "no_crash m \<Longrightarrow> no_crash n \<Longrightarrow> no_crash (go_then m n)"
  unfolding go_then_def by (rule no_crash_bind)

lemma no_crash_wrap [no_crash_intro]: "no_crash m \<Longrightarrow> no_crash (go_wrap msg m)"
  unfolding no_crash_def go_wrap_eval by (auto split: prod.split outcome.split) (metis fst_conv)

lemma no_crash_try [no_crash_intro]: "no_crash m \<Longrightarrow> no_crash (go_try m)"
  unfolding no_crash_def go_try_eval by (auto split: prod.split outcome.split) (metis fst_conv)

lemma no_crash_ignore [no_crash_intro]: "no_crash m \<Longrightarrow> no_crash (go_ignore m)"
  unfolding go_ignore_def by (intro no_crash_intro)

lemma no_crash_when [no_crash_intro]: "no_crash m \<Longrightarrow> no_crash (go_when b m)"
  by (simp add: go_when_def no_crash_leaf)

lemma no_crash_each [no_crash_intro]:
  "(\<And>x. x \<in> set xs \<Longrightarrow> no_crash (f x)) \<Longrightarrow> no_crash (go_each f xs)"
  by (induction xs) (auto intro: no_crash_intro)

lemma no_crash_defer [no_crash_intro]: "no_crash d \<Longrightarrow> no_crash m \<Longrightarrow> no_crash (go_defer d m)"
  unfolding no_crash_def go_defer_eval by (auto split: prod.split outcome.split) (metis fst_conv)+

section \<open>Relations that every run of a call respects\<close>

text \<open>
  \<open>run_respects R m\<close>: whatever the outcome, the state before and after \<open>m\<close> are in \<open>R\<close>.
  A reflexive and transitive \<open>R\<close> composes along every combinator above; the locale proves
  that once, and its two interpretations are the frame of a component (a field no call
  writes) and, in \<open>Cloud\<close>, the log of external calls.
\<close>

definition run_respects :: "('s \<Rightarrow> 's \<Rightarrow> bool) \<Rightarrow> ('s, 'a) go \<Rightarrow> bool" where
  "run_respects R m \<longleftrightarrow> (\<forall>s. R s (snd (m s)))"

lemma run_respectsI: "(\<And>s. R s (snd (m s))) \<Longrightarrow> run_respects R m"
  by (simp add: run_respects_def)

lemma run_respectsD: "run_respects R m \<Longrightarrow> m s = (r, s') \<Longrightarrow> R s s'"
  by (metis run_respects_def snd_conv)

named_theorems run_intro "composition rules of run_respects"

locale run_relation =
  fixes R :: "'s \<Rightarrow> 's \<Rightarrow> bool"
  assumes step_refl: "R s s"
    and step_trans: "R s t \<Longrightarrow> R t u \<Longrightarrow> R s u"
begin

lemma keep_return [run_intro]: "run_respects R (go_return a)"
  by (simp add: run_respects_def go_eval step_refl)

lemma keep_fail [run_intro]: "run_respects R (go_fail e)"
  by (simp add: run_respects_def go_eval step_refl)

lemma keep_crash [run_intro]: "run_respects R (go_crash c)"
  by (simp add: run_respects_def go_eval step_refl)

lemma keep_get [run_intro]: "run_respects R (go_get f)"
  by (simp add: run_respects_def go_eval step_refl)

lemma keep_lift [run_intro]: "run_respects R (go_lift r)"
  by (cases r) (simp_all add: run_respects_def go_eval step_refl)

lemma keep_deref [run_intro]: "run_respects R (go_deref p)"
  by (cases p) (simp_all add: run_respects_def go_eval step_refl)

lemma keep_index [run_intro]: "run_respects R (go_index xs i)"
  by (simp add: run_respects_def go_eval step_refl)

lemma keep_modify [run_intro]: "(\<And>s. R s (f s)) \<Longrightarrow> run_respects R (go_modify f)"
  by (simp add: run_respects_def go_eval)

lemma keep_bind [run_intro]:
  assumes "run_respects R m" and "\<And>a. run_respects R (k a)"
  shows "run_respects R (go_bind m k)"
proof (rule run_respectsI)
  fix s
  obtain r s' where ms: "m s = (r, s')" by fastforce
  with assms(1) have first: "R s s'" by (rule run_respectsD)
  show "R s (snd (go_bind m k s))"
  proof (cases r)
    case (Ok a)
    have "R s' (snd (k a s'))" using assms(2)[of a] by (simp add: run_respects_def)
    with first ms Ok show ?thesis by (auto simp: go_eval intro: step_trans)
  qed (use first ms in \<open>simp_all add: go_eval\<close>)
qed

lemma keep_then [run_intro]:
  "run_respects R m \<Longrightarrow> run_respects R n \<Longrightarrow> run_respects R (go_then m n)"
  unfolding go_then_def by (rule keep_bind)

lemma keep_wrap [run_intro]: "run_respects R m \<Longrightarrow> run_respects R (go_wrap msg m)"
  by (auto simp: run_respects_def go_eval split: prod.splits outcome.splits dest: spec)
     (metis snd_conv)+

lemma keep_try [run_intro]: "run_respects R m \<Longrightarrow> run_respects R (go_try m)"
  by (auto simp: run_respects_def go_eval split: prod.splits outcome.splits dest: spec)
     (metis snd_conv)+

lemma keep_ignore [run_intro]: "run_respects R m \<Longrightarrow> run_respects R (go_ignore m)"
  by (simp add: run_respects_def go_ignore_state)

lemma keep_defer [run_intro]:
  assumes "run_respects R d" and "run_respects R m"
  shows "run_respects R (go_defer d m)"
proof (rule run_respectsI)
  fix s
  obtain r u where m: "m s = (r, u)" by fastforce
  obtain q v where d: "d u = (q, v)" by fastforce
  have "R s u" "R u v" using assms m d by (auto dest: run_respectsD)
  then show "R s (snd (go_defer d m s))"
    using m d by (auto simp: go_defer_eval intro: step_trans split: outcome.split)
qed

lemma keep_when [run_intro]: "(b \<Longrightarrow> run_respects R m) \<Longrightarrow> run_respects R (go_when b m)"
  by (simp add: go_when_def keep_return)

lemma keep_each [run_intro]:
  "(\<And>x. x \<in> set xs \<Longrightarrow> run_respects R (f x)) \<Longrightarrow> run_respects R (go_each f xs)"
  by (induction xs) (auto intro: keep_return keep_then)

end

lemma keep_if [run_intro]:
  "(b \<Longrightarrow> run_respects R m) \<Longrightarrow> (\<not> b \<Longrightarrow> run_respects R n) \<Longrightarrow>
     run_respects R (if b then m else n)"
  by simp

lemma keep_case_sum [run_intro]:
  "(\<And>a. r = Inl a \<Longrightarrow> run_respects R (f a)) \<Longrightarrow> (\<And>b. r = Inr b \<Longrightarrow> run_respects R (g b)) \<Longrightarrow>
     run_respects R (case r of Inl a \<Rightarrow> f a | Inr b \<Rightarrow> g b)"
  by (cases r) simp_all

lemma keep_case_option [run_intro]:
  "(p = None \<Longrightarrow> run_respects R f) \<Longrightarrow> (\<And>a. p = Some a \<Longrightarrow> run_respects R (g a)) \<Longrightarrow>
     run_respects R (case p of None \<Rightarrow> f | Some a \<Rightarrow> g a)"
  by (cases p) simp_all

lemma keep_case_prod [run_intro]:
  "(\<And>a b. p = (a, b) \<Longrightarrow> run_respects R (f a b)) \<Longrightarrow>
     run_respects R (case p of (a, b) \<Rightarrow> f a b)"
  by (cases p) simp_all

definition same_field :: "('s \<Rightarrow> 'b) \<Rightarrow> 's \<Rightarrow> 's \<Rightarrow> bool" where
  "same_field f s t \<longleftrightarrow> f t = f s"

interpretation frame: run_relation "same_field f" for f
  by unfold_locales (simp_all add: same_field_def)

end
