(* ===== verification/Go_Strings.thy ===== *)
theory Go_Strings
  imports Go_Prelude "HOL-Library.Sublist" "HOL-Library.Word"
begin

text \<open>
  The functions of Go's \<open>strings\<close> and \<open>strconv\<close> packages that the operator calls, on strings
  as byte lists: \<open>Split\<close> (with a one-byte separator, the only use in the source), \<open>Fields\<close>
  (for ASCII input), \<open>HasSuffix\<close>, \<open>Contains\<close>, \<open>Atoi\<close> with its two error cases, and the
  decimal formatting \<open>Itoa\<close> behind \<open>FormatInt\<close> and \<open>Sprint\<close>.
  The lemmas give their characterisations and the round trip of \<open>Itoa\<close> and \<open>Atoi\<close>.
\<close>

section \<open>strings\<close>

fun split_by :: "(char \<Rightarrow> bool) \<Rightarrow> string \<Rightarrow> string list" where
  "split_by p [] = [[]]"
| "split_by p (x # xs) =
     (if p x then [] # split_by p xs
      else (case split_by p xs of [] \<Rightarrow> [[x]] | w # ws \<Rightarrow> (x # w) # ws))"

definition Split :: "string \<Rightarrow> char \<Rightarrow> string list" where
  "Split s sep = split_by (\<lambda>c. c = sep) s"

definition is_space :: "char \<Rightarrow> bool" where
  "is_space c \<longleftrightarrow> (of_char c :: nat) \<in> {9, 10, 11, 12, 13, 32}"

definition Fields :: "string \<Rightarrow> string list" where
  "Fields s = filter (\<lambda>w. w \<noteq> []) (split_by is_space s)"

definition HasSuffix :: "string \<Rightarrow> string \<Rightarrow> bool" where
  "HasSuffix s suf \<longleftrightarrow> length suf \<le> length s \<and> drop (length s - length suf) s = suf"

fun Contains :: "string \<Rightarrow> string \<Rightarrow> bool" where
  "Contains [] sub = (sub = [])"
| "Contains (x # xs) sub = (prefix sub (x # xs) \<or> Contains xs sub)"

lemma split_by_nonempty [simp]: "split_by p s \<noteq> []"
  by (cases s) (auto split: list.split)

lemma split_by_concat_length: "length (concat (split_by p s)) \<le> length s"
proof (induction s)
  case (Cons x xs)
  then show ?case by (cases "split_by p xs") auto
qed simp

lemma split_by_no_sep: "w \<in> set (split_by p s) \<Longrightarrow> c \<in> set w \<Longrightarrow> \<not> p c"
proof (induction s arbitrary: w)
  case (Cons x xs)
  obtain v vs where parts: "split_by p xs = v # vs"
    by (meson list.exhaust split_by_nonempty)
  have "c \<in> set v \<Longrightarrow> \<not> p c" using Cons.IH[of v] parts by simp
  moreover have "w \<in> set vs \<Longrightarrow> \<not> p c" using Cons.IH[of w] Cons.prems parts by simp
  ultimately show ?case using Cons.prems parts by (auto split: if_splits)
qed simp

lemma split_by_word: "(\<And>c. c \<in> set w \<Longrightarrow> \<not> p c) \<Longrightarrow> split_by p w = [w]"
  by (induction w) auto

lemma split_by_append:
  "(\<And>c. c \<in> set w \<Longrightarrow> \<not> p c) \<Longrightarrow> p c \<Longrightarrow> split_by p (w @ c # s) = w # split_by p s"
  by (induction w) auto

text \<open>Joining the parts with the separator gives the string back.\<close>

fun join_by :: "char \<Rightarrow> string list \<Rightarrow> string" where
  "join_by c [] = []"
| "join_by c [w] = w"
| "join_by c (w # v # ws) = w @ c # join_by c (v # ws)"

lemma join_by_Cons: "ws \<noteq> [] \<Longrightarrow> join_by c (w # ws) = w @ c # join_by c ws"
  by (cases ws) auto

lemma join_by_Cons_Cons: "join_by c ((x # w) # ws) = x # join_by c (w # ws)"
  by (cases ws) auto

lemma join_Split: "join_by c (Split s c) = s"
  unfolding Split_def
proof (induction s)
  case (Cons x xs)
  show ?case
  proof (cases "x = c")
    case True
    with Cons show ?thesis by (simp add: join_by_Cons)
  next
    case False
    obtain w ws where "split_by (\<lambda>d. d = c) xs = w # ws"
      by (meson list.exhaust split_by_nonempty)
    with Cons False show ?thesis by (simp add: join_by_Cons_Cons)
  qed
qed simp

lemma Split_join:
  assumes "\<And>w. w \<in> set ws \<Longrightarrow> c \<notin> set w" and "ws \<noteq> []"
  shows "Split (join_by c ws) c = ws"
  using assms
proof (induction ws rule: join_by.induct [case_names nil one more])
  case (one c w)
  then show ?case unfolding Split_def by (auto intro!: split_by_word)
next
  case (more c w v ws)
  then have "c \<notin> set w" "Split (join_by c (v # ws)) c = v # ws" by auto
  then show ?case unfolding Split_def by (subst join_by.simps, subst split_by_append) auto
qed simp

lemma Fields_words: "w \<in> set (Fields s) \<Longrightarrow> w \<noteq> [] \<and> (\<forall>c \<in> set w. \<not> is_space c)"
  by (auto simp: Fields_def dest: split_by_no_sep)

lemma HasSuffix_iff: "HasSuffix s suf \<longleftrightarrow> (\<exists>p. s = p @ suf)"
  by (auto simp: HasSuffix_def) (metis append_take_drop_id)

lemma Contains_iff: "Contains s sub \<longleftrightarrow> (\<exists>p q. s = p @ sub @ q)"
proof (induction s)
  case (Cons x xs)
  have "(\<exists>p q. x # xs = p @ sub @ q) \<longleftrightarrow>
      (\<exists>q. x # xs = sub @ q) \<or> (\<exists>p q. xs = p @ sub @ q)"
    by (metis append_Cons append_Nil list.inject neq_Nil_conv)
  with Cons show ?case by (auto simp: prefix_def)
qed auto

lemma Contains_self_append: "Contains (p @ s @ q) s"
  by (auto simp: Contains_iff)

section \<open>strconv\<close>

definition is_digit :: "char \<Rightarrow> bool" where
  "is_digit c \<longleftrightarrow> 48 \<le> (of_char c :: nat) \<and> (of_char c :: nat) \<le> 57"

definition digit_val :: "char \<Rightarrow> nat" where
  "digit_val c = of_char c - 48"

definition digit_char :: "nat \<Rightarrow> char" where
  "digit_char d = char_of (48 + d)"

datatype num_error = ErrSyntax | ErrRange

text \<open>
  \<open>ParseUint\<close> reads left to right and stops at the first byte that is no digit (a syntax
  error) or at which the value leaves 64 bits (a range error).
\<close>

fun parse_uint_loop :: "nat \<Rightarrow> string \<Rightarrow> num_error + nat" where
  "parse_uint_loop n [] = Inr n"
| "parse_uint_loop n (c # cs) =
     (if \<not> is_digit c then Inl ErrSyntax
      else if 2 ^ 64 \<le> 10 * n + digit_val c then Inl ErrRange
      else parse_uint_loop (10 * n + digit_val c) cs)"

definition parse_uint :: "string \<Rightarrow> num_error + nat" where
  "parse_uint s = (if s = [] then Inl ErrSyntax else parse_uint_loop 0 s)"

text \<open>\<open>Atoi\<close> gives a value in the error cases too: 0, or the nearest end of the range.\<close>

definition signed_result :: "bool \<Rightarrow> num_error + nat \<Rightarrow> int \<times> num_error option" where
  "signed_result neg r = (case r of
      Inl ErrSyntax \<Rightarrow> (0, Some ErrSyntax)
    | Inl ErrRange \<Rightarrow> (if neg then - (2 ^ 63) else 2 ^ 63 - 1, Some ErrRange)
    | Inr u \<Rightarrow>
        (if \<not> neg \<and> 2 ^ 63 \<le> u then (2 ^ 63 - 1, Some ErrRange)
         else if neg \<and> 2 ^ 63 < u then (- (2 ^ 63), Some ErrRange)
         else (if neg then - int u else int u, None)))"

definition Atoi :: "string \<Rightarrow> int \<times> num_error option" where
  "Atoi s = (case s of
      [] \<Rightarrow> (0, Some ErrSyntax)
    | c # cs \<Rightarrow>
        (if c = CHR ''-'' then signed_result True (parse_uint cs)
         else if c = CHR ''+'' then signed_result False (parse_uint cs)
         else signed_result False (parse_uint s)))"

fun nat_digits :: "nat \<Rightarrow> string" where
  "nat_digits n = (if n < 10 then [digit_char n]
     else nat_digits (n div 10) @ [digit_char (n mod 10)])"

declare nat_digits.simps [simp del]

definition Itoa :: "int \<Rightarrow> string" where
  "Itoa i = (if i < 0 then CHR ''-'' # nat_digits (nat (- i)) else nat_digits (nat i))"

lemma of_char_digit_char: "d < 10 \<Longrightarrow> (of_char (digit_char d) :: nat) = 48 + d"
  by (simp add: digit_char_def of_char_of)

lemma digit_char_digit [simp]: "d < 10 \<Longrightarrow> is_digit (digit_char d)"
  by (simp add: is_digit_def of_char_digit_char)

lemma digit_val_digit_char [simp]: "d < 10 \<Longrightarrow> digit_val (digit_char d) = d"
  by (simp add: digit_val_def of_char_digit_char)

lemma nat_digits_nonempty [simp]: "nat_digits n \<noteq> []"
  by (subst nat_digits.simps) simp

lemma nat_digits_digit: "c \<in> set (nat_digits n) \<Longrightarrow> is_digit c"
proof (induction n rule: nat_digits.induct)
  case (1 n)
  then show ?case
    by (cases "n < 10") (auto simp: nat_digits.simps[of n])
qed

lemma parse_uint_loop_append:
  "parse_uint_loop n (s @ t) =
     (case parse_uint_loop n s of Inl e \<Rightarrow> Inl e | Inr m \<Rightarrow> parse_uint_loop m t)"
  by (induction n s rule: parse_uint_loop.induct) auto

lemma parse_uint_loop_digits: "n < 2 ^ 64 \<Longrightarrow> parse_uint_loop 0 (nat_digits n) = Inr n"
proof (induction n rule: nat_digits.induct)
  case (1 n)
  show ?case
  proof (cases "n < 10")
    case True
    then show ?thesis by (simp add: nat_digits.simps[of n])
  next
    case False
    moreover have "n div 10 < 2 ^ 64" using "1.prems" by simp
    ultimately have "parse_uint_loop 0 (nat_digits (n div 10)) = Inr (n div 10)"
      using "1.IH" by simp
    moreover have "10 * (n div 10) + n mod 10 = n" by simp
    ultimately show ?thesis using False "1.prems"
      by (simp add: nat_digits.simps[of n] parse_uint_loop_append)
  qed
qed

lemma nat_digits_hd: "nat_digits n = c # cs \<Longrightarrow> c \<noteq> CHR ''-'' \<and> c \<noteq> CHR ''+''"
  using nat_digits_digit[of c n] by (auto simp: is_digit_def)

lemma Atoi_Itoa:
  assumes "- (2 ^ 63) \<le> i" and "i < 2 ^ 63"
  shows "Atoi (Itoa i) = (i, None)"
proof (cases "i < 0")
  case True
  with assms have "nat (- i) \<le> 2 ^ 63" by simp
  then have "parse_uint_loop 0 (nat_digits (nat (- i))) = Inr (nat (- i))"
    by (intro parse_uint_loop_digits) simp
  with True assms show ?thesis
    by (simp add: Itoa_def Atoi_def parse_uint_def signed_result_def)
next
  case False
  then have "nat i < 2 ^ 63" using assms by simp
  then have "parse_uint_loop 0 (nat_digits (nat i)) = Inr (nat i)"
    by (intro parse_uint_loop_digits) simp
  moreover obtain c cs where c: "nat_digits (nat i) = c # cs"
    by (meson list.exhaust nat_digits_nonempty)
  moreover have "c \<noteq> CHR ''-'' \<and> c \<noteq> CHR ''+''" by (rule nat_digits_hd [OF c])
  ultimately show ?thesis using False assms
    by (simp add: Itoa_def Atoi_def parse_uint_def signed_result_def)
qed

text \<open>The value is inside \<open>int64\<close> whether or not there is an error.\<close>

lemma parse_uint_loop_bound: "n < 2 ^ 64 \<Longrightarrow> parse_uint_loop n s = Inr u \<Longrightarrow> u < 2 ^ 64"
  by (induction n s rule: parse_uint_loop.induct) (auto split: if_splits)

lemma Atoi_range: "- (2 ^ 63) \<le> fst (Atoi s) \<and> fst (Atoi s) < 2 ^ 63"
  by (auto simp: Atoi_def signed_result_def split: list.split sum.split num_error.split)

text \<open>A Go \<open>int\<close> is a 64-bit word on the platforms the image is built for.\<close>

type_synonym go_int = "64 word"

definition int64 :: "int \<Rightarrow> go_int" where
  "int64 i = word_of_int i"

definition int32 :: "int \<Rightarrow> 32 word" where
  "int32 i = word_of_int i"

lemma sint_int32: "- (2 ^ 31) \<le> i \<Longrightarrow> i < 2 ^ 31 \<Longrightarrow> sint (int32 i) = i"
  by (simp add: int32_def sint_uint uint_word_of_int_eq signed_take_bit_take_bit
      signed_take_bit_int_eq_self)

definition Itoa64 :: "go_int \<Rightarrow> string" where
  "Itoa64 w = Itoa (sint w)"

end
