(* ===== verification/Rds_Types.thy ===== *)
theory Rds_Types
  imports Go_Strings
begin

text \<open>
  The custom resource of the operator: \<open>pkg/rds/rds.go\<close>, \<open>pkg/rds/v1alpha1/types.go\<close>,
  \<open>register.go\<close> and the generated deep copies.

  A Go slice is \<open>'a list option\<close> (\<open>None\<close> is the nil slice, which \<open>reflect.DeepEqual\<close> tells
  from an empty one).  The field \<open>Users\<close> is a pointer: an address and what it points to, so
  that the source's \<open>!=\<close> on it compares addresses and \<open>DeepEqual\<close> compares contents.
  \<open>metav1.TypeMeta\<close> and \<open>metav1.ObjectMeta\<close> belong to Kubernetes: of the object metadata the
  operator reads the name and the namespace, the rest is kept as one opaque field.
\<close>

type_synonym addr = nat

type_synonym 'a slice = "'a list option"

definition slice_elems :: "'a slice \<Rightarrow> 'a list" where
  "slice_elems xs = (case xs of None \<Rightarrow> [] | Some ys \<Rightarrow> ys)"

lemma slice_elems_simps [simp]: "slice_elems None = []" "slice_elems (Some xs) = xs"
  by (simp_all add: slice_elems_def)

abbreviation slice_len :: "'a slice \<Rightarrow> nat" where
  "slice_len xs \<equiv> length (slice_elems xs)"

section \<open>types.go\<close>

record Users =
  user_Name :: string
  user_Host :: string
  user_Password :: string
  user_Privileges :: "string slice"

record RdsSpec =
  spec_Availabilityzone :: string
  spec_Backuprestoretime :: string
  spec_Backupstarttime :: string
  spec_Backupkeepdays :: go_int
  spec_Databases :: "string slice"
  spec_Datastoretype :: string
  spec_Datastoreversion :: string
  spec_Endpoint :: string
  spec_Flavorref :: string
  spec_Hamode :: string
  spec_Hareplicationmode :: string
  spec_Port :: string
  spec_Password :: string
  spec_Region :: string
  spec_Subnet :: string
  spec_Securitygroup :: string
  spec_Users :: "(addr \<times> Users list) option"
  spec_Volumetype :: string
  spec_Volumesize :: go_int
  spec_Vpc :: string

record RdsStatus =
  status_Autopilot :: bool
  status_Id :: string
  status_Ip :: string
  status_Logs :: bool
  status_Reboot :: bool
  status_Status :: string

record Rds =
  rds_TypeMeta :: string
  rds_Name :: string
  rds_Namespace :: string
  rds_MetaRest :: string
  rds_Spec :: RdsSpec
  rds_Status :: RdsStatus

record RdsList =
  list_TypeMeta :: string
  list_ListMeta :: string
  list_Items :: "Rds slice"

text \<open>The zero values \<open>Rds{}\<close> and \<open>RdsList{}\<close>, which the typed client decodes into.\<close>

definition zero_spec :: RdsSpec where
  "zero_spec = \<lparr>spec_Availabilityzone = '''', spec_Backuprestoretime = '''',
     spec_Backupstarttime = '''', spec_Backupkeepdays = 0, spec_Databases = None,
     spec_Datastoretype = '''', spec_Datastoreversion = '''', spec_Endpoint = '''',
     spec_Flavorref = '''', spec_Hamode = '''', spec_Hareplicationmode = '''',
     spec_Port = '''', spec_Password = '''', spec_Region = '''', spec_Subnet = '''',
     spec_Securitygroup = '''', spec_Users = None, spec_Volumetype = '''',
     spec_Volumesize = 0, spec_Vpc = ''''\<rparr>"

definition zero_status :: RdsStatus where
  "zero_status = \<lparr>status_Autopilot = False, status_Id = '''', status_Ip = '''',
     status_Logs = False, status_Reboot = False, status_Status = ''''\<rparr>"

definition zero_rds :: Rds where
  "zero_rds = \<lparr>rds_TypeMeta = '''', rds_Name = '''', rds_Namespace = '''',
     rds_MetaRest = '''', rds_Spec = zero_spec, rds_Status = zero_status\<rparr>"

definition zero_rds_list :: RdsList where
  "zero_rds_list = \<lparr>list_TypeMeta = '''', list_ListMeta = '''', list_Items = None\<rparr>"

text \<open>
  \<open>DeepEqual\<close> on the specification looks through the pointer, so the address is forgotten.
\<close>

definition spec_value :: "RdsSpec \<Rightarrow> RdsSpec" where
  "spec_value sp = sp\<lparr>spec_Users := map_option (\<lambda>(_, us). (0, us)) (spec_Users sp)\<rparr>"

definition spec_DeepEqual :: "RdsSpec \<Rightarrow> RdsSpec \<Rightarrow> bool" where
  "spec_DeepEqual a b \<longleftrightarrow> spec_value a = spec_value b"

definition status_DeepEqual :: "RdsStatus \<Rightarrow> RdsStatus \<Rightarrow> bool" where
  "status_DeepEqual a b \<longleftrightarrow> a = b"

definition HasChanged :: "Rds \<Rightarrow> Rds \<Rightarrow> bool" where
  "HasChanged e other \<longleftrightarrow>
     spec_DeepEqual (rds_Spec e) (rds_Spec other) \<or> status_DeepEqual (rds_Status e) (rds_Status other)"

text \<open>The \<open>!=\<close> of two \<open>*[]Users\<close>: nil only equals nil, and addresses are compared.\<close>

definition users_ptr_neq :: "(addr \<times> Users list) option \<Rightarrow> (addr \<times> Users list) option \<Rightarrow> bool" where
  "users_ptr_neq p q \<longleftrightarrow> map_option fst p \<noteq> map_option fst q"

section \<open>zz_generated.deepcopy.go\<close>

text \<open>
  \<open>DeepCopyInto\<close> copies the struct and the metadata; the specification, with its slice and
  its pointer, is assigned as it is.
\<close>

definition Rds_DeepCopyInto :: "Rds \<Rightarrow> Rds" where
  "Rds_DeepCopyInto r = r\<lparr>rds_TypeMeta := rds_TypeMeta r, rds_Name := rds_Name r,
     rds_Namespace := rds_Namespace r, rds_MetaRest := rds_MetaRest r, rds_Spec := rds_Spec r\<rparr>"

definition Rds_DeepCopy :: "Rds option \<Rightarrow> Rds option" where
  "Rds_DeepCopy r = (case r of None \<Rightarrow> None | Some r \<Rightarrow> Some (Rds_DeepCopyInto r))"

text \<open>A \<open>runtime.Object\<close>, of which nil is \<open>None\<close>.\<close>

datatype runtime_object = RdsObj Rds | RdsListObj RdsList | OtherObj

definition Rds_DeepCopyObject :: "Rds option \<Rightarrow> runtime_object option" where
  "Rds_DeepCopyObject r = (case Rds_DeepCopy r of Some c \<Rightarrow> Some (RdsObj c) | None \<Rightarrow> None)"

definition RdsList_DeepCopyInto :: "RdsList \<Rightarrow> RdsList" where
  "RdsList_DeepCopyInto l = (case list_Items l of
      None \<Rightarrow> l
    | Some items \<Rightarrow> l\<lparr>list_Items := Some (map Rds_DeepCopyInto items)\<rparr>)"

definition RdsList_DeepCopy :: "RdsList option \<Rightarrow> RdsList option" where
  "RdsList_DeepCopy l = map_option RdsList_DeepCopyInto l"

definition RdsList_DeepCopyObject :: "RdsList option \<Rightarrow> runtime_object option" where
  "RdsList_DeepCopyObject l = (case RdsList_DeepCopy l of Some c \<Rightarrow> Some (RdsListObj c) | None \<Rightarrow> None)"

definition RdsSpec_DeepCopyInto :: "RdsSpec \<Rightarrow> RdsSpec" where
  "RdsSpec_DeepCopyInto sp = sp"

definition RdsSpec_DeepCopy :: "RdsSpec option \<Rightarrow> RdsSpec option" where
  "RdsSpec_DeepCopy sp = map_option RdsSpec_DeepCopyInto sp"

lemma Rds_DeepCopyInto_id [simp]: "Rds_DeepCopyInto r = r"
  by (simp add: Rds_DeepCopyInto_def)

lemma Rds_DeepCopy_id [simp]: "Rds_DeepCopy p = p"
  by (cases p) (simp_all add: Rds_DeepCopy_def)

lemma RdsList_DeepCopyInto_id [simp]: "RdsList_DeepCopyInto l = l"
proof -
  have "map Rds_DeepCopyInto xs = xs" for xs by (induction xs) simp_all
  then show ?thesis by (simp add: RdsList_DeepCopyInto_def split: option.split)
qed

lemma users_ptr_neq_refl [simp]: "\<not> users_ptr_neq p p"
  by (simp add: users_ptr_neq_def)

lemma spec_DeepEqual_refl [simp]: "spec_DeepEqual sp sp"
  by (simp add: spec_DeepEqual_def)

lemma status_DeepEqual_refl [simp]: "status_DeepEqual st st"
  by (simp add: status_DeepEqual_def)

lemma not_HasChangedI:
  "\<not> spec_DeepEqual (rds_Spec a) (rds_Spec b) \<Longrightarrow> rds_Status a \<noteq> rds_Status b \<Longrightarrow>
     \<not> HasChanged a b"
  by (simp add: HasChanged_def status_DeepEqual_def)

section \<open>rds.go and register.go\<close>

definition GroupName :: string where
  "GroupName = ''otc.mcsps.de''"

definition V1alpha1 :: string where
  "V1alpha1 = ''v1alpha1''"

definition RdsKind :: string where
  "RdsKind = ''Rds''"

record GroupVersion =
  gv_Group :: string
  gv_Version :: string

record GroupResource =
  gr_Group :: string
  gr_Resource :: string

record GroupVersionResource =
  gvr_Group :: string
  gvr_Version :: string
  gvr_Resource :: string

record GroupVersionKind =
  gvk_Group :: string
  gvk_Version :: string
  gvk_Kind :: string

definition SchemeGroupVersion :: GroupVersion where
  "SchemeGroupVersion = \<lparr>gv_Group = GroupName, gv_Version = V1alpha1\<rparr>"

definition gv_WithResource :: "GroupVersion \<Rightarrow> string \<Rightarrow> GroupVersionResource" where
  "gv_WithResource gv r = \<lparr>gvr_Group = gv_Group gv, gvr_Version = gv_Version gv, gvr_Resource = r\<rparr>"

definition gv_WithKind :: "GroupVersion \<Rightarrow> string \<Rightarrow> GroupVersionKind" where
  "gv_WithKind gv k = \<lparr>gvk_Group = gv_Group gv, gvk_Version = gv_Version gv, gvk_Kind = k\<rparr>"

definition Resource :: "string \<Rightarrow> GroupResource" where
  "Resource resource =
     (let gvr = gv_WithResource SchemeGroupVersion resource
      in \<lparr>gr_Group = gvr_Group gvr, gr_Resource = gvr_Resource gvr\<rparr>)"

end
