(* ===== verification/Cloud.thy ===== *)
theory Cloud
  imports Rds_Types Complex_Main
begin

text \<open>
  What the operator calls and what is not its own code: the Open Telekom Cloud clients
  (gophertelekomcloud), the Kubernetes clients (client-go), the database driver, HTTP, the
  clock.  Each is a field of a record of functions, an argument of every definition that uses
  it; nothing is assumed of them here.  A call may change the rest of the world, an opaque
  value of type \<open>'w\<close>, and appends itself to the log \<open>calls\<close> with the flag whether it
  returned without an error.  Properties of the order and of the absence of calls are
  properties of that log.
\<close>

section \<open>Values exchanged with the clients\<close>

type_synonym handle = nat

datatype service = IdentityV3 | NetworkV1 | NetworkV2 | RDSV3 | CES | SMNV2

record AuthOptions =
  ao_IdentityEndpoint :: string
  ao_Username :: string
  ao_Password :: string
  ao_DomainName :: string

record ListRdsInstanceOpts =
  lo_Id :: string
  lo_Name :: string

record RdsInstanceResponse =
  inst_Id :: string
  inst_Status :: string
  inst_PrivateIps :: "string list"
  inst_VolumeSize :: go_int
  inst_FlavorRef :: string
  inst_Nodes :: "string list"

record CreateRdsOpts =
  co_Name :: string
  co_DatastoreType :: string
  co_DatastoreVersion :: string
  co_Ha :: "(string \<times> string) option"
  co_Port :: string
  co_Password :: string
  co_BackupStartTime :: string
  co_BackupKeepDays :: go_int
  co_FlavorRef :: string
  co_VolumeType :: string
  co_VolumeSize :: go_int
  co_Region :: string
  co_AvailabilityZone :: string
  co_VpcId :: string
  co_SubnetId :: string
  co_SecurityGroupId :: string

text \<open>A response of the RDS service: its transport error and its body, still to be extracted.\<close>

record ApiResult =
  res_Err :: "gerror option"
  res_Body :: string

record BackupCreateOpts =
  bo_InstanceID :: string
  bo_Name :: string
  bo_Description :: string

record RestorePITROpts =
  ro_SourceInstanceID :: string
  ro_RestoreTime :: int
  ro_Type :: string
  ro_TargetInstanceID :: string

text \<open>\<open>AzStatus\<close> is a Go map: keys are distinct and the iteration order is the list's.\<close>

record Flavor =
  fl_VCPUs :: string
  fl_RAM :: int
  fl_SpecCode :: string
  fl_AzStatus :: "(string \<times> string) list"

record Posflavor =
  pf_VCPUs :: int
  pf_RAM :: int
  pf_Spec :: string

record CreateAlarmOpts =
  al_AlarmName :: string
  al_AlarmDescription :: string
  al_AlarmLevel :: int
  al_MetricNamespace :: string
  al_MetricName :: string
  al_Dimensions :: "(string \<times> string) list"
  al_Period :: int
  al_Filter :: string
  al_ComparisonOperator :: string
  al_Value :: int
  al_Unit :: string
  al_Count :: int
  al_AlarmActions :: "(string \<times> string list) list"
  al_AlarmEnabled :: bool
  al_AlarmActionEnabled :: bool

record MetricAlarm =
  ma_AlarmName :: string
  ma_AlarmId :: string

record Topic =
  tp_Name :: string
  tp_TopicUrn :: string

record Subscription =
  sb_Endpoint :: string
  sb_Protocol :: string
  sb_Remark :: string

record RestConfig =
  rc_Host :: string
  rc_APIPath :: string
  rc_GroupVersion :: "GroupVersion option"
  rc_UserAgent :: string
  rc_RateLimiter :: "(rat \<times> int) option"
  rc_QPS :: rat
  rc_Burst :: int

datatype Verb = GET | POST | PUT | DELETE | PATCH

record ListOptions =
  lopt_LabelSelector :: string
  lopt_TimeoutSeconds :: "go_int option"
  lopt_Watch :: bool

datatype ReqParams = NoParams | OptParams string | ListParams ListOptions

datatype ReqBody = NoBody | RdsBody Rds | DeleteOptsBody string | PatchBody string string

record Request =
  rq_Verb :: Verb
  rq_Namespace :: string
  rq_Resource :: string
  rq_Name :: "string option"
  rq_SubResources :: "string list"
  rq_Params :: ReqParams
  rq_Timeout :: "go_int option"
  rq_Body :: ReqBody

record Endpoints =
  ep_Name :: string
  ep_Namespace :: string
  ep_Labels :: "(string \<times> string) list"
  ep_Subsets :: "(string list \<times> 32 word list) list"

record Service =
  sv_Name :: string
  sv_Namespace :: string
  sv_Labels :: "(string \<times> string) list"
  sv_Ports :: "(32 word \<times> string \<times> 32 word) list"
  sv_ClusterIP :: string
  sv_Type :: string

record SecurityContext =
  sc_AllowPrivilegeEscalation :: bool
  sc_Privileged :: bool
  sc_ReadOnlyRootFilesystem :: bool
  sc_RunAsGroup :: int
  sc_RunAsUser :: int

record Container =
  ct_Name :: string
  ct_Image :: string
  ct_Command :: "string list"
  ct_ImagePullPolicy :: string
  ct_SecurityContext :: SecurityContext
  ct_Env :: "(string \<times> string) list"

record PodTemplateSpec =
  pt_GenerateName :: string
  pt_Namespace :: string
  pt_Labels :: "(string \<times> string) list"
  pt_Containers :: "Container list"
  pt_RestartPolicy :: string

record Job =
  jb_Name :: string
  jb_Namespace :: string
  jb_Labels :: "(string \<times> string) list"
  jb_OwnerReferences :: "(string \<times> string \<times> GroupVersionKind) list"
  jb_Template :: PodTemplateSpec

datatype JobConditionType = JobComplete | JobFailed | OtherCondition

text \<open>
  What a \<open>select\<close> over the watch channel and the context sees next: an object of the watch
  (\<open>WNoObject\<close> is the zero event of a closed channel), or the end of the context.
\<close>

datatype WatchChoice =
    WNoObject
  | WJob "JobConditionType list"
  | WOtherObject
  | WCtxDone

record TokenOptions =
  to_IdentityEndpoint :: string
  to_Username :: string
  to_Password :: string
  to_ProjectID :: string
  to_DomainName :: string

section \<open>The calls\<close>

text \<open>
  One datatype per client: the RDS service, the network services, monitoring and messaging
  (alarms, topics, subscriptions), authentication, Kubernetes, the database, and the process's
  own effects (sleeping, the clock, an HTTP GET).
\<close>

datatype RdsCall =
    CRdsList ListRdsInstanceOpts
  | CRdsCreate CreateRdsOpts
  | CRdsDelete string
  | CRdsEnlarge go_int string
  | CRdsResize string string
  | CRdsRestart string
  | CWaitJob int string
  | CBackupCreate BackupCreateOpts
  | CWaitBackup string string
  | CRestorePITR RestorePITROpts
  | CFlavorList string string

datatype NetCall = CSecgroupList string | CSubnetList string | CVpcList string

datatype MonCall =
    CAlarmList
  | CAlarmCreate CreateAlarmOpts
  | CAlarmDelete string
  | CTopicList
  | CTopicCreate string string
  | CTopicDelete string
  | CSubscriptionList
  | CSubscriptionCreate Subscription string

datatype IamCall =
    CAuthenticate
  | CNewClient service
  | CTokenCreate TokenOptions
  | CTokenRevoke string

datatype KubeCall =
    CInClusterConfig
  | CKubeClient
  | CRestClient RestConfig
  | CDiscoveryClient RestConfig
  | CRest Request
  | CServiceGet string string
  | CServiceCreate string Service
  | CServiceDelete string string
  | CEndpointsCreate string Endpoints
  | CEndpointsUpdate string Endpoints
  | CJobCreate string Job
  | CJobWatch string string
  | CJobGet string string
  | CEvent string string string string string

datatype SqlCall =
    CSqlOpen string string
  | CSqlPing
  | CSqlPrepare string
  | CSqlStmtQuery string string
  | CSqlRowsNext
  | CSqlQuery string
  | CSqlStmtClose
  | CSqlClose

datatype SysCall = CSleep int | CNow | CHttpGet string | CListen string

datatype call =
    is_RDS: RDS RdsCall
  | is_NET: NET NetCall
  | is_MON: MON MonCall
  | is_IAM: IAM IamCall
  | is_K8S: K8S KubeCall
  | is_DB: DB SqlCall
  | is_SYS: SYS SysCall

section \<open>The clients\<close>

record 'w OtcApi =
  o_AuthOptionsFromEnv :: "(string \<Rightarrow> string) \<Rightarrow> gerror + AuthOptions"
  o_AuthenticatedClient :: "AuthOptions \<Rightarrow> 'w \<Rightarrow> (gerror + handle) \<times> 'w"
  o_NewClient :: "service \<Rightarrow> handle \<Rightarrow> 'w \<Rightarrow> (gerror + handle) \<times> 'w"
  o_RdsPages :: "handle \<Rightarrow> ListRdsInstanceOpts \<Rightarrow> 'w \<Rightarrow> (gerror + string) \<times> 'w"
  o_ExtractRdsInstances :: "string \<Rightarrow> gerror + RdsInstanceResponse list"
  o_SecgroupPages :: "handle \<Rightarrow> string \<Rightarrow> 'w \<Rightarrow> (gerror + string) \<times> 'w"
  o_ExtractGroups :: "string \<Rightarrow> string list \<times> gerror option"
  o_SubnetList :: "handle \<Rightarrow> string \<Rightarrow> 'w \<Rightarrow> (gerror + string list) \<times> 'w"
  o_VpcList :: "handle \<Rightarrow> string \<Rightarrow> 'w \<Rightarrow> (gerror + string list) \<times> 'w"
  o_RdsCreate :: "handle \<Rightarrow> CreateRdsOpts \<Rightarrow> 'w \<Rightarrow> ApiResult \<times> 'w"
  o_RdsDelete :: "handle \<Rightarrow> string \<Rightarrow> 'w \<Rightarrow> ApiResult \<times> 'w"
  o_EnlargeVolume :: "handle \<Rightarrow> go_int \<Rightarrow> string \<Rightarrow> 'w \<Rightarrow> ApiResult \<times> 'w"
  o_Resize :: "handle \<Rightarrow> string \<Rightarrow> string \<Rightarrow> 'w \<Rightarrow> ApiResult \<times> 'w"
  o_Restart :: "handle \<Rightarrow> string \<Rightarrow> 'w \<Rightarrow> ApiResult \<times> 'w"
  o_RestorePITR :: "handle \<Rightarrow> RestorePITROpts \<Rightarrow> 'w \<Rightarrow> ApiResult \<times> 'w"
  o_ExtractInstance :: "ApiResult \<Rightarrow> gerror + (string \<times> string)"
  o_ExtractEnlarge :: "ApiResult \<Rightarrow> gerror + unit"
  o_ExtractResize :: "ApiResult \<Rightarrow> gerror + unit"
  o_ExtractRestart :: "ApiResult \<Rightarrow> gerror + string"
  o_ExtractJob :: "ApiResult \<Rightarrow> gerror + string"
  o_WaitForJobCompleted :: "handle \<Rightarrow> int \<Rightarrow> string \<Rightarrow> 'w \<Rightarrow> (gerror + unit) \<times> 'w"
  o_BackupCreate :: "handle \<Rightarrow> BackupCreateOpts \<Rightarrow> 'w \<Rightarrow> (gerror + string) \<times> 'w"
  o_WaitForBackup :: "handle \<Rightarrow> string \<Rightarrow> string \<Rightarrow> 'w \<Rightarrow> (gerror + unit) \<times> 'w"
  o_FlavorPages :: "handle \<Rightarrow> string \<Rightarrow> string \<Rightarrow> 'w \<Rightarrow> (gerror + string) \<times> 'w"
  o_ExtractDbFlavors :: "string \<Rightarrow> gerror + Flavor list"
  o_UniqSlice :: "(Posflavor \<Rightarrow> Posflavor \<Rightarrow> bool) \<Rightarrow> Posflavor list \<Rightarrow> Posflavor list \<times> nat"
  o_ListAlarms :: "handle \<Rightarrow> 'w \<Rightarrow> ((MetricAlarm list) option \<times> gerror option) \<times> 'w"
  o_CreateAlarm :: "handle \<Rightarrow> CreateAlarmOpts \<Rightarrow> 'w \<Rightarrow> (gerror + string) \<times> 'w"
  o_DeleteAlarm :: "handle \<Rightarrow> string \<Rightarrow> 'w \<Rightarrow> (gerror + unit) \<times> 'w"
  o_TopicList :: "handle \<Rightarrow> 'w \<Rightarrow> (gerror + Topic list) \<times> 'w"
  o_TopicCreate :: "handle \<Rightarrow> string \<Rightarrow> string \<Rightarrow> 'w \<Rightarrow> (Topic option \<times> gerror option) \<times> 'w"
  o_TopicDelete :: "handle \<Rightarrow> string \<Rightarrow> 'w \<Rightarrow> (gerror + unit) \<times> 'w"
  o_SubscriptionList :: "handle \<Rightarrow> 'w \<Rightarrow> (gerror + Subscription list) \<times> 'w"
  o_SubscriptionCreate :: "handle \<Rightarrow> Subscription \<Rightarrow> string \<Rightarrow> 'w \<Rightarrow> (gerror + unit) \<times> 'w"
  o_TokenCreate :: "handle \<Rightarrow> TokenOptions \<Rightarrow> 'w \<Rightarrow> (gerror + string) \<times> 'w"
  o_TokenRevoke :: "handle \<Rightarrow> string \<Rightarrow> 'w \<Rightarrow> (gerror + unit) \<times> 'w"

record 'w KubeApi =
  k_InClusterConfig :: "'w \<Rightarrow> (gerror + RestConfig) \<times> 'w"
  k_NewForConfig :: "RestConfig \<Rightarrow> 'w \<Rightarrow> (gerror + handle) \<times> 'w"
  k_RESTClientFor :: "RestConfig \<Rightarrow> 'w \<Rightarrow> (gerror + handle) \<times> 'w"
  k_DiscoveryClientFor :: "RestConfig \<Rightarrow> 'w \<Rightarrow> (gerror + handle) \<times> 'w"
  k_DefaultUserAgent :: string
  k_DoRds :: "handle \<Rightarrow> Request \<Rightarrow> 'w \<Rightarrow> (Rds \<times> gerror option) \<times> 'w"
  k_DoRdsList :: "handle \<Rightarrow> Request \<Rightarrow> 'w \<Rightarrow> (RdsList \<times> gerror option) \<times> 'w"
  k_DoError :: "handle \<Rightarrow> Request \<Rightarrow> 'w \<Rightarrow> gerror option \<times> 'w"
  k_Watch :: "handle \<Rightarrow> Request \<Rightarrow> 'w \<Rightarrow> (gerror + handle) \<times> 'w"
  k_ServiceGet :: "handle \<Rightarrow> string \<Rightarrow> string \<Rightarrow> 'w \<Rightarrow> (gerror + Service) \<times> 'w"
  k_ServiceCreate :: "handle \<Rightarrow> string \<Rightarrow> Service \<Rightarrow> 'w \<Rightarrow> (gerror + unit) \<times> 'w"
  k_ServiceDelete :: "handle \<Rightarrow> string \<Rightarrow> string \<Rightarrow> 'w \<Rightarrow> (gerror + unit) \<times> 'w"
  k_EndpointsCreate :: "handle \<Rightarrow> string \<Rightarrow> Endpoints \<Rightarrow> 'w \<Rightarrow> (gerror + unit) \<times> 'w"
  k_EndpointsUpdate :: "handle \<Rightarrow> string \<Rightarrow> Endpoints \<Rightarrow> 'w \<Rightarrow> (gerror + unit) \<times> 'w"
  k_JobCreate :: "string \<Rightarrow> Job \<Rightarrow> 'w \<Rightarrow> (gerror + unit) \<times> 'w"
  k_JobWatch :: "string \<Rightarrow> string \<Rightarrow> 'w \<Rightarrow> (gerror + WatchChoice list) \<times> 'w"
  k_JobGet :: "string \<Rightarrow> string \<Rightarrow> 'w \<Rightarrow> (unit option \<times> gerror option) \<times> 'w"
  k_Eventf :: "Rds \<Rightarrow> string \<Rightarrow> string \<Rightarrow> string \<Rightarrow> 'w \<Rightarrow> 'w"

record 'w SqlApi =
  d_Open :: "string \<Rightarrow> string \<Rightarrow> 'w \<Rightarrow> (gerror + handle) \<times> 'w"
  d_Ping :: "handle \<Rightarrow> 'w \<Rightarrow> (gerror + unit) \<times> 'w"
  d_Prepare :: "handle \<Rightarrow> string \<Rightarrow> 'w \<Rightarrow> (gerror + handle) \<times> 'w"
  d_StmtQuery :: "handle \<Rightarrow> string \<Rightarrow> 'w \<Rightarrow> (gerror + handle) \<times> 'w"
  d_RowsNext :: "handle \<Rightarrow> 'w \<Rightarrow> bool \<times> 'w"
  d_Query :: "handle \<Rightarrow> string \<Rightarrow> 'w \<Rightarrow> (gerror + unit) \<times> 'w"
  d_StmtClose :: "handle \<Rightarrow> 'w \<Rightarrow> 'w"
  d_Close :: "handle \<Rightarrow> 'w \<Rightarrow> 'w"

record 'w Ext =
  otc :: "'w OtcApi"
  kube :: "'w KubeApi"
  sqldb :: "'w SqlApi"
  x_Sleep :: "int \<Rightarrow> 'w \<Rightarrow> 'w"
  x_NowUnix :: "'w \<Rightarrow> int \<times> 'w"
  x_HttpGet :: "string \<Rightarrow> 'w \<Rightarrow> (gerror + unit) \<times> 'w"
  x_ListenAndServe :: "string \<Rightarrow> 'w \<Rightarrow> gerror option \<times> 'w"

section \<open>The state of a running call\<close>

text \<open>
  Beside the world and the log: the process environment, the package variable \<open>projectID\<close>
  and the two objects behind the pointers \<open>oldRds\<close> and \<open>newRds\<close> that the handlers pass
  around and mutate.
\<close>

record 'w sys =
  world :: 'w
  calls :: "(call \<times> bool) list"
  osenv :: "string \<Rightarrow> string"
  projectID :: string
  oldRds :: Rds
  newRds :: Rds

definition log_call :: "call \<Rightarrow> bool \<Rightarrow> 'w \<Rightarrow> 'w sys \<Rightarrow> 'w sys" where
  "log_call c ok w s = s\<lparr>world := w, calls := calls s @ [(c, ok)]\<rparr>"

lemma log_call_sel [simp]:
  "world (log_call c ok w s) = w"
  "calls (log_call c ok w s) = calls s @ [(c, ok)]"
  "osenv (log_call c ok w s) = osenv s"
  "projectID (log_call c ok w s) = projectID s"
  "oldRds (log_call c ok w s) = oldRds s"
  "newRds (log_call c ok w s) = newRds s"
  by (simp_all add: log_call_def)

definition perform :: "call \<Rightarrow> ('w \<Rightarrow> 'a \<times> 'w) \<Rightarrow> ('w sys, 'a) go" where
  "perform c f = (\<lambda>s. case f (world s) of (a, w) \<Rightarrow> (Ok a, log_call c True w s))"

definition perform_e :: "call \<Rightarrow> ('w \<Rightarrow> (gerror + 'a) \<times> 'w) \<Rightarrow> ('w sys, 'a) go" where
  "perform_e c f = (\<lambda>s. case f (world s) of
      (Inl e, w) \<Rightarrow> (Fail e, log_call c False w s)
    | (Inr a, w) \<Rightarrow> (Ok a, log_call c True w s))"

definition perform_res :: "call \<Rightarrow> ('w \<Rightarrow> ApiResult \<times> 'w) \<Rightarrow> ('w sys, ApiResult) go" where
  "perform_res c f = (\<lambda>s. case f (world s) of
      (r, w) \<Rightarrow> (Ok r, log_call c (res_Err r = None) w s))"

text \<open>A call that returns a value beside its error, both of which the source goes on to use.\<close>

definition perform_v :: "call \<Rightarrow> ('w \<Rightarrow> ('a \<times> gerror option) \<times> 'w) \<Rightarrow>
    ('w sys, 'a \<times> gerror option) go" where
  "perform_v c f = (\<lambda>s. case f (world s) of
      ((a, e), w) \<Rightarrow> (Ok (a, e), log_call c (e = None) w s))"

definition perform_w :: "call \<Rightarrow> ('w \<Rightarrow> 'w) \<Rightarrow> ('w sys, unit) go" where
  "perform_w c f = (\<lambda>s. (Ok (), log_call c True (f (world s)) s))"

lemmas perform_defs = perform_def perform_e_def perform_res_def perform_v_def perform_w_def

lemma perform_eval [go_eval]:
  "perform c f s = (case f (world s) of (a, w) \<Rightarrow> (Ok a, log_call c True w s))"
  by (simp add: perform_def)

lemma perform_e_eval [go_eval]:
  "perform_e c g s = (case g (world s) of
      (Inl e, w) \<Rightarrow> (Fail e, log_call c False w s) | (Inr a, w) \<Rightarrow> (Ok a, log_call c True w s))"
  by (simp add: perform_e_def)

lemma perform_res_eval [go_eval]:
  "perform_res c f s = (case f (world s) of (r, w) \<Rightarrow> (Ok r, log_call c (res_Err r = None) w s))"
  by (simp add: perform_res_def)

lemma perform_v_eval [go_eval]:
  "perform_v c f s = (case f (world s) of ((a, e), w) \<Rightarrow> (Ok (a, e), log_call c (e = None) w s))"
  by (simp add: perform_v_def)

lemma perform_w_eval [go_eval]: "perform_w c f s = (Ok (), log_call c True (f (world s)) s)"
  by (simp add: perform_w_def)

lemma no_crash_perform [no_crash_intro]:
  "no_crash (perform c f)" "no_crash (perform_e c g)" "no_crash (perform_res c h)"
  "no_crash (perform_v c v)" "no_crash (perform_w c u)"
  by (auto simp: no_crash_def go_eval split: prod.split sum.split)

section \<open>What a run adds to the log\<close>

definition emits :: "(call \<times> bool \<Rightarrow> bool) \<Rightarrow> 'w sys \<Rightarrow> 'w sys \<Rightarrow> bool" where
  "emits P s t \<longleftrightarrow> (\<exists>new. calls t = calls s @ new \<and> list_all P new)"

interpretation log_growth: run_relation "emits P :: 'w sys \<Rightarrow> 'w sys \<Rightarrow> bool" for P
proof
  fix s :: "'w sys"
  show "emits P s s" by (simp add: emits_def)
next
  fix s t u :: "'w sys"
  assume "emits P s t" and "emits P t u"
  then show "emits P s u" by (auto simp: emits_def)
qed

abbreviation uses :: "(call \<Rightarrow> bool) \<Rightarrow> ('w sys, 'a) go \<Rightarrow> bool" where
  "uses K m \<equiv> run_respects (emits (\<lambda>(c, _). K c)) m"

lemma emits_log_call: "P (c, ok) \<Longrightarrow> emits P s (log_call c ok w s)"
  by (simp add: emits_def)

lemma emits_same_calls: "calls t = calls s \<Longrightarrow> emits P s t"
  by (simp add: emits_def)

lemma emits_mono: "emits P s t \<Longrightarrow> (\<And>e. P e \<Longrightarrow> Q e) \<Longrightarrow> emits Q s t"
  by (auto simp: emits_def list_all_iff)

lemma uses_mono: "uses K m \<Longrightarrow> (\<And>c. K c \<Longrightarrow> L c) \<Longrightarrow> uses L m"
  unfolding run_respects_def by (blast intro: emits_mono)

named_theorems uses_intro "what the single external calls add to the log"

lemma uses_perform [uses_intro]: "K c \<Longrightarrow> uses K (perform c f)"
  by (auto simp: run_respects_def go_eval emits_def split: prod.split)

lemma uses_perform_e [uses_intro]: "K c \<Longrightarrow> uses K (perform_e c g)"
  by (auto simp: run_respects_def go_eval emits_def split: prod.split sum.split)

lemma uses_perform_res [uses_intro]: "K c \<Longrightarrow> uses K (perform_res c h)"
  by (auto simp: run_respects_def go_eval emits_def split: prod.split)

lemma uses_perform_v [uses_intro]: "K c \<Longrightarrow> uses K (perform_v c v)"
  by (auto simp: run_respects_def go_eval emits_def split: prod.split)

lemma uses_perform_w [uses_intro]: "K c \<Longrightarrow> uses K (perform_w c u)"
  by (auto simp: run_respects_def go_eval emits_def)

lemma uses_modify [uses_intro]: "(\<And>s. calls (f s) = calls s) \<Longrightarrow> uses K (go_modify f)"
  by (auto simp: run_respects_def go_eval emits_def)

text \<open>Fields of the state that an external call leaves alone.\<close>

lemma frame_perform [uses_intro]:
  "(\<And>c ok w s. fld (log_call c ok w s) = fld s) \<Longrightarrow>
     run_respects (same_field fld) (perform c f)"
  by (auto simp: run_respects_def go_eval same_field_def split: prod.split)

lemma frame_perform_e [uses_intro]:
  "(\<And>c ok w s. fld (log_call c ok w s) = fld s) \<Longrightarrow>
     run_respects (same_field fld) (perform_e c g)"
  by (auto simp: run_respects_def go_eval same_field_def split: prod.split sum.split)

lemma frame_perform_res [uses_intro]:
  "(\<And>c ok w s. fld (log_call c ok w s) = fld s) \<Longrightarrow>
     run_respects (same_field fld) (perform_res c h)"
  by (auto simp: run_respects_def go_eval same_field_def split: prod.split)

lemma frame_perform_v [uses_intro]:
  "(\<And>c ok w s. fld (log_call c ok w s) = fld s) \<Longrightarrow>
     run_respects (same_field fld) (perform_v c v)"
  by (auto simp: run_respects_def go_eval same_field_def split: prod.split)

lemma frame_perform_w [uses_intro]:
  "(\<And>c ok w s. fld (log_call c ok w s) = fld s) \<Longrightarrow>
     run_respects (same_field fld) (perform_w c u)"
  by (auto simp: run_respects_def go_eval same_field_def)

lemma frame_modify [uses_intro]:
  "(\<And>s. fld (f s) = fld s) \<Longrightarrow> run_respects (same_field fld) (go_modify f)"
  by (simp add: run_respects_def go_eval same_field_def)

text \<open>
  The calls a run made, as a list: what is in the log after it and was not there before.
\<close>

definition made :: "'w sys \<Rightarrow> 'w sys \<Rightarrow> (call \<times> bool) list" where
  "made s t = drop (length (calls s)) (calls t)"

lemma made_same [simp]: "made s s = []"
  by (simp add: made_def)

lemma emits_made: "emits P s t \<Longrightarrow> list_all P (made s t)"
  by (auto simp: emits_def made_def)

lemma uses_made: "uses K m \<Longrightarrow> m s = (r, t) \<Longrightarrow> (c, ok) \<in> set (made s t) \<Longrightarrow> K c"
  using emits_made run_respectsD by (fastforce simp: list_all_iff)

lemma emits_prefix: "emits P s t \<Longrightarrow> calls t = calls s @ made s t"
  by (auto simp: emits_def made_def)

section \<open>Views of the log\<close>

text \<open>\<open>seen f\<close>: what the calls of interest carry, in order; \<open>f\<close> picks them.\<close>

definition seen :: "(call \<Rightarrow> 'b option) \<Rightarrow> (call \<times> bool) list \<Rightarrow> 'b list" where
  "seen f cs = List.map_filter (\<lambda>(c, _). f c) cs"

lemma seen_append [simp]: "seen f (xs @ ys) = seen f xs @ seen f ys"
  by (simp add: seen_def List.map_filter_def)

lemma seen_Nil [simp]: "seen f [] = []"
  by (simp add: seen_def List.map_filter_def)

lemma seen_Cons [simp]:
  "seen f ((c, ok) # cs) = (case f c of None \<Rightarrow> seen f cs | Some x \<Rightarrow> x # seen f cs)"
  by (simp add: seen_def List.map_filter_def split: option.split)

lemma seen_set: "x \<in> set (seen f cs) \<longleftrightarrow> (\<exists>c ok. (c, ok) \<in> set cs \<and> f c = Some x)"
  by (induction cs) (auto split: option.splits)

lemma seen_none: "list_all (\<lambda>(c, _). f c = None) cs \<Longrightarrow> seen f cs = []"
  by (induction cs) auto

lemma seen_mem: "seen f cs = xs @ x # ys \<Longrightarrow> \<exists>c ok. (c, ok) \<in> set cs \<and> f c = Some x"
  using seen_set [of x f cs] by simp

text \<open>A piece of code without calls of interest leaves the view as it was.\<close>

lemma seen_unchanged:
  assumes "uses (\<lambda>c. f c = None) m" and "m s = (r, t)"
  shows "seen f (calls t) = seen f (calls s)"
  using run_respectsD [OF assms] by (auto simp: emits_def seen_none)

lemma made_seen:
  assumes "uses (\<lambda>c. f c = None) m" and "m s = (r, t)"
  shows "seen f (made s t) = []"
  using run_respectsD [OF assms] by (auto simp: emits_def made_def seen_none)

lemma silent_run:
  assumes "uses (\<lambda>c. f c = None) m" and "m s = (r, t)"
  obtains new where "calls t = calls s @ new" and "seen f new = []"
  using run_respectsD [OF assms] by (auto simp: emits_def seen_none)

lemma seen_same_calls: "calls t = calls s @ cs \<Longrightarrow> made s t = cs"
  by (simp add: made_def)

text \<open>The one call of interest of a log splits it in one way.\<close>

lemma seen_split_unique:
  assumes "pre @ (c, ok) # post = pre' @ (c', ok') # post'"
    and "f c = Some x" and "seen f pre' = []" and "seen f post' = []"
  shows "pre = pre' \<and> c = c' \<and> ok = ok' \<and> post = post'"
proof -
  have no: "(c, ok) \<notin> set pre'" "(c, ok) \<notin> set post'"
    using assms(2-4) by (metis empty_iff empty_set seen_set)+
  then have "pre = pre'"
    using assms(1) by (auto simp: append_eq_append_conv2 append_eq_Cons_conv Cons_eq_append_conv)
  with assms(1) show ?thesis by simp
qed

text \<open>A call whose error is dropped always succeeds, and is in the log.\<close>

lemma ignored_call:
  obtains ok w where "go_ignore (perform_e c g) s = (Ok (), log_call c ok w s)"
proof -
  obtain r w where "g (world s) = (r, w)" by fastforce
  then show thesis by (cases r) (auto simp: go_eval intro: that)
qed

text \<open>A loop whose body never fails adds to a view of the log what its iterations add.\<close>

lemma each_logged:
  assumes "\<And>x s. x \<in> set xs \<Longrightarrow> \<exists>t. f x s = (Ok (), t) \<and> V (calls t) = V (calls s) @ g x"
  shows "\<exists>t. go_each f xs s = (Ok (), t) \<and> V (calls t) = V (calls s) @ concat (map g xs)"
  using assms
proof (induction xs arbitrary: s)
  case Nil
  then show ?case by (simp add: go_eval)
next
  case (Cons x xs)
  from Cons.prems obtain u where u: "f x s = (Ok (), u)" "V (calls u) = V (calls s) @ g x"
    by (meson list.set_intros(1))
  moreover from Cons.prems Cons.IH [of u] obtain t
    where "go_each f xs u = (Ok (), t)" "V (calls t) = V (calls u) @ concat (map g xs)"
    by (meson list.set_intros(2))
  ultimately show ?case by (simp add: go_eval)
qed

lemma concat_if_filter:
  "concat (map (\<lambda>x. if p x then [h x] else []) xs) = map h (filter p xs)"
  by (induction xs) simp_all

end
