(* ===== verification/Event_Handlers.thy ===== *)
theory Event_Handlers
  imports Cloud
begin

text \<open>
  \<open>pkg/controller/event.go\<close> and the informer's side of \<open>pkg/controller/controller.go\<close>: the three
  handlers that turn a notification of the informer into an event of the work queue.

  An event holds pointers: the objects are in the heap of the controller, a copy is a new
  address.  The work queue is client-go's; its operations are the fields of \<open>QueueApi\<close>, a
  parameter.  The lemmas show the contract that the handlers share and which events a
  sequence of notifications puts into the queue.
\<close>

section \<open>event.go\<close>

definition addRds_type :: string where
  "addRds_type = ''addRds''"

definition delRds_type :: string where
  "delRds_type = ''delRds''"

definition updateRds_type :: string where
  "updateRds_type = ''updateRds''"

record event =
  ev_eventType :: string
  ev_oldObj :: "addr option"
  ev_newObj :: addr

section \<open>The controller\<close>

text \<open>
  What \<open>Get\<close> returns is an item, or \<open>None\<close> when the queue is shut down and drained.  \<open>q_moves\<close> is what
  the queue does by itself: an item that was added with a delay becomes ready.
\<close>

record 'q QueueApi =
  q_Add :: "event \<Rightarrow> 'q \<Rightarrow> 'q"
  q_Get :: "'q \<Rightarrow> event option \<times> 'q"
  q_Done :: "event \<Rightarrow> 'q \<Rightarrow> 'q"
  q_Forget :: "event \<Rightarrow> 'q \<Rightarrow> 'q"
  q_NumRequeues :: "event \<Rightarrow> 'q \<Rightarrow> nat"
  q_AddRateLimited :: "event \<Rightarrow> 'q \<Rightarrow> 'q"
  q_ShutDown :: "'q \<Rightarrow> 'q"
  q_moves :: "'q \<Rightarrow> 'q \<Rightarrow> bool"

text \<open>\<open>c_heap\<close> and \<open>c_next\<close> are the memory behind the events' pointers.\<close>

record 'q Controller =
  c_namespace :: string
  c_watchnamespaces :: string
  c_refreshtime :: go_int
  c_queue :: 'q
  c_heap :: "addr \<Rightarrow> Rds option"
  c_next :: addr

definition store_rds :: "Rds \<Rightarrow> 'q Controller \<Rightarrow> addr \<times> 'q Controller" where
  "store_rds r c = (c_next c, c\<lparr>c_heap := (c_heap c)(c_next c \<mapsto> r), c_next := Suc (c_next c)\<rparr>)"

definition queue_Add :: "'q QueueApi \<Rightarrow> event \<Rightarrow> 'q Controller \<Rightarrow> 'q Controller" where
  "queue_Add Q e c = c\<lparr>c_queue := q_Add Q e (c_queue c)\<rparr>"

text \<open>
  An object as a handler gets it: a resource, the tombstone that the informer hands out for a
  deletion it has missed, or anything else.
\<close>

datatype kube_object = RdsObject Rds | Tombstone string Rds | OtherObject

definition as_Rds :: "kube_object \<Rightarrow> Rds option" where
  "as_Rds obj = (case obj of RdsObject r \<Rightarrow> Some r | _ \<Rightarrow> None)"

definition watched :: "string \<Rightarrow> Rds \<Rightarrow> bool" where
  "watched watchnamespaces rds \<longleftrightarrow>
     (let w = Fields watchnamespaces
      in \<not> (rds_Namespace rds \<notin> set w \<and> ''*'' \<notin> set w))"

definition addRds :: "'q QueueApi \<Rightarrow> kube_object \<Rightarrow> 'q Controller \<Rightarrow> 'q Controller" where
  "addRds Q obj c = (case as_Rds obj of
      None \<Rightarrow> c
    | Some rds \<Rightarrow>
        (if \<not> watched (c_watchnamespaces c) rds then c
         else (case store_rds (Rds_DeepCopyInto rds) c of (p, c') \<Rightarrow>
           queue_Add Q \<lparr>ev_eventType = addRds_type, ev_oldObj = None, ev_newObj = p\<rparr> c')))"

definition delRds :: "'q QueueApi \<Rightarrow> kube_object \<Rightarrow> 'q Controller \<Rightarrow> 'q Controller" where
  "delRds Q obj c = (case as_Rds obj of
      None \<Rightarrow> c
    | Some rds \<Rightarrow>
        (if \<not> watched (c_watchnamespaces c) rds then c
         else (case store_rds (Rds_DeepCopyInto rds) c of (p, c') \<Rightarrow>
           queue_Add Q \<lparr>ev_eventType = delRds_type, ev_oldObj = None, ev_newObj = p\<rparr> c')))"

definition updateRds :: "'q QueueApi \<Rightarrow> kube_object \<Rightarrow> kube_object \<Rightarrow> 'q Controller \<Rightarrow> 'q Controller" where
  "updateRds Q oldObj newObj c = (case as_Rds oldObj of
      None \<Rightarrow> c
    | Some old \<Rightarrow> (case as_Rds newObj of
        None \<Rightarrow> c
      | Some rds \<Rightarrow>
          (if \<not> watched (c_watchnamespaces c) rds then c
           else (case store_rds (Rds_DeepCopyInto old) c of (po, c') \<Rightarrow>
             (case store_rds (Rds_DeepCopyInto rds) c' of (p, c'') \<Rightarrow>
               queue_Add Q \<lparr>ev_eventType = updateRds_type, ev_oldObj = Some po, ev_newObj = p\<rparr> c'')))))"

text \<open>The handlers as \<open>New\<close> registers them with the informer.\<close>

datatype notification = OnAdd kube_object | OnDelete kube_object | OnUpdate kube_object kube_object

definition dispatch :: "'q QueueApi \<Rightarrow> notification \<Rightarrow> 'q Controller \<Rightarrow> 'q Controller" where
  "dispatch Q n c = (case n of
      OnAdd obj \<Rightarrow> addRds Q obj c
    | OnDelete obj \<Rightarrow> delRds Q obj c
    | OnUpdate old new \<Rightarrow> updateRds Q old new c)"

definition new_controller :: "string \<Rightarrow> string \<Rightarrow> go_int \<Rightarrow> 'q \<Rightarrow> 'q Controller" where
  "new_controller namespace watchnamespaces refreshtime queue =
     \<lparr>c_namespace = namespace, c_watchnamespaces = watchnamespaces, c_refreshtime = refreshtime,
      c_queue = queue, c_heap = (\<lambda>_. None), c_next = 0\<rparr>"

section \<open>The contract of a handler\<close>

text \<open>
  An event by value: its kind, the old resource of an update, and the new one.  \<open>event_at\<close> is
  the event that holds it when memory is allocated from \<open>a\<close> on.
\<close>

type_synonym change = "string \<times> Rds option \<times> Rds"

fun cells :: "change \<Rightarrow> Rds list" where
  "cells (ty, None, r) = [r]"
| "cells (ty, Some old, r) = [old, r]"

fun event_at :: "addr \<Rightarrow> change \<Rightarrow> event" where
  "event_at a (ty, None, r) = \<lparr>ev_eventType = ty, ev_oldObj = None, ev_newObj = a\<rparr>"
| "event_at a (ty, Some old, r) = \<lparr>ev_eventType = ty, ev_oldObj = Some a, ev_newObj = Suc a\<rparr>"

definition stored :: "addr \<Rightarrow> Rds list \<Rightarrow> (addr \<Rightarrow> Rds option) \<Rightarrow> addr \<Rightarrow> Rds option" where
  "stored a rs h = (\<lambda>x. if a \<le> x \<and> x < a + length rs then Some (rs ! (x - a)) else h x)"

definition enqueue :: "'q QueueApi \<Rightarrow> change \<Rightarrow> 'q Controller \<Rightarrow> 'q Controller" where
  "enqueue Q ch c = c\<lparr>c_queue := q_Add Q (event_at (c_next c) ch) (c_queue c),
     c_heap := stored (c_next c) (cells ch) (c_heap c), c_next := c_next c + length (cells ch)\<rparr>"

text \<open>
  \<open>wants w n\<close> is the change that a notification is about, for the watch list \<open>w\<close>: none for a
  foreign object or a namespace that is not watched.
\<close>

locale event_handler =
  fixes Q :: "'q QueueApi"
    and handle :: "'n \<Rightarrow> 'q Controller \<Rightarrow> 'q Controller"
    and wants :: "string \<Rightarrow> 'n \<Rightarrow> change option"
  assumes ignores: "wants (c_watchnamespaces c) n = None \<Longrightarrow> handle n c = c"
    and enqueues: "wants (c_watchnamespaces c) n = Some ch \<Longrightarrow> handle n c = enqueue Q ch c"
begin

lemma handle_eq:
  "handle n c = (case wants (c_watchnamespaces c) n of None \<Rightarrow> c | Some ch \<Rightarrow> enqueue Q ch c)"
  using ignores enqueues by (auto split: option.split)

lemma keeps_settings:
  "c_watchnamespaces (handle n c) = c_watchnamespaces c" "c_namespace (handle n c) = c_namespace c"
  "c_refreshtime (handle n c) = c_refreshtime c"
  by (auto simp: handle_eq enqueue_def split: option.split)

lemma keeps_memory: "x < c_next c \<Longrightarrow> c_heap (handle n c) x = c_heap c x"
  by (auto simp: handle_eq enqueue_def stored_def split: option.split)

text \<open>A sequence of notifications is the sequence of the changes it is about.\<close>

lemma handle_all:
  "fold handle ns c = fold (enqueue Q) (List.map_filter (wants (c_watchnamespaces c)) ns) c"
proof (induction ns arbitrary: c)
  case (Cons n ns)
  then show ?case
    using keeps_settings(1) [of n c]
    by (auto simp: List.map_filter_def handle_eq split: option.splits)
qed (simp add: List.map_filter_def)

end

definition wants_object :: "string \<Rightarrow> string \<Rightarrow> kube_object \<Rightarrow> change option" where
  "wants_object ty w obj = (case obj of
      RdsObject r \<Rightarrow> (if watched w r then Some (ty, None, r) else None) | _ \<Rightarrow> None)"

definition wants_pair :: "string \<Rightarrow> kube_object \<times> kube_object \<Rightarrow> change option" where
  "wants_pair w p = (case p of
      (RdsObject old, RdsObject r) \<Rightarrow> (if watched w r then Some (updateRds_type, Some old, r) else None)
    | _ \<Rightarrow> None)"

definition wants_change :: "string \<Rightarrow> notification \<Rightarrow> change option" where
  "wants_change w n = (case n of
      OnAdd obj \<Rightarrow> wants_object addRds_type w obj
    | OnDelete obj \<Rightarrow> wants_object delRds_type w obj
    | OnUpdate old new \<Rightarrow> wants_pair w (old, new))"

lemma stored_one: "stored a [r] h = h(a \<mapsto> r)"
  by (auto simp: stored_def)

lemma stored_two: "stored a [q, r] h = h(a \<mapsto> q, Suc a \<mapsto> r)"
  by (auto simp: stored_def fun_eq_iff nth_Cons split: nat.split)

lemmas handler_defs = as_Rds_def store_rds_def queue_Add_def enqueue_def wants_object_def
  wants_pair_def stored_one stored_two

interpretation adds: event_handler Q "addRds Q" "wants_object addRds_type" for Q :: "'q QueueApi"
  by unfold_locales
    (auto simp: addRds_def handler_defs split: kube_object.splits if_splits)

interpretation deletes: event_handler Q "delRds Q" "wants_object delRds_type" for Q :: "'q QueueApi"
  by unfold_locales
    (auto simp: delRds_def handler_defs split: kube_object.splits if_splits)

interpretation updates: event_handler Q "\<lambda>(old, new). updateRds Q old new" wants_pair for Q :: "'q QueueApi"
  by unfold_locales
    (auto simp: updateRds_def handler_defs split: kube_object.splits if_splits)

interpretation notifications: event_handler Q "dispatch Q" wants_change for Q :: "'q QueueApi"
proof
  fix c :: "'q Controller" and n ch
  show "wants_change (c_watchnamespaces c) n = None \<Longrightarrow> dispatch Q n c = c"
    by (cases n) (use updates.ignores [of c] in \<open>auto simp: dispatch_def wants_change_def
      adds.ignores deletes.ignores\<close>)
  show "wants_change (c_watchnamespaces c) n = Some ch \<Longrightarrow> dispatch Q n c = enqueue Q ch c"
    by (cases n) (use updates.enqueues [of c _ ch] in \<open>auto simp: dispatch_def wants_change_def
      adds.enqueues deletes.enqueues\<close>)
qed

section \<open>What a sequence of notifications enqueues\<close>

fun events_from :: "addr \<Rightarrow> change list \<Rightarrow> event list" where
  "events_from a [] = []"
| "events_from a (ch # chs) = event_at a ch # events_from (a + length (cells ch)) chs"

definition event_value :: "(addr \<Rightarrow> Rds option) \<Rightarrow> event \<Rightarrow> string \<times> Rds option \<times> Rds option" where
  "event_value h e = (ev_eventType e, Option.bind (ev_oldObj e) h, h (ev_newObj e))"

definition change_value :: "change \<Rightarrow> string \<times> Rds option \<times> Rds option" where
  "change_value ch = (case ch of (ty, old, r) \<Rightarrow> (ty, old, Some r))"

lemma enqueue_next [simp]: "c_next (enqueue Q ch c) = c_next c + length (cells ch)"
  by (simp add: enqueue_def)

lemma enqueue_all_queue:
  "c_queue (fold (enqueue Q) chs c) = fold (q_Add Q) (events_from (c_next c) chs) (c_queue c)"
  by (induction chs arbitrary: c) (simp_all add: enqueue_def)

lemma enqueue_all_memory: "x < c_next c \<Longrightarrow> c_heap (fold (enqueue Q) chs c) x = c_heap c x"
  by (induction chs arbitrary: c) (simp_all add: enqueue_def stored_def)

lemma cells_nonempty [simp]: "0 < length (cells ch)"
  by (cases ch rule: cells.cases) simp_all

lemma event_at_value:
  assumes "\<And>x. x < a + length (cells ch) \<Longrightarrow> h x = stored a (cells ch) g x"
  shows "event_value h (event_at a ch) = change_value ch"
  using assms
  by (cases ch rule: cells.cases)
    (simp_all add: event_value_def change_value_def stored_def)

lemma enqueue_all_values:
  "map (event_value (c_heap (fold (enqueue Q) chs c))) (events_from (c_next c) chs) = map change_value chs"
proof (induction chs arbitrary: c)
  case (Cons ch chs)
  have "event_value (c_heap (fold (enqueue Q) chs (enqueue Q ch c))) (event_at (c_next c) ch) = change_value ch"
    by (rule event_at_value [of _ _ _ "c_heap c"]) (simp add: enqueue_all_memory enqueue_def)
  then show ?case using Cons.IH [of "enqueue Q ch c"] by simp
qed simp

lemma events_from_fresh: "e \<in> set (events_from a chs) \<Longrightarrow> a \<le> ev_newObj e"
proof (induction chs arbitrary: a)
  case (Cons ch chs)
  then show ?case by (cases ch rule: cells.cases) (fastforce dest: Cons.IH)+
qed simp

lemma event_at_new: "ev_newObj (event_at a ch) < a + length (cells ch)"
  by (cases ch rule: cells.cases) simp_all

lemma events_from_distinct: "distinct (events_from a chs)"
proof (induction chs arbitrary: a)
  case (Cons ch chs)
  have "event_at a ch \<notin> set (events_from (a + length (cells ch)) chs)"
    using events_from_fresh [of "event_at a ch" "a + length (cells ch)" chs] event_at_new [of a ch] by auto
  with Cons show ?case by simp
qed simp

section \<open>Property\<close>

text \<open>C9: a sequence of notifications puts one event into the queue for each addition, deletion and
  change of a resource in a watched namespace, in their order, and nothing for any other object
  or namespace.  Each event points to fresh copies of the objects of its notification, no two
  events are equal (so the queue never merges two), and the memory of earlier events is not
  written.\<close>

theorem notifications_enqueue:
  "let c' = fold (dispatch Q) ns c;
       changes = List.map_filter (wants_change (c_watchnamespaces c)) ns;
       evs = events_from (c_next c) changes
   in c_queue c' = fold (q_Add Q) evs (c_queue c) \<and> distinct evs \<and>
      map (event_value (c_heap c')) evs = map change_value changes \<and>
      map (c_heap c') [0..<c_next c] = map (c_heap c) [0..<c_next c]"
  unfolding Let_def notifications.handle_all
  by (simp add: enqueue_all_queue enqueue_all_values enqueue_all_memory events_from_distinct)

end
