(* ===== verification/Work_Queue.thy ===== *)
theory Work_Queue
  imports Event_Handlers
begin

text \<open>
  The work queue of client-go, which the controller uses through \<open>QueueApi\<close>: what its
  documentation promises, as predicates on the parameter, and a concrete queue that has it.  The
  properties of the workers assume of these predicates the ones they need.
\<close>

section \<open>What the queue promises\<close>

text \<open>The counts of the rate limiter.\<close>

definition counts_requeues :: "'q QueueApi \<Rightarrow> bool" where
  "counts_requeues Q \<longleftrightarrow> (\<forall>e f q.
     q_NumRequeues Q f (q_AddRateLimited Q e q) = q_NumRequeues Q f q + (if e = f then 1 else 0) \<and>
     q_NumRequeues Q f (q_Forget Q e q) = (if e = f then 0 else q_NumRequeues Q f q) \<and>
     q_NumRequeues Q f (q_Done Q e q) = q_NumRequeues Q f q \<and>
     q_NumRequeues Q f (q_Add Q e q) = q_NumRequeues Q f q \<and>
     q_NumRequeues Q f (snd (q_Get Q q)) = q_NumRequeues Q f q) \<and>
   (\<forall>f q q'. q_moves Q q q' \<longrightarrow> q_NumRequeues Q f q' = q_NumRequeues Q f q)"

lemma counts_requeuesD:
  assumes "counts_requeues Q"
  shows "q_NumRequeues Q f (q_AddRateLimited Q e q) = q_NumRequeues Q f q + (if e = f then 1 else 0)"
    and "q_NumRequeues Q f (q_Forget Q e q) = (if e = f then 0 else q_NumRequeues Q f q)"
    and "q_NumRequeues Q f (q_Done Q e q) = q_NumRequeues Q f q"
    and "q_NumRequeues Q f (q_Add Q e q) = q_NumRequeues Q f q"
    and "q_Get Q q = (item, q') \<Longrightarrow> q_NumRequeues Q f q' = q_NumRequeues Q f q"
    and "q_moves Q q q' \<Longrightarrow> q_NumRequeues Q f q' = q_NumRequeues Q f q"
  using assms unfolding counts_requeues_def by (metis snd_conv)+

text \<open>
  A queue that has been shut down takes nothing in and hands out what is left: \<open>down\<close> holds of
  such a state, and \<open>left\<close> counts its items.
\<close>

definition drains :: "'q QueueApi \<Rightarrow> ('q \<Rightarrow> bool) \<Rightarrow> ('q \<Rightarrow> nat) \<Rightarrow> bool" where
  "drains Q down left \<longleftrightarrow> (\<forall>q. down q \<longrightarrow>
     (case q_Get Q q of (None, q') \<Rightarrow> True | (Some e, q') \<Rightarrow> down q' \<and> left q' < left q) \<and>
     (\<forall>e. down (q_Done Q e q) \<and> left (q_Done Q e q) \<le> left q \<and>
          down (q_Forget Q e q) \<and> left (q_Forget Q e q) \<le> left q \<and>
          down (q_AddRateLimited Q e q) \<and> left (q_AddRateLimited Q e q) \<le> left q))"

lemma drains_get:
  "drains Q down left \<Longrightarrow> down q \<Longrightarrow> q_Get Q q = (Some e, q') \<Longrightarrow> down q' \<and> left q' < left q"
  unfolding drains_def by (drule spec [of _ q]) simp

lemma drains_settle:
  assumes "drains Q down left" and "down q"
  shows "down (q_Done Q e (q_Forget Q e q)) \<and> left (q_Done Q e (q_Forget Q e q)) \<le> left q"
    and "down (q_Done Q e (q_AddRateLimited Q e q)) \<and> left (q_Done Q e (q_AddRateLimited Q e q)) \<le> left q"
proof -
  have op: "down q' \<Longrightarrow> down (q_Done Q e q') \<and> left (q_Done Q e q') \<le> left q' \<and>
      down (q_Forget Q e q') \<and> left (q_Forget Q e q') \<le> left q' \<and>
      down (q_AddRateLimited Q e q') \<and> left (q_AddRateLimited Q e q') \<le> left q'" for q'
    using assms(1) unfolding drains_def by blast
  show "down (q_Done Q e (q_Forget Q e q)) \<and> left (q_Done Q e (q_Forget Q e q)) \<le> left q"
    "down (q_Done Q e (q_AddRateLimited Q e q)) \<and> left (q_Done Q e (q_AddRateLimited Q e q)) \<le> left q"
    using op [OF assms(2)] op [of "q_Forget Q e q"] op [of "q_AddRateLimited Q e q"] by (meson le_trans)+
qed

text \<open>
  The items of a shut-down queue that wait, in their order, are handed out one by one; once none
  waits, the queue says that it is shut down, and does not block.  \<open>Done\<close> can make more items wait,
  those that were added while the item was handled, before the shutdown.
\<close>

definition drains_in_order :: "'q QueueApi \<Rightarrow> ('q \<Rightarrow> bool) \<Rightarrow> ('q \<Rightarrow> event list) \<Rightarrow> bool" where
  "drains_in_order Q down waiting \<longleftrightarrow> (\<forall>q. down q \<longrightarrow>
     (case waiting q of
        [] \<Rightarrow> fst (q_Get Q q) = None \<and> waiting (snd (q_Get Q q)) = []
      | e # es \<Rightarrow> fst (q_Get Q q) = Some e \<and> down (snd (q_Get Q q)) \<and> waiting (snd (q_Get Q q)) = es) \<and>
     (\<forall>e. down (q_Done Q e q) \<and> prefix (waiting q) (waiting (q_Done Q e q)) \<and>
          down (q_Forget Q e q) \<and> waiting (q_Forget Q e q) = waiting q \<and>
          down (q_AddRateLimited Q e q) \<and> waiting (q_AddRateLimited Q e q) = waiting q))"

lemma drains_in_order_get:
  assumes "drains_in_order Q down waiting" and "down q" and "q_Get Q q = (got, q')"
  shows "got = None \<Longrightarrow> waiting q = [] \<and> waiting q' = []"
    and "got = Some e \<Longrightarrow> down q' \<and> waiting q = e # waiting q'"
  using assms(1) [unfolded drains_in_order_def, rule_format, OF assms(2)] assms(3)
  by (auto split: list.splits)

lemma drains_in_order_settle:
  assumes "drains_in_order Q down waiting" and "down q"
    and "q' = q_Done Q e (q_Forget Q e q) \<or> q' = q_Done Q e (q_AddRateLimited Q e q)"
  shows "down q' \<and> prefix (waiting q) (waiting q')"
  using assms(1) [unfolded drains_in_order_def, rule_format, OF assms(2)]
    assms(1) [unfolded drains_in_order_def, rule_format, of "q_Forget Q e q"]
    assms(1) [unfolded drains_in_order_def, rule_format, of "q_AddRateLimited Q e q"] assms(3)
  by auto

text \<open>
  The queue hands out only what was added and not yet handed out, or added again.  \<open>items\<close> are the
  items that it holds, waiting ones included.
\<close>

definition holds_items :: "'q QueueApi \<Rightarrow> ('q \<Rightarrow> event set) \<Rightarrow> bool" where
  "holds_items Q items \<longleftrightarrow> (\<forall>q e.
     items (q_Add Q e q) \<subseteq> insert e (items q) \<and>
     items (q_AddRateLimited Q e q) \<subseteq> insert e (items q) \<and>
     items (q_Done Q e q) \<subseteq> items q \<and>
     items (q_Forget Q e q) \<subseteq> items q \<and>
     items (snd (q_Get Q q)) \<subseteq> items q \<and>
     (fst (q_Get Q q) = Some e \<longrightarrow> e \<in> items q)) \<and>
   (\<forall>q q'. q_moves Q q q' \<longrightarrow> items q' \<subseteq> items q)"

lemma holds_itemsD:
  assumes "holds_items Q items"
  shows "items (q_Add Q e q) \<subseteq> insert e (items q)"
    and "items (q_AddRateLimited Q e q) \<subseteq> insert e (items q)"
    and "items (q_Done Q e q) \<subseteq> items q" and "items (q_Forget Q e q) \<subseteq> items q"
    and "q_Get Q q = (item, q') \<Longrightarrow> items q' \<subseteq> items q"
    and "q_Get Q q = (Some e, q') \<Longrightarrow> e \<in> items q"
    and "q_moves Q q q' \<Longrightarrow> items q' \<subseteq> items q"
  using assms unfolding holds_items_def by (blast, blast, blast, blast, (metis fst_conv snd_conv)+)

text \<open>
  While an item is handed out, and until \<open>Done\<close> is called for it, it is not handed out again;
  \<open>out\<close> are these items.
\<close>

definition hands_out_once :: "'q QueueApi \<Rightarrow> ('q \<Rightarrow> event set) \<Rightarrow> bool" where
  "hands_out_once Q out \<longleftrightarrow> (\<forall>q e.
     out (q_Add Q e q) = out q \<and> out (q_AddRateLimited Q e q) = out q \<and>
     out (q_Forget Q e q) = out q \<and> out (q_Done Q e q) = out q - {e} \<and>
     (case q_Get Q q of (None, q') \<Rightarrow> out q' = out q | (Some x, q') \<Rightarrow> x \<notin> out q \<and> out q' = insert x (out q))) \<and>
   (\<forall>q q'. q_moves Q q q' \<longrightarrow> out q' = out q)"

lemma hands_out_onceD:
  assumes "hands_out_once Q out"
  shows "out (q_Add Q e q) = out q" and "out (q_AddRateLimited Q e q) = out q"
    and "out (q_Forget Q e q) = out q" and "out (q_Done Q e q) = out q - {e}"
    and "q_Get Q q = (None, q') \<Longrightarrow> out q' = out q"
    and "q_Get Q q = (Some x, q') \<Longrightarrow> x \<notin> out q \<and> out q' = insert x (out q)"
    and "q_moves Q q q' \<Longrightarrow> out q' = out q"
proof -
  show "out (q_Add Q e q) = out q" "out (q_AddRateLimited Q e q) = out q" "out (q_Forget Q e q) = out q"
    "out (q_Done Q e q) = out q - {e}" "q_moves Q q q' \<Longrightarrow> out q' = out q"
    using assms unfolding hands_out_once_def by simp_all
  have "case q_Get Q q of (None, q') \<Rightarrow> out q' = out q | (Some x, q') \<Rightarrow> x \<notin> out q \<and> out q' = insert x (out q)"
    using assms unfolding hands_out_once_def by simp
  then show "q_Get Q q = (None, q') \<Longrightarrow> out q' = out q"
    "q_Get Q q = (Some x, q') \<Longrightarrow> x \<notin> out q \<and> out q' = insert x (out q)" by simp_all
qed

text \<open>
  Two different items that an idle, empty queue has been given are handed out one after the other,
  without a call of \<open>Done\<close> between.
\<close>

definition hands_out_both :: "'q QueueApi \<Rightarrow> 'q \<Rightarrow> bool" where
  "hands_out_both Q q \<longleftrightarrow> (\<forall>e f. e \<noteq> f \<longrightarrow>
     fst (q_Get Q (q_Add Q f (q_Add Q e q))) = Some e \<and>
     fst (q_Get Q (snd (q_Get Q (q_Add Q f (q_Add Q e q))))) = Some f)"

section \<open>A concrete queue\<close>

text \<open>
  A queue as client-go documents it: an item that is added while a worker has it waits in
  \<open>iq_dirty\<close> until that worker is done, and is merged with an equal one.  The delay of a requeued
  item is none.
\<close>

record item_queue =
  iq_items :: "event list"
  iq_dirty :: "event list"
  iq_processing :: "event list"
  iq_counts :: "event \<Rightarrow> nat"
  iq_down :: bool

definition iq_add :: "event \<Rightarrow> item_queue \<Rightarrow> item_queue" where
  "iq_add e q =
     (if iq_down q \<or> e \<in> set (iq_dirty q) then q
      else if e \<in> set (iq_processing q) then q\<lparr>iq_dirty := iq_dirty q @ [e]\<rparr>
      else q\<lparr>iq_dirty := iq_dirty q @ [e], iq_items := iq_items q @ [e]\<rparr>)"

definition iq_get :: "item_queue \<Rightarrow> event option \<times> item_queue" where
  "iq_get q = (case iq_items q of
      [] \<Rightarrow> (None, q)
    | e # es \<Rightarrow>
        (if e \<in> set (iq_processing q) then (None, q)
         else (Some e, q\<lparr>iq_items := es, iq_dirty := removeAll e (iq_dirty q),
           iq_processing := iq_processing q @ [e]\<rparr>)))"

definition iq_done :: "event \<Rightarrow> item_queue \<Rightarrow> item_queue" where
  "iq_done e q = (let q = q\<lparr>iq_processing := removeAll e (iq_processing q)\<rparr> in
     if e \<in> set (iq_dirty q) \<and> e \<notin> set (iq_items q) then q\<lparr>iq_items := iq_items q @ [e]\<rparr> else q)"

definition demo_queue :: "item_queue QueueApi" where
  "demo_queue = \<lparr>q_Add = iq_add, q_Get = iq_get, q_Done = iq_done,
     q_Forget = (\<lambda>e q. q\<lparr>iq_counts := (iq_counts q)(e := 0)\<rparr>),
     q_NumRequeues = (\<lambda>e q. iq_counts q e),
     q_AddRateLimited = (\<lambda>e q. iq_add e (q\<lparr>iq_counts := (iq_counts q)(e := Suc (iq_counts q e))\<rparr>)),
     q_ShutDown = (\<lambda>q. q\<lparr>iq_down := True\<rparr>), q_moves = (=)\<rparr>"

definition empty_queue :: item_queue where
  "empty_queue = \<lparr>iq_items = [], iq_dirty = [], iq_processing = [], iq_counts = (\<lambda>_. 0), iq_down = False\<rparr>"

lemmas demo_queue_defs = demo_queue_def iq_add_def iq_get_def iq_done_def

lemma iq_counts_simps [simp]:
  "iq_counts (iq_add e q) = iq_counts q" "iq_counts (snd (iq_get q)) = iq_counts q"
  "iq_counts (iq_done e q) = iq_counts q"
  by (simp_all add: iq_add_def iq_get_def iq_done_def Let_def split: list.split)

lemma demo_queue_counts: "counts_requeues demo_queue"
  by (auto simp: counts_requeues_def demo_queue_def)

text \<open>What is left: the items, and the dirty ones that are not among them.\<close>

definition iq_left :: "item_queue \<Rightarrow> nat" where
  "iq_left q = length (iq_items q) + length (filter (\<lambda>e. e \<notin> set (iq_items q)) (iq_dirty q))"

lemma iq_get_left: "iq_get q = (Some e, q') \<Longrightarrow> iq_left q' < iq_left q \<and> iq_down q' = iq_down q"
proof -
  assume "iq_get q = (Some e, q')"
  then obtain es where es: "iq_items q = e # es"
    "q' = q\<lparr>iq_items := es, iq_dirty := removeAll e (iq_dirty q), iq_processing := iq_processing q @ [e]\<rparr>"
    by (auto simp: iq_get_def split: list.splits if_splits)
  have "filter (\<lambda>x. x \<notin> set es) (removeAll e xs) = filter (\<lambda>x. x \<notin> set (e # es)) xs" for xs
    by (induction xs) auto
  with es show ?thesis by (simp add: iq_left_def)
qed

lemma iq_done_left: "iq_left (iq_done e q) \<le> iq_left q"
proof -
  have "length (filter (\<lambda>x. x \<notin> set (ys @ [e])) xs) < length (filter (\<lambda>x. x \<notin> set ys) xs)"
    if "e \<in> set xs" "e \<notin> set ys" for xs ys :: "event list"
  proof -
    have "filter (\<lambda>x. x \<notin> set (ys @ [e])) xs = filter (\<lambda>x. x \<noteq> e) (filter (\<lambda>x. x \<notin> set ys) xs)"
      by (simp add: conj_commute)
    with that show ?thesis using length_filter_less [of e "filter (\<lambda>x. x \<notin> set ys) xs" "\<lambda>x. x \<noteq> e"] by simp
  qed
  from this [of "iq_dirty q" "iq_items q"] show ?thesis by (auto simp: iq_left_def iq_done_def Let_def)
qed

lemma demo_queue_drains: "drains demo_queue iq_down iq_left"
proof -
  have "case iq_get q of (None, q') \<Rightarrow> True | (Some e, q') \<Rightarrow> iq_down q' \<and> iq_left q' < iq_left q"
    if "iq_down q" for q
    using that iq_get_left [of q] by (auto split: prod.split option.split)
  moreover have "iq_down (iq_done e q) = iq_down q" for e q by (simp add: iq_done_def Let_def)
  moreover have "iq_left (q\<lparr>iq_counts := f\<rparr>) = iq_left q" for f q by (simp add: iq_left_def)
  ultimately show ?thesis by (simp add: drains_def demo_queue_def iq_done_left iq_add_def)
qed

text \<open>In the states that the queue reaches, the items are distinct and no worker has one of them.\<close>

definition iq_draining :: "item_queue \<Rightarrow> bool" where
  "iq_draining q \<longleftrightarrow> iq_down q \<and> distinct (iq_items q) \<and> set (iq_items q) \<inter> set (iq_processing q) = {}"

lemma demo_queue_in_order: "drains_in_order demo_queue iq_draining iq_items"
  by (auto simp: drains_in_order_def demo_queue_defs iq_draining_def Let_def split: list.split)

lemma demo_queue_drains_order: "drains demo_queue iq_draining iq_left"
  using demo_queue_drains demo_queue_in_order
  by (auto simp: drains_def drains_in_order_def iq_draining_def demo_queue_defs Let_def split: prod.split option.split list.split list.splits)

lemma demo_queue_items: "holds_items demo_queue (\<lambda>q. set (iq_items q) \<union> set (iq_dirty q))"
  by (auto simp: holds_items_def demo_queue_defs Let_def split: list.split)

lemma demo_queue_once: "hands_out_once demo_queue (\<lambda>q. set (iq_processing q))"
  by (auto simp: hands_out_once_def demo_queue_defs Let_def split: list.split)

lemma demo_queue_both: "hands_out_both demo_queue empty_queue"
  by (auto simp: hands_out_both_def demo_queue_defs empty_queue_def)

end
