(* ===== verification/Clientset.thy ===== *)
theory Clientset
  imports Cloud
begin

text \<open>
  The typed client for the custom resource: \<open>clientset/versioned/clientset.go\<close>,
  \<open>typed/rds/v1alpha1/rds_client.go\<close> and \<open>typed/rds/v1alpha1/rds.go\<close>.  The REST client
  below it is Kubernetes' own; a method of the typed client is the request it builds.
  The lemmas show which requests a method can send.
\<close>

section \<open>rds_client.go\<close>

definition setConfigDefaults :: "'w Ext \<Rightarrow> RestConfig \<Rightarrow> RestConfig" where
  "setConfigDefaults E config =
     (let config = config\<lparr>rc_GroupVersion := Some SchemeGroupVersion, rc_APIPath := ''/apis''\<rparr>
      in if rc_UserAgent config = '''' then config\<lparr>rc_UserAgent := k_DefaultUserAgent (kube E)\<rparr>
         else config)"

definition mcsps_NewForConfig :: "'w Ext \<Rightarrow> RestConfig \<Rightarrow> ('w sys, handle) go" where
  "mcsps_NewForConfig E c =
     (let config = setConfigDefaults E c
      in perform_e (K8S (CRestClient config)) (k_RESTClientFor (kube E) config))"

definition mcsps_NewForConfigOrDie :: "'w Ext \<Rightarrow> RestConfig \<Rightarrow> ('w sys, handle) go" where
  "mcsps_NewForConfigOrDie E c =
     go_bind (go_try (mcsps_NewForConfig E c)) (\<lambda>r.
       case r of Inl e \<Rightarrow> go_crash ExplicitPanic | Inr client \<Rightarrow> go_return client)"

definition mcsps_New :: "handle \<Rightarrow> handle" where
  "mcsps_New c = c"

text \<open>A client is the handle of its REST client; a pointer to one may be nil.\<close>

definition mcsps_RESTClient :: "handle option \<Rightarrow> handle option" where
  "mcsps_RESTClient c = (case c of None \<Rightarrow> None | Some client \<Rightarrow> Some client)"

record rdss =
  rs_client :: "handle option"
  rs_ns :: string

definition newRdss :: "handle option \<Rightarrow> string \<Rightarrow> rdss" where
  "newRdss c namespace = \<lparr>rs_client = mcsps_RESTClient c, rs_ns = namespace\<rparr>"

definition mcsps_Rdss :: "handle option \<Rightarrow> string \<Rightarrow> rdss" where
  "mcsps_Rdss c namespace = newRdss c namespace"

section \<open>clientset.go\<close>

record Clientset =
  cs_discovery :: handle
  cs_mcspsV1alpha1 :: handle

definition with_rate_limiter :: "RestConfig \<Rightarrow> gerror + RestConfig" where
  "with_rate_limiter c =
     (if rc_RateLimiter c = None \<and> 0 < rc_QPS c
      then (if rc_Burst c \<le> 0
            then Inl (new_error (''burst is required to be greater than 0 when RateLimiter is not set '' @
                                 ''and QPS is set to greater than 0''))
            else Inr (c\<lparr>rc_RateLimiter := Some (rc_QPS c, rc_Burst c)\<rparr>))
      else Inr c)"

definition clientset_NewForConfig :: "'w Ext \<Rightarrow> RestConfig \<Rightarrow> ('w sys, Clientset) go" where
  "clientset_NewForConfig E c =
     go_bind (go_lift (with_rate_limiter c)) (\<lambda>configShallowCopy.
     go_bind (mcsps_NewForConfig E configShallowCopy) (\<lambda>m.
     go_bind (perform_e (K8S (CDiscoveryClient configShallowCopy))
                (k_DiscoveryClientFor (kube E) configShallowCopy)) (\<lambda>d.
     go_return \<lparr>cs_discovery = d, cs_mcspsV1alpha1 = m\<rparr>)))"

text \<open>\<open>NewForConfigOrDie\<close> takes the configuration as it is, without a limiter of its own.\<close>

definition clientset_NewForConfigOrDie :: "'w Ext \<Rightarrow> RestConfig \<Rightarrow> ('w sys, Clientset) go" where
  "clientset_NewForConfigOrDie E c =
     go_bind (mcsps_NewForConfigOrDie E c) (\<lambda>m.
     go_bind (go_try (perform_e (K8S (CDiscoveryClient c)) (k_DiscoveryClientFor (kube E) c))) (\<lambda>r.
     case r of Inl e \<Rightarrow> go_crash ExplicitPanic
     | Inr d \<Rightarrow> go_return \<lparr>cs_discovery = d, cs_mcspsV1alpha1 = m\<rparr>))"

definition clientset_New :: "(handle \<Rightarrow> handle) \<Rightarrow> handle \<Rightarrow> Clientset" where
  "clientset_New discovery_NewDiscoveryClient c =
     \<lparr>cs_discovery = discovery_NewDiscoveryClient c, cs_mcspsV1alpha1 = mcsps_New c\<rparr>"

definition McspsV1alpha1 :: "Clientset \<Rightarrow> handle" where
  "McspsV1alpha1 c = cs_mcspsV1alpha1 c"

definition Discovery :: "Clientset option \<Rightarrow> handle option" where
  "Discovery c = (case c of None \<Rightarrow> None | Some cs \<Rightarrow> Some (cs_discovery cs))"

section \<open>rds.go\<close>

definition timeout_of :: "ListOptions \<Rightarrow> go_int" where
  "timeout_of opts = (case lopt_TimeoutSeconds opts of None \<Rightarrow> 0 | Some t \<Rightarrow> t * 1000000000)"

definition rdss_Get :: "'w Ext \<Rightarrow> handle \<Rightarrow> string \<Rightarrow> string \<Rightarrow> string \<Rightarrow>
    ('w sys, Rds \<times> gerror option) go" where
  "rdss_Get E client ns name options =
     (let rq = \<lparr>rq_Verb = GET, rq_Namespace = ns, rq_Resource = ''rdss'', rq_Name = Some name,
        rq_SubResources = [], rq_Params = OptParams options, rq_Timeout = None, rq_Body = NoBody\<rparr>
      in perform_v (K8S (CRest rq)) (k_DoRds (kube E) client rq))"

definition rdss_List :: "'w Ext \<Rightarrow> handle \<Rightarrow> string \<Rightarrow> ListOptions \<Rightarrow>
    ('w sys, RdsList \<times> gerror option) go" where
  "rdss_List E client ns opts =
     (let rq = \<lparr>rq_Verb = GET, rq_Namespace = ns, rq_Resource = ''rdss'', rq_Name = None,
        rq_SubResources = [], rq_Params = ListParams opts, rq_Timeout = Some (timeout_of opts),
        rq_Body = NoBody\<rparr>
      in perform_v (K8S (CRest rq)) (k_DoRdsList (kube E) client rq))"

definition rdss_Watch :: "'w Ext \<Rightarrow> handle \<Rightarrow> string \<Rightarrow> ListOptions \<Rightarrow> ('w sys, handle) go" where
  "rdss_Watch E client ns opts =
     (let opts' = opts\<lparr>lopt_Watch := True\<rparr>;
          rq = \<lparr>rq_Verb = GET, rq_Namespace = ns, rq_Resource = ''rdss'', rq_Name = None,
            rq_SubResources = [], rq_Params = ListParams opts',
            rq_Timeout = Some (timeout_of opts), rq_Body = NoBody\<rparr>
      in perform_e (K8S (CRest rq)) (k_Watch (kube E) client rq))"

definition rdss_Create :: "'w Ext \<Rightarrow> handle \<Rightarrow> string \<Rightarrow> Rds \<Rightarrow> string \<Rightarrow>
    ('w sys, Rds \<times> gerror option) go" where
  "rdss_Create E client ns rds opts =
     (let rq = \<lparr>rq_Verb = POST, rq_Namespace = ns, rq_Resource = ''rdss'', rq_Name = None,
        rq_SubResources = [], rq_Params = OptParams opts, rq_Timeout = None, rq_Body = RdsBody rds\<rparr>
      in perform_v (K8S (CRest rq)) (k_DoRds (kube E) client rq))"

definition update_request :: "string \<Rightarrow> Rds \<Rightarrow> string \<Rightarrow> Request" where
  "update_request ns rds opts =
     \<lparr>rq_Verb = PUT, rq_Namespace = ns, rq_Resource = ''rdss'', rq_Name = Some (rds_Name rds),
      rq_SubResources = [], rq_Params = OptParams opts, rq_Timeout = None, rq_Body = RdsBody rds\<rparr>"

definition rdss_Update :: "'w Ext \<Rightarrow> handle \<Rightarrow> string \<Rightarrow> Rds \<Rightarrow> string \<Rightarrow>
    ('w sys, Rds \<times> gerror option) go" where
  "rdss_Update E client ns rds opts =
     (let rq = update_request ns rds opts
      in perform_v (K8S (CRest rq)) (k_DoRds (kube E) client rq))"

definition err_result :: "gerror option \<Rightarrow> ('s, unit) go" where
  "err_result e = (case e of None \<Rightarrow> go_return () | Some e \<Rightarrow> go_fail e)"

definition rdss_Delete :: "'w Ext \<Rightarrow> handle \<Rightarrow> string \<Rightarrow> string \<Rightarrow> string \<Rightarrow> ('w sys, unit) go" where
  "rdss_Delete E client ns name opts =
     (let rq = \<lparr>rq_Verb = DELETE, rq_Namespace = ns, rq_Resource = ''rdss'', rq_Name = Some name,
        rq_SubResources = [], rq_Params = NoParams, rq_Timeout = None,
        rq_Body = DeleteOptsBody opts\<rparr>
      in go_bind (perform (K8S (CRest rq)) (k_DoError (kube E) client rq)) err_result)"

definition rdss_DeleteCollection :: "'w Ext \<Rightarrow> handle \<Rightarrow> string \<Rightarrow> string \<Rightarrow> ListOptions \<Rightarrow>
    ('w sys, unit) go" where
  "rdss_DeleteCollection E client ns opts listOpts =
     (let rq = \<lparr>rq_Verb = DELETE, rq_Namespace = ns, rq_Resource = ''rdss'', rq_Name = None,
        rq_SubResources = [], rq_Params = ListParams listOpts,
        rq_Timeout = Some (timeout_of listOpts), rq_Body = DeleteOptsBody opts\<rparr>
      in go_bind (perform (K8S (CRest rq)) (k_DoError (kube E) client rq)) err_result)"

text \<open>The kind of a patch is the content type of its body.\<close>

definition rdss_Patch :: "'w Ext \<Rightarrow> handle \<Rightarrow> string \<Rightarrow> string \<Rightarrow> string \<Rightarrow> string \<Rightarrow> string \<Rightarrow>
    string list \<Rightarrow> ('w sys, Rds \<times> gerror option) go" where
  "rdss_Patch E client ns name pt data opts subresources =
     (let rq = \<lparr>rq_Verb = PATCH, rq_Namespace = ns, rq_Resource = ''rdss'', rq_Name = Some name,
        rq_SubResources = subresources, rq_Params = OptParams opts, rq_Timeout = None,
        rq_Body = PatchBody pt data\<rparr>
      in perform_v (K8S (CRest rq)) (k_DoRds (kube E) client rq))"

section \<open>The requests of the typed client\<close>

definition rdss_request :: "string \<Rightarrow> call \<Rightarrow> bool" where
  "rdss_request ns c \<longleftrightarrow> (case c of
      K8S (CRest rq) \<Rightarrow> rq_Namespace rq = ns \<and> rq_Resource rq = ''rdss''
    | _ \<Rightarrow> False)"

lemma err_result_uses [uses_intro]: "uses K (err_result e)"
  by (cases e) (simp_all add: err_result_def log_growth.keep_return log_growth.keep_fail)

lemmas client_defs = rdss_Get_def rdss_List_def rdss_Watch_def rdss_Create_def rdss_Update_def
  update_request_def rdss_Delete_def rdss_DeleteCollection_def rdss_Patch_def Let_def

lemma client_uses:
  "uses (rdss_request ns) (rdss_Get E h ns name o1)"
  "uses (rdss_request ns) (rdss_List E h ns lo)"
  "uses (rdss_request ns) (rdss_Watch E h ns lo)"
  "uses (rdss_request ns) (rdss_Create E h ns rds o1)"
  "uses (rdss_request ns) (rdss_Update E h ns rds o1)"
  "uses (rdss_request ns) (rdss_Delete E h ns name o1)"
  "uses (rdss_request ns) (rdss_DeleteCollection E h ns o1 lo)"
  "uses (rdss_request ns) (rdss_Patch E h ns name pt data o1 subs)"
  by (auto simp: client_defs rdss_request_def intro!: log_growth.keep_bind uses_intro)

lemma rdss_Update_eval [go_eval]:
  "rdss_Update E client ns rds opts s =
     (case k_DoRds (kube E) client (update_request ns rds opts) (world s) of
        ((a, e), w) \<Rightarrow>
          (Ok (a, e), log_call (K8S (CRest (update_request ns rds opts))) (e = None) w s))"
  by (simp add: rdss_Update_def Let_def go_eval)

text \<open>A client is only built for a configuration whose rate limit can be met.\<close>

lemma with_rate_limiter_error:
  "(\<exists>e. with_rate_limiter c = Inl e) \<longleftrightarrow>
     rc_RateLimiter c = None \<and> 0 < rc_QPS c \<and> rc_Burst c \<le> 0"
  by (auto simp: with_rate_limiter_def)

lemma clientset_uses [uses_intro]:
  assumes "\<And>c. K (K8S (CRestClient c))" and "\<And>c. K (K8S (CDiscoveryClient c))"
  shows "uses K (clientset_NewForConfig E cfg)"
  unfolding clientset_NewForConfig_def mcsps_NewForConfig_def Let_def
  by (intro log_growth.keep_bind log_growth.keep_lift log_growth.keep_return uses_intro assms)

lemma clientset_frame [uses_intro]:
  "(\<And>c ok w s. fld (log_call c ok w s) = fld s) \<Longrightarrow>
     run_respects (same_field fld) (clientset_NewForConfig E cfg)"
  unfolding clientset_NewForConfig_def mcsps_NewForConfig_def Let_def
  by (intro frame.keep_bind frame.keep_lift frame.keep_return uses_intro)

section \<open>Properties\<close>

lemma uses_made_all:
  assumes "uses K m"
  shows "list_all (\<lambda>(c, _). K c) (made s (snd (m s)))"
  using assms by (auto simp: run_respects_def intro: emits_made)

text \<open>Every method of the typed client sends requests for its own namespace and for the resource
  \<open>rdss\<close> only.\<close>

theorem typed_client_confined:
  "list_all (list_all (\<lambda>(c, _). rdss_request ns c))
     [made s (snd (rdss_Get E h ns n o1 s)), made s (snd (rdss_List E h ns lo s)),
      made s (snd (rdss_Watch E h ns lo s)), made s (snd (rdss_Create E h ns r o1 s)),
      made s (snd (rdss_Update E h ns r o1 s)), made s (snd (rdss_Delete E h ns n o1 s)),
      made s (snd (rdss_DeleteCollection E h ns o1 lo s)), made s (snd (rdss_Patch E h ns n pt data o1 subs s))]"
  by (simp add: uses_made_all client_uses)

lemma setConfigDefaults_limiter [simp]: "rc_RateLimiter (setConfigDefaults E c) = rc_RateLimiter c"
  by (simp add: setConfigDefaults_def Let_def)

lemma with_rate_limiter_ok:
  "with_rate_limiter c = Inr c' \<Longrightarrow> rc_QPS c \<le> 0 \<or> rc_RateLimiter c' \<noteq> None"
  by (auto simp: with_rate_limiter_def split: if_splits)

lemma mcsps_NewForConfig_log:
  obtains ok w q where
    "mcsps_NewForConfig E c s = (q, log_call (K8S (CRestClient (setConfigDefaults E c))) ok w s)"
proof -
  obtain q w where "k_RESTClientFor (kube E) (setConfigDefaults E c) (world s) = (q, w)"
    by fastforce
  then show thesis
    by (cases q) (auto simp: mcsps_NewForConfig_def Let_def perform_e_eval intro: that)
qed

lemma clientset_log:
  assumes "with_rate_limiter cfg = Inr c"
  shows "\<exists>ok rest. calls (snd (clientset_NewForConfig E cfg s)) =
    calls s @ (K8S (CRestClient (setConfigDefaults E c)), ok) # rest"
proof -
  let ?k = "\<lambda>m. go_bind (perform_e (K8S (CDiscoveryClient c)) (k_DiscoveryClientFor (kube E) c))
    (\<lambda>d. go_return \<lparr>cs_discovery = d, cs_mcspsV1alpha1 = m\<rparr>)"
  obtain ok w q where m: "mcsps_NewForConfig E c s = (q, log_call (K8S (CRestClient (setConfigDefaults E c))) ok w s)"
    by (rule mcsps_NewForConfig_log)
  have run: "clientset_NewForConfig E cfg s = go_bind (mcsps_NewForConfig E c) ?k s"
    using assms by (simp add: clientset_NewForConfig_def go_bind_eval [of "go_lift _"] go_lift_eval)
  have "uses (\<lambda>c. True) (?k h)" for h
    by (intro log_growth.keep_bind log_growth.keep_return uses_perform_e) simp
  then have ext: "\<exists>rest. calls (snd (?k h t)) = calls t @ rest" for h t
    unfolding run_respects_def emits_def by blast
  show ?thesis
  proof (cases q)
    case (Ok h)
    then have "clientset_NewForConfig E cfg s = ?k h (snd (mcsps_NewForConfig E c s))"
      using m by (simp add: run go_bind_eval [of "mcsps_NewForConfig E c"])
    then show ?thesis
      using ext [of h "snd (mcsps_NewForConfig E c s)"] m by (auto simp: log_call_sel)
  qed (use m in \<open>simp_all add: run go_bind_eval [of "mcsps_NewForConfig E c"]\<close>)
qed

text \<open>A client for a configuration with a query rate but without a burst is refused before any
  call is made; every other configuration reaches the REST client, with a limiter if it has a
  rate.\<close>

theorem rate_limit_needs_burst:
  "case clientset_NewForConfig E cfg s of (r, t) \<Rightarrow>
     (if rc_RateLimiter cfg = None \<and> 0 < rc_QPS cfg \<and> rc_Burst cfg \<le> 0
      then (\<exists>e. r = Fail e) \<and> t = s
      else (\<exists>c ok rest. made s t = (K8S (CRestClient c), ok) # rest \<and>
        (if 0 < rc_QPS cfg then rc_RateLimiter c \<noteq> None else True)))"
proof (cases "with_rate_limiter cfg")
  case (Inl e)
  then show ?thesis
    using with_rate_limiter_error [of cfg]
    by (simp add: clientset_NewForConfig_def go_bind_eval go_lift_eval)
next
  case (Inr c)
  then have "\<not> (rc_RateLimiter cfg = None \<and> 0 < rc_QPS cfg \<and> rc_Burst cfg \<le> 0)"
    using with_rate_limiter_error [of cfg] by auto
  moreover obtain ok rest where "calls (snd (clientset_NewForConfig E cfg s)) =
      calls s @ (K8S (CRestClient (setConfigDefaults E c)), ok) # rest"
    using clientset_log [OF Inr] by blast
  moreover have "rc_QPS cfg \<le> 0 \<or> rc_RateLimiter (setConfigDefaults E c) \<noteq> None"
    using with_rate_limiter_ok [OF Inr] by simp
  ultimately show ?thesis
    by (auto dest!: seen_same_calls simp: split_beta)
qed

end
