(* ===== verification/Provider.thy ===== *)
theory Provider
  imports Cloud
begin

text \<open>
  \<open>GetProvider\<close> of \<open>pkg/controller/resource.go\<close> (environment defaults and authentication) and
  the service clients built from the provider.  The debug transport that \<open>OS_DEBUG=1\<close>
  installs only prints requests and has no counterpart.
\<close>

definition Getenv :: "string \<Rightarrow> ('w sys, string) go" where
  "Getenv k = go_get (\<lambda>s. osenv s k)"

definition Setenv :: "string \<Rightarrow> string \<Rightarrow> ('w sys, unit) go" where
  "Setenv k v = go_modify (\<lambda>s. s\<lparr>osenv := (osenv s)(k := v)\<rparr>)"

definition env_default :: "string \<Rightarrow> string \<Rightarrow> ('w sys, unit) go" where
  "env_default k v = go_bind (Getenv k) (\<lambda>x. go_when (x = '''') (Setenv k v))"

definition GetProvider :: "'w Ext \<Rightarrow> ('w sys, handle) go" where
  "GetProvider E =
     go_then (env_default ''OS_AUTH_URL'' ''https://iam.eu-de.otc.t-systems.com:443/v3'')
    (go_then (env_default ''OS_IDENTITY_API_VERSION'' ''3'')
    (go_then (env_default ''OS_REGION_NAME'' ''eu-de'')
    (go_then (env_default ''OS_PROJECT_NAME'' ''eu-de'')
    (go_bind (go_get osenv) (\<lambda>env.
     go_bind (go_wrap ''error getting auth from env: ''
               (go_lift (o_AuthOptionsFromEnv (otc E) env))) (\<lambda>opts.
     go_wrap ''unable to initialize openstack client: ''
       (perform_e (IAM CAuthenticate) (o_AuthenticatedClient (otc E) opts))))))))"

definition NewClient :: "'w Ext \<Rightarrow> service \<Rightarrow> handle \<Rightarrow> ('w sys, handle) go" where
  "NewClient E svc provider =
     perform_e (IAM (CNewClient svc)) (o_NewClient (otc E) svc provider)"

section \<open>Lemmas\<close>

text \<open>The environment after the defaults: a variable that was set keeps its value.\<close>

definition with_default :: "string \<Rightarrow> string \<Rightarrow> (string \<Rightarrow> string) \<Rightarrow> (string \<Rightarrow> string)" where
  "with_default k v env = (if env k = '''' then env(k := v) else env)"

definition otc_defaults :: "(string \<Rightarrow> string) \<Rightarrow> (string \<Rightarrow> string)" where
  "otc_defaults env =
     with_default ''OS_PROJECT_NAME'' ''eu-de''
    (with_default ''OS_REGION_NAME'' ''eu-de''
    (with_default ''OS_IDENTITY_API_VERSION'' ''3''
    (with_default ''OS_AUTH_URL'' ''https://iam.eu-de.otc.t-systems.com:443/v3'' env)))"

lemma env_default_eval [go_eval]:
  "env_default k v s = (Ok (), s\<lparr>osenv := with_default k v (osenv s)\<rparr>)"
  by (simp add: env_default_def Getenv_def Setenv_def with_default_def go_eval)

lemma GetProvider_eval:
  "GetProvider E s =
     (let s' = s\<lparr>osenv := otc_defaults (osenv s)\<rparr>
      in case o_AuthOptionsFromEnv (otc E) (otc_defaults (osenv s)) of
           Inl e \<Rightarrow> (Fail (errorf ''error getting auth from env: '' e), s')
         | Inr opts \<Rightarrow> (case o_AuthenticatedClient (otc E) opts (world s) of
             (Inl e, w) \<Rightarrow>
               (Fail (errorf ''unable to initialize openstack client: '' e),
                log_call (IAM CAuthenticate) False w s')
           | (Inr p, w) \<Rightarrow> (Ok p, log_call (IAM CAuthenticate) True w s')))"
  by (simp add: GetProvider_def go_eval otc_defaults_def Let_def
      split: sum.split prod.split)

lemma with_default_idem: "with_default k v (with_default k v env) = with_default k v env"
  by (simp add: with_default_def)

lemma with_default_nonempty:
  "env j \<noteq> '''' \<Longrightarrow> with_default k v env j \<noteq> ''''"
  "v \<noteq> '''' \<Longrightarrow> with_default k v env k \<noteq> ''''"
  by (auto simp: with_default_def)

lemma with_default_set: "env j \<noteq> '''' \<Longrightarrow> with_default k v env j = env j"
  by (auto simp: with_default_def)

lemma otc_defaults_set: "env k \<noteq> '''' \<Longrightarrow> otc_defaults env k = env k"
  by (simp add: otc_defaults_def with_default_set)

lemma otc_defaults_nonempty:
  "k \<in> {''OS_AUTH_URL'', ''OS_IDENTITY_API_VERSION'', ''OS_REGION_NAME'', ''OS_PROJECT_NAME''} \<Longrightarrow>
     otc_defaults env k \<noteq> ''''"
  unfolding otc_defaults_def
  by (elim insertE emptyE; hypsubst; simp add: with_default_nonempty)

lemma otc_defaults_idem: "otc_defaults (otc_defaults env) = otc_defaults env"
proof -
  have fixed: "with_default k v f = f" if "f k \<noteq> ''''" for k v and f :: "string \<Rightarrow> string"
    using that by (simp add: with_default_def)
  show ?thesis
    unfolding otc_defaults_def[of "otc_defaults env"]
    by (simp add: fixed otc_defaults_nonempty)
qed

lemma GetProvider_never_crashes: "fst (GetProvider E s) \<noteq> Crash c"
  by (auto simp: GetProvider_eval Let_def split: sum.splits prod.splits)

lemma env_default_uses [uses_intro]: "uses K (env_default k v)"
  by (auto simp: run_respects_def go_eval emits_def)

lemma GetProvider_uses [uses_intro]: "K (IAM CAuthenticate) \<Longrightarrow> uses K (GetProvider E)"
  unfolding GetProvider_def
  by (intro log_growth.keep_then log_growth.keep_bind log_growth.keep_wrap log_growth.keep_get
      log_growth.keep_lift uses_intro)

lemma NewClient_uses [uses_intro]: "K (IAM (CNewClient svc)) \<Longrightarrow> uses K (NewClient E svc p)"
  unfolding NewClient_def by (rule uses_perform_e)

lemma NewClient_never_crashes: "fst (NewClient E svc p s) \<noteq> Crash c"
  by (simp add: NewClient_def go_eval split: prod.splits sum.splits)

lemma GetProvider_frame [uses_intro]:
  assumes "\<And>c ok w s. fld (log_call c ok w s) = fld s"
    and "\<And>env s. fld (s\<lparr>osenv := env\<rparr>) = fld s"
  shows "run_respects (same_field fld) (GetProvider E)"
  by (auto simp: run_respects_def same_field_def GetProvider_eval Let_def assms
      split: sum.split prod.split)

lemma NewClient_frame [uses_intro]:
  "(\<And>c ok w s. fld (log_call c ok w s) = fld s) \<Longrightarrow>
     run_respects (same_field fld) (NewClient E svc p)"
  unfolding NewClient_def by (rule frame_perform_e)

text \<open>What a successful call leaves behind.\<close>

lemma GetProvider_okE:
  assumes "GetProvider E s = (Ok p, t)"
  obtains w where "t = log_call (IAM CAuthenticate) True w (s\<lparr>osenv := otc_defaults (osenv s)\<rparr>)"
  using assms by (auto simp: GetProvider_eval Let_def split: sum.splits prod.splits)

lemma NewClient_okE:
  assumes "NewClient E svc p s = (Ok h, t)"
  obtains w where "t = log_call (IAM (CNewClient svc)) True w s"
  using assms by (auto simp: NewClient_def go_eval split: sum.splits prod.splits)

section \<open>Property\<close>

text \<open>Building a provider leaves in the environment a value for each of the four settings it has
  a default for, never replaces a value that was set, and a second provider finds nothing left
  to set; this holds whether or not the authentication succeeds.\<close>

theorem provider_environment:
  "case GetProvider E s of (r, t) \<Rightarrow>
     osenv t = otc_defaults (osenv s) \<and> otc_defaults (osenv t) = osenv t \<and>
     list_all (\<lambda>k. osenv t k \<noteq> '''')
       [''OS_AUTH_URL'', ''OS_IDENTITY_API_VERSION'', ''OS_REGION_NAME'', ''OS_PROJECT_NAME''] \<and>
     (\<forall>k. osenv s k = '''' \<or> osenv t k = osenv s k)"
proof -
  obtain r t where run: "GetProvider E s = (r, t)" by fastforce
  then have env: "osenv t = otc_defaults (osenv s)"
    by (auto simp: GetProvider_eval Let_def split: sum.splits prod.splits)
  have "list_all (\<lambda>k. otc_defaults (osenv s) k \<noteq> '''')
      [''OS_AUTH_URL'', ''OS_IDENTITY_API_VERSION'', ''OS_REGION_NAME'', ''OS_PROJECT_NAME'']"
    using otc_defaults_nonempty [of _ "osenv s"] by simp
  with run env show ?thesis using otc_defaults_set [of "osenv s"] otc_defaults_idem [of "osenv s"] by auto
qed

end
