(* ===== verification/Lookup.thy ===== *)
theory Lookup
  imports Cloud
begin

text \<open>
  The lookups of \<open>pkg/controller/resource.go\<close>: security group, subnet and VPC by name, and the
  RDS instance by identifier or by name.  The first three share a contract, the locale
  \<open>first_match_lookup\<close>: the first element of the service's listing, or an error.  The two
  instance lookups return nil without an error when nothing is found.
\<close>

definition secgroupGet :: "'w Ext \<Rightarrow> handle \<Rightarrow> string \<Rightarrow> ('w sys, string) go" where
  "secgroupGet E client name =
     go_bind (perform_e (NET (CSecgroupList name)) (o_SecgroupPages (otc E) client name)) (\<lambda>pages.
     let n = fst (o_ExtractGroups (otc E) pages)
     in if length n = 0 then go_fail (new_error ''no secgroup found'') else go_index n 0)"

definition subnetGet :: "'w Ext \<Rightarrow> handle \<Rightarrow> string \<Rightarrow> ('w sys, string) go" where
  "subnetGet E client name =
     go_bind (perform_e (NET (CSubnetList name)) (o_SubnetList (otc E) client name)) (\<lambda>n.
     if length n = 0 then go_fail (new_error ''no subnet found'') else go_index n 0)"

definition vpcGet :: "'w Ext \<Rightarrow> handle \<Rightarrow> string \<Rightarrow> ('w sys, string) go" where
  "vpcGet E client name =
     go_bind (perform_e (NET (CVpcList name)) (o_VpcList (otc E) client name)) (\<lambda>n.
     if length n = 0 then go_fail (new_error ''no vpc found'') else go_index n 0)"

definition by_id_opts :: "string \<Rightarrow> ListRdsInstanceOpts" where
  "by_id_opts rdsId = \<lparr>lo_Id = rdsId, lo_Name = ''''\<rparr>"

definition by_name_opts :: "string \<Rightarrow> string \<Rightarrow> ListRdsInstanceOpts" where
  "by_name_opts rdsName namespace = \<lparr>lo_Id = '''', lo_Name = namespace @ ''_'' @ rdsName\<rparr>"

definition rdsGetById :: "'w Ext \<Rightarrow> handle \<Rightarrow> string \<Rightarrow>
    ('w sys, RdsInstanceResponse option) go" where
  "rdsGetById E client rdsId =
     (let listOpts = by_id_opts rdsId
      in go_bind (perform_e (RDS (CRdsList listOpts)) (o_RdsPages (otc E) client listOpts)) (\<lambda>allPages.
         go_bind (go_lift (o_ExtractRdsInstances (otc E) allPages)) (\<lambda>n.
         if length n = 0 then go_return None
         else go_bind (go_index n 0) (\<lambda>i. go_return (Some i)))))"

definition rdsGetByName :: "'w Ext \<Rightarrow> handle \<Rightarrow> string \<Rightarrow> string \<Rightarrow>
    ('w sys, RdsInstanceResponse option) go" where
  "rdsGetByName E client rdsName namespace =
     (let listOpts = by_name_opts rdsName namespace
      in go_bind (perform_e (RDS (CRdsList listOpts)) (o_RdsPages (otc E) client listOpts)) (\<lambda>allPages.
         go_bind (go_lift (o_ExtractRdsInstances (otc E) allPages)) (\<lambda>n.
         if length n = 0 then go_return None
         else go_bind (go_index n 0) (\<lambda>i. go_return (Some i)))))"

section \<open>Runs that make planned calls\<close>

text \<open>
  \<open>planned f m p\<close>: the calls of \<open>m\<close> that \<open>f\<close> picks are those of the plan \<open>p\<close>, a function of the
  world that \<open>m\<close> starts in, however it ends.  \<open>first_found\<close> is what a lookup by name makes of a listing.
\<close>

definition planned :: "(call \<Rightarrow> 'x option) \<Rightarrow> ('w sys, 'a) go \<Rightarrow> ('w \<Rightarrow> 'x list) \<Rightarrow> bool" where
  "planned f m p \<longleftrightarrow> (\<forall>s. \<exists>new. calls (snd (m s)) = calls s @ new \<and> seen f new = p (world s))"

definition first_found :: "(gerror + 'x list) \<times> 'w \<Rightarrow> ('x \<times> 'w) option" where
  "first_found l = (case l of (Inr (x # _), w) \<Rightarrow> Some (x, w) | _ \<Rightarrow> None)"

lemma planned_made:
  assumes "planned f m p" and "m s = (q, t)"
  shows "\<exists>new. calls t = calls s @ new \<and> seen f new = p (world s)"
  using assms unfolding planned_def by (metis snd_conv)

lemma planned_silent: "uses (\<lambda>c. f c = None) m \<Longrightarrow> planned f m (\<lambda>_. [])"
  unfolding planned_def using silent_run by (metis prod.collapse)

text \<open>A call that the view skips, and what follows it with its answer.\<close>

lemma planned_step:
  assumes "\<And>s. \<exists>ok. m s = (r (world s), log_call c ok (w (world s)) s)" and "f c = None"
    and "\<And>a. planned f (k a) (p a)"
  shows "planned f (go_bind m k) (\<lambda>x. case r x of Ok a \<Rightarrow> p a (w x) | _ \<Rightarrow> [])"
  unfolding planned_def
proof
  fix s
  obtain ok where m: "m s = (r (world s), log_call c ok (w (world s)) s)" using assms(1) by blast
  show "\<exists>new. calls (snd (go_bind m k s)) = calls s @ new \<and>
      seen f new = (case r (world s) of Ok a \<Rightarrow> p a (w (world s)) | _ \<Rightarrow> [])"
  proof (cases "r (world s)")
    case (Ok a)
    obtain q t where run: "k a (log_call c ok (w (world s)) s) = (q, t)" by fastforce
    obtain new where "calls t = calls (log_call c ok (w (world s)) s) @ new" "seen f new = p a (w (world s))"
      using planned_made [OF assms(3) run] by auto
    with m Ok run assms(2) show ?thesis by (intro exI [of _ "(c, ok) # new"]) (simp add: go_bind_eval)
  qed (use m assms(2) in \<open>auto simp: go_bind_eval intro!: exI [of _ "[(c, ok)]"]\<close>)
qed

section \<open>The contract of the name lookups\<close>

text \<open>
  \<open>listing\<close> is what the service answers for a name, the error of an unreadable answer
  already dropped; \<open>query\<close> is the call it makes and \<open>missing\<close> the error of an empty answer.
\<close>

locale first_match_lookup =
  fixes lookup :: "string \<Rightarrow> ('w sys, string) go"
    and listing :: "string \<Rightarrow> 'w \<Rightarrow> (gerror + string list) \<times> 'w"
    and query :: "string \<Rightarrow> call"
    and missing :: gerror
  assumes lookup_failed: "listing name (world s) = (Inl e, w) \<Longrightarrow>
      lookup name s = (Fail e, log_call (query name) False w s)"
    and lookup_empty: "listing name (world s) = (Inr [], w) \<Longrightarrow>
      lookup name s = (Fail missing, log_call (query name) True w s)"
    and lookup_found: "listing name (world s) = (Inr (x # xs), w) \<Longrightarrow>
      lookup name s = (Ok x, log_call (query name) True w s)"
begin

lemma lookup_cases:
  obtains (failed) e w where "lookup name s = (Fail e, log_call (query name) False w s)"
  | (empty) w where "lookup name s = (Fail missing, log_call (query name) True w s)"
  | (found) x w where "lookup name s = (Ok x, log_call (query name) True w s)"
proof -
  obtain r w where lr: "listing name (world s) = (r, w)" by fastforce
  show thesis
  proof (cases r)
    case (Inl e)
    with lr have "listing name (world s) = (Inl e, w)" by simp
    from lookup_failed [OF this] show ?thesis by (rule failed)
  next
    case (Inr xs)
    show ?thesis
    proof (cases xs)
      case Nil
      with lr Inr have "listing name (world s) = (Inr [], w)" by simp
      from lookup_empty [OF this] show ?thesis by (rule empty)
    next
      case (Cons y ys)
      with lr Inr have "listing name (world s) = (Inr (y # ys), w)" by simp
      from lookup_found [OF this] show ?thesis by (rule found)
    qed
  qed
qed

lemma lookup_one_call:
  "\<exists>ok. calls (snd (lookup name s)) = calls s @ [(query name, ok)]"
  by (rule lookup_cases [of name s]) auto

lemma lookup_never_crashes: "fst (lookup name s) \<noteq> Crash c"
  by (rule lookup_cases [of name s]) auto

lemma lookup_answer:
  "fst (lookup name s) = Ok x \<longleftrightarrow> (\<exists>xs w. listing name (world s) = (Inr (x # xs), w))"
proof
  assume got: "fst (lookup name s) = Ok x"
  obtain r w where lr: "listing name (world s) = (r, w)" by fastforce
  show "\<exists>xs w. listing name (world s) = (Inr (x # xs), w)"
  proof (cases r)
    case (Inl e)
    with lr got show ?thesis by (simp add: lookup_failed)
  next
    case (Inr ys)
    with lr got show ?thesis by (cases ys) (simp_all add: lookup_empty lookup_found)
  qed
next
  assume "\<exists>xs w. listing name (world s) = (Inr (x # xs), w)"
  then show "fst (lookup name s) = Ok x" by (auto simp: lookup_found)
qed

text \<open>After a lookup whose error is wrapped, the plan goes on with the first element, or ends.\<close>

lemma lookup_planned:
  assumes "f (query name) = None" and "\<And>x. planned f (k x) (p x)"
  shows "planned f (go_bind (go_wrap msg (lookup name)) k)
    (\<lambda>w. case first_found (listing name w) of None \<Rightarrow> [] | Some (x, w') \<Rightarrow> p x w')"
proof -
  let ?r = "\<lambda>w. case listing name w of (Inl e, _) \<Rightarrow> Fail (errorf msg e)
      | (Inr [], _) \<Rightarrow> Fail (errorf msg missing) | (Inr (x # _), _) \<Rightarrow> Ok x"
  have "\<exists>ok. go_wrap msg (lookup name) s = (?r (world s), log_call (query name) ok (snd (listing name (world s))) s)" for s
  proof -
    obtain r w where lr: "listing name (world s) = (r, w)" by fastforce
    then show ?thesis
      using lookup_failed [of name s] lookup_empty [of name s] lookup_found [of name s]
      by (auto simp: go_wrap_eval split: sum.split list.split)
  qed
  from planned_step [OF this assms]
  have "planned f (go_bind (go_wrap msg (lookup name)) k)
    (\<lambda>w. case ?r w of Ok x \<Rightarrow> p x (snd (listing name w)) | _ \<Rightarrow> [])" .
  moreover have "(case ?r w of Ok x \<Rightarrow> p x (snd (listing name w)) | _ \<Rightarrow> []) =
      (case first_found (listing name w) of None \<Rightarrow> [] | Some (x, w') \<Rightarrow> p x w')" for w
    by (simp add: first_found_def split: prod.split sum.split list.split)
  ultimately show ?thesis by simp
qed

lemma lookup_uses [uses_intro]: "K (query name) \<Longrightarrow> uses K (lookup name)"
proof (rule run_respectsI)
  fix s
  assume "K (query name)"
  then show "emits (\<lambda>(c, _). K c) s (snd (lookup name s))"
    by (cases rule: lookup_cases [of name s]) (auto simp: emits_def)
qed

lemma lookup_frame [uses_intro]:
  assumes "\<And>c ok w s. fld (log_call c ok w s) = fld s"
  shows "run_respects (same_field fld) (lookup name)"
proof (rule run_respectsI)
  fix s
  show "same_field fld s (snd (lookup name s))"
    by (cases rule: lookup_cases [of name s]) (auto simp: same_field_def assms)
qed

end

definition secgroup_listing :: "'w Ext \<Rightarrow> handle \<Rightarrow> string \<Rightarrow> 'w \<Rightarrow> (gerror + string list) \<times> 'w" where
  "secgroup_listing E client name w = (case o_SecgroupPages (otc E) client name w of
      (Inl e, w') \<Rightarrow> (Inl e, w')
    | (Inr pages, w') \<Rightarrow> (Inr (fst (o_ExtractGroups (otc E) pages)), w'))"

interpretation secgroup: first_match_lookup "secgroupGet E client" "secgroup_listing E client"
  "\<lambda>name. NET (CSecgroupList name)" "new_error ''no secgroup found''" for E client
  by unfold_locales
    (auto simp: secgroupGet_def secgroup_listing_def go_eval split: prod.splits sum.splits)

interpretation subnet: first_match_lookup "subnetGet E client" "o_SubnetList (otc E) client"
  "\<lambda>name. NET (CSubnetList name)" "new_error ''no subnet found''" for E client
  by unfold_locales (auto simp: subnetGet_def go_eval)

interpretation vpc: first_match_lookup "vpcGet E client" "o_VpcList (otc E) client"
  "\<lambda>name. NET (CVpcList name)" "new_error ''no vpc found''" for E client
  by unfold_locales (auto simp: vpcGet_def go_eval)

section \<open>The instance lookups\<close>

definition rds_answer :: "'w Ext \<Rightarrow> handle \<Rightarrow> ListRdsInstanceOpts \<Rightarrow> 'w \<Rightarrow>
    (gerror + RdsInstanceResponse option) \<times> 'w" where
  "rds_answer E client opts w = (case o_RdsPages (otc E) client opts w of
      (Inl e, w') \<Rightarrow> (Inl e, w')
    | (Inr pages, w') \<Rightarrow> (case o_ExtractRdsInstances (otc E) pages of
          Inl e \<Rightarrow> (Inl e, w')
        | Inr [] \<Rightarrow> (Inr None, w')
        | Inr (i # _) \<Rightarrow> (Inr (Some i), w')))"

definition rds_answered :: "'w Ext \<Rightarrow> handle \<Rightarrow> ListRdsInstanceOpts \<Rightarrow> 'w \<Rightarrow> bool" where
  "rds_answered E client opts w = (case fst (o_RdsPages (otc E) client opts w) of
      Inl _ \<Rightarrow> False | Inr _ \<Rightarrow> True)"

definition query_instance :: "'w Ext \<Rightarrow> handle \<Rightarrow> ListRdsInstanceOpts \<Rightarrow>
    ('w sys, RdsInstanceResponse option) go" where
  "query_instance E client opts = (\<lambda>s. case rds_answer E client opts (world s) of
      (Inl e, w) \<Rightarrow> (Fail e, log_call (RDS (CRdsList opts)) (rds_answered E client opts (world s)) w s)
    | (Inr p, w) \<Rightarrow> (Ok p, log_call (RDS (CRdsList opts)) (rds_answered E client opts (world s)) w s))"

lemma rdsGetById_query:
  "rdsGetById E client i = query_instance E client (by_id_opts i)"
  by (auto simp: fun_eq_iff rdsGetById_def query_instance_def rds_answer_def rds_answered_def go_eval Let_def
      split: prod.split sum.split list.split)

lemma rdsGetByName_query:
  "rdsGetByName E client n ns = query_instance E client (by_name_opts n ns)"
  by (auto simp: fun_eq_iff rdsGetByName_def query_instance_def rds_answer_def rds_answered_def go_eval Let_def
      split: prod.split sum.split list.split)

lemma rdsGetById_eval [go_eval]:
  "rdsGetById E client i s = query_instance E client (by_id_opts i) s"
  by (simp add: rdsGetById_query)

lemma rdsGetByName_eval [go_eval]:
  "rdsGetByName E client n ns s = query_instance E client (by_name_opts n ns) s"
  by (simp add: rdsGetByName_query)

lemma query_instance_eval [go_eval]:
  "query_instance E client opts s = (case rds_answer E client opts (world s) of
      (Inl e, w) \<Rightarrow> (Fail e, log_call (RDS (CRdsList opts)) (rds_answered E client opts (world s)) w s)
    | (Inr p, w) \<Rightarrow> (Ok p, log_call (RDS (CRdsList opts)) (rds_answered E client opts (world s)) w s))"
  by (simp add: query_instance_def)

lemma query_instance_never_crashes: "fst (query_instance E client opts s) \<noteq> Crash c"
  by (simp add: query_instance_def split: prod.splits sum.splits)

lemma query_instance_uses: "K (RDS (CRdsList opts)) \<Longrightarrow> uses K (query_instance E client opts)"
  by (rule run_respectsI) (simp add: query_instance_def emits_def split: prod.split sum.split)

lemma query_instance_frame:
  "(\<And>c ok w s. fld (log_call c ok w s) = fld s) \<Longrightarrow>
     run_respects (same_field fld) (query_instance E client opts)"
  by (rule run_respectsI) (simp add: query_instance_def same_field_def split: prod.split sum.split)

lemma rdsGet_uses [uses_intro]:
  "(\<And>o1. K (RDS (CRdsList o1))) \<Longrightarrow> uses K (rdsGetById E client i)"
  "(\<And>o1. K (RDS (CRdsList o1))) \<Longrightarrow> uses K (rdsGetByName E client n ns)"
  by (simp_all add: rdsGetById_query rdsGetByName_query query_instance_uses)

lemma rdsGet_frame [uses_intro]:
  "(\<And>c ok w s. fld (log_call c ok w s) = fld s) \<Longrightarrow>
     run_respects (same_field fld) (rdsGetById E client i)"
  "(\<And>c ok w s. fld (log_call c ok w s) = fld s) \<Longrightarrow>
     run_respects (same_field fld) (rdsGetByName E client n ns)"
  by (simp_all add: rdsGetById_query rdsGetByName_query query_instance_frame)

section \<open>Property\<close>

text \<open>The lookups by name return the first element of what the service lists, never crash, and
  make one call each, the query for the name.\<close>

theorem lookups_first_match:
  "((fst (vpcGet E client n s) = Ok x) = (\<exists>xs w. o_VpcList (otc E) client n (world s) = (Inr (x # xs), w))) \<and>
   ((fst (subnetGet E client n s) = Ok x) = (\<exists>xs w. o_SubnetList (otc E) client n (world s) = (Inr (x # xs), w))) \<and>
   ((fst (secgroupGet E client n s) = Ok x) =
     (\<exists>xs w. secgroup_listing E client n (world s) = (Inr (x # xs), w))) \<and>
   fst (vpcGet E client n s) \<noteq> Crash c \<and> fst (subnetGet E client n s) \<noteq> Crash c \<and>
   fst (secgroupGet E client n s) \<noteq> Crash c \<and>
   (\<exists>ok. calls (snd (vpcGet E client n s)) = calls s @ [(NET (CVpcList n), ok)]) \<and>
   (\<exists>ok. calls (snd (subnetGet E client n s)) = calls s @ [(NET (CSubnetList n), ok)]) \<and>
   (\<exists>ok. calls (snd (secgroupGet E client n s)) = calls s @ [(NET (CSecgroupList n), ok)])"
  by (intro conjI vpc.lookup_answer subnet.lookup_answer secgroup.lookup_answer
      vpc.lookup_never_crashes subnet.lookup_never_crashes secgroup.lookup_never_crashes
      vpc.lookup_one_call subnet.lookup_one_call secgroup.lookup_one_call)

end
