(* ===== verification/Status_Update.thy ===== *)
theory Status_Update
  imports Clientset Provider Lookup
begin

text \<open>
  \<open>rdsUpdateStatus\<close> and \<open>UpdateStatus\<close> of \<open>pkg/controller/resource.go\<close>: the instance's address
  and state are copied into the custom resource, the resource is written back, and the
  service and its endpoint are created when the service is missing.

  The lemmas give the interface the other handlers rely on, as the locale \<open>status_writer\<close>:
  a status write never touches the specification or the instance identifier, talks to the
  cloud only by listing instances, and reports an error only when no client can be built.
\<close>

section \<open>Writing through the pointer newRds\<close>

definition modify_new :: "(Rds \<Rightarrow> Rds) \<Rightarrow> ('w sys, unit) go" where
  "modify_new f = go_modify (\<lambda>s. s\<lparr>newRds := f (newRds s)\<rparr>)"

definition modify_status :: "(RdsStatus \<Rightarrow> RdsStatus) \<Rightarrow> ('w sys, unit) go" where
  "modify_status f = modify_new (\<lambda>r. r\<lparr>rds_Status := f (rds_Status r)\<rparr>)"

definition Eventf :: "'w Ext \<Rightarrow> string \<Rightarrow> string \<Rightarrow> string \<Rightarrow> ('w sys, unit) go" where
  "Eventf E eventtype rsn msg =
     go_bind (go_get newRds) (\<lambda>r.
       perform_w (K8S (CEvent (rds_Namespace r) (rds_Name r) eventtype rsn msg))
         (k_Eventf (kube E) r eventtype rsn msg))"

definition EventTypeNormal :: string where
  "EventTypeNormal = ''Normal''"

definition EventTypeWarning :: string where
  "EventTypeWarning = ''Warning''"

definition InClusterConfig :: "'w Ext \<Rightarrow> ('w sys, RestConfig) go" where
  "InClusterConfig E = perform_e (K8S CInClusterConfig) (k_InClusterConfig (kube E))"

definition KubeClient :: "'w Ext \<Rightarrow> RestConfig \<Rightarrow> ('w sys, handle) go" where
  "KubeClient E cfg = perform_e (K8S CKubeClient) (k_NewForConfig (kube E) cfg)"

section \<open>The service and its endpoint\<close>

definition service_labels :: "(string \<times> string) list" where
  "service_labels = [(''k8s-app'', ''otc-rds-operatpr'')]"

definition endpoint_for :: "Rds \<Rightarrow> Endpoints" where
  "endpoint_for r =
     (let iport = fst (Atoi (spec_Port (rds_Spec r)))
      in \<lparr>ep_Name = rds_Name r, ep_Namespace = rds_Namespace r, ep_Labels = service_labels,
          ep_Subsets = [([status_Ip (rds_Status r)], [int32 iport])]\<rparr>)"

definition service_for :: "Rds \<Rightarrow> Service" where
  "service_for r =
     (let iport = fst (Atoi (spec_Port (rds_Spec r)))
      in \<lparr>sv_Name = rds_Name r, sv_Namespace = rds_Namespace r, sv_Labels = service_labels,
          sv_Ports = [(int32 iport, ''TCP'', int32 iport)], sv_ClusterIP = ''None'',
          sv_Type = ''ClusterIP''\<rparr>)"

definition ensure_service :: "'w Ext \<Rightarrow> RestConfig \<Rightarrow> ('w sys, unit) go" where
  "ensure_service E restConfig =
     go_bind (go_get newRds) (\<lambda>r.
     let endpoint = endpoint_for r; service = service_for r;
         ns = rds_Namespace r; name = rds_Name r in
     go_bind (go_wrap ''error creating k8sclientset: '' (KubeClient E restConfig)) (\<lambda>k8s.
     go_bind (go_try (perform_e (K8S (CServiceGet ns name)) (k_ServiceGet (kube E) k8s ns name))) (\<lambda>got.
     case got of
       Inr _ \<Rightarrow> go_return ()
     | Inl err \<Rightarrow>
         if IsNotFound err then
           go_then (go_wrap ''error creating endpoint: ''
             (perform_e (K8S (CEndpointsCreate ns endpoint)) (k_EndpointsCreate (kube E) k8s ns endpoint)))
           (go_wrap ''error creating service: ''
             (perform_e (K8S (CServiceCreate ns service)) (k_ServiceCreate (kube E) k8s ns service)))
         else if IsAlreadyExists err then
           go_wrap ''error updating endpoint: ''
             (perform_e (K8S (CEndpointsUpdate ns endpoint)) (k_EndpointsUpdate (kube E) k8s ns endpoint))
         else go_fail (errorf ''error getting service: '' err))))"

section \<open>rdsUpdateStatus\<close>

text \<open>The instance's address and state as they go into the resource's status.\<close>

definition status_from_instance :: "RdsInstanceResponse \<Rightarrow> RdsStatus \<Rightarrow> RdsStatus" where
  "status_from_instance inst st =
     (let st = st\<lparr>status_Ip := (if length (inst_PrivateIps inst) > 0 then inst_PrivateIps inst ! 0
                                else ''0.0.0.0'')\<rparr>
      in if inst_Status inst \<noteq> '''' then st\<lparr>status_Status := inst_Status inst\<rparr> else st)"

definition push_resource :: "'w Ext \<Rightarrow> Clientset \<Rightarrow> ('w sys, unit) go" where
  "push_resource E rdsclientset =
     go_bind (go_get newRds) (\<lambda>r.
     go_bind (rdss_Update E (cs_mcspsV1alpha1 rdsclientset) (rds_Namespace r) r '''') (\<lambda>(returnRds, err).
     if rds_Status returnRds \<noteq> rds_Status r
     then go_fail (new_error ''error update rds, result empty'')
     else (case err of Some e \<Rightarrow> go_fail (errorf ''error update rds: '' e) | None \<Rightarrow> go_return ())))"

definition rdsUpdateStatus :: "'w Ext \<Rightarrow> handle \<Rightarrow> ('w sys, unit) go" where
  "rdsUpdateStatus E client =
     go_bind (go_get newRds) (\<lambda>r.
     if status_Id (rds_Status r) = ''''
     then go_fail (new_error ''rdsUpdateStatus failed, Rds.Status.Id is empty'')
     else
     go_bind (go_wrap ''error init in-cluster config: '' (InClusterConfig E)) (\<lambda>restConfig.
     go_bind (go_wrap ''error creating rdsclientset: '' (clientset_NewForConfig E restConfig)) (\<lambda>rdsclientset.
     go_bind (go_wrap ''error getting rdsGetByName: ''
               (rdsGetByName E client (rds_Name r) (rds_Namespace r))) (\<lambda>p.
     go_bind (go_deref p) (\<lambda>rdsInstance.
     go_then (modify_status (status_from_instance rdsInstance))
    (go_then (push_resource E rdsclientset)
             (ensure_service E restConfig)))))))"

definition UpdateStatus :: "'w Ext \<Rightarrow> ('w sys, unit) go" where
  "UpdateStatus E =
     go_bind (go_wrap ''unable to initialize provider: '' (GetProvider E)) (\<lambda>provider.
     go_bind (go_wrap ''unable to initialize rds client: '' (NewClient E RDSV3 provider)) (\<lambda>rdsapi.
     go_ignore (rdsUpdateStatus E rdsapi)))"

section \<open>Which calls a status write makes\<close>

fun status_call :: "call \<Rightarrow> bool" where
  "status_call (IAM CAuthenticate) = True"
| "status_call (IAM (CNewClient svc)) = (svc = RDSV3)"
| "status_call (RDS (CRdsList o1)) = True"
| "status_call (K8S CInClusterConfig) = True"
| "status_call (K8S (CRestClient cfg)) = True"
| "status_call (K8S (CDiscoveryClient cfg)) = True"
| "status_call (K8S (CRest rq)) = (rq_Verb rq = PUT \<and> rq_Resource rq = ''rdss'')"
| "status_call (K8S CKubeClient) = True"
| "status_call (K8S (CServiceGet ns n)) = True"
| "status_call (K8S (CServiceCreate ns sv)) = True"
| "status_call (K8S (CEndpointsCreate ns ep)) = True"
| "status_call (K8S (CEndpointsUpdate ns ep)) = True"
| "status_call c = False"

text \<open>The part of a resource that no status write changes: all but the address and the state.\<close>

definition resource_core :: "Rds \<Rightarrow> Rds" where
  "resource_core r =
     r\<lparr>rds_Status := (rds_Status r)\<lparr>status_Ip := '''', status_Status := ''''\<rparr>\<rparr>"

lemma resource_core_eqD:
  assumes "resource_core r' = resource_core r"
  shows "rds_Spec r' = rds_Spec r" and "rds_Name r' = rds_Name r"
    and "rds_Namespace r' = rds_Namespace r" and "rds_MetaRest r' = rds_MetaRest r"
    and "status_Id (rds_Status r') = status_Id (rds_Status r)"
    and "status_Autopilot (rds_Status r') = status_Autopilot (rds_Status r)"
    and "status_Logs (rds_Status r') = status_Logs (rds_Status r)"
    and "status_Reboot (rds_Status r') = status_Reboot (rds_Status r)"
  using arg_cong [OF assms, of rds_Spec] arg_cong [OF assms, of rds_Name]
    arg_cong [OF assms, of rds_Namespace] arg_cong [OF assms, of rds_MetaRest]
    arg_cong [OF assms, of "\<lambda>r. status_Id (rds_Status r)"]
    arg_cong [OF assms, of "\<lambda>r. status_Autopilot (rds_Status r)"]
    arg_cong [OF assms, of "\<lambda>r. status_Logs (rds_Status r)"]
    arg_cong [OF assms, of "\<lambda>r. status_Reboot (rds_Status r)"]
  by (simp_all add: resource_core_def)

section \<open>The interface of a status write\<close>

locale status_writer =
  fixes write_status :: "('w sys, unit) go"
  assumes write_core: "run_respects (same_field (\<lambda>s. resource_core (newRds s))) write_status"
    and write_old: "run_respects (same_field oldRds) write_status"
    and write_project: "run_respects (same_field projectID) write_status"
    and write_uses: "uses status_call write_status"
begin

lemma write_core_eq: "write_status s = (r, t) \<Longrightarrow> resource_core (newRds t) = resource_core (newRds s)"
  using run_respectsD [OF write_core] by (auto simp: same_field_def)

lemma write_keeps:
  assumes "write_status s = (r, t)"
  shows "rds_Spec (newRds t) = rds_Spec (newRds s)" and "rds_Name (newRds t) = rds_Name (newRds s)"
    and "rds_Namespace (newRds t) = rds_Namespace (newRds s)"
    and "status_Id (rds_Status (newRds t)) = status_Id (rds_Status (newRds s))"
    and "status_Autopilot (rds_Status (newRds t)) = status_Autopilot (rds_Status (newRds s))"
    and "status_Logs (rds_Status (newRds t)) = status_Logs (rds_Status (newRds s))"
    and "status_Reboot (rds_Status (newRds t)) = status_Reboot (rds_Status (newRds s))"
  using resource_core_eqD [OF write_core_eq [OF assms]] by simp_all

lemma write_keeps_old: "write_status s = (r, t) \<Longrightarrow> oldRds t = oldRds s"
  using run_respectsD [OF write_old] by (auto simp: same_field_def)

lemma write_log:
  assumes "write_status s = (r, t)"
  obtains new where "calls t = calls s @ new" and "\<forall>(c, ok) \<in> set new. status_call c"
  using run_respectsD [OF write_uses assms] by (auto simp: emits_def list_all_iff)

lemma write_uses_in: "(\<And>c. status_call c \<Longrightarrow> K c) \<Longrightarrow> uses K write_status"
  by (rule uses_mono [OF write_uses])

lemma write_no_change:
  "write_status s = (r, t) \<Longrightarrow> (RDS c, ok) \<in> set (made s t) \<Longrightarrow> \<exists>o1. c = CRdsList o1"
  using uses_made [OF write_uses, of s r t "RDS c" ok] by (cases c) simp_all

end

section \<open>rdsUpdateStatus and UpdateStatus meet the interface\<close>

lemma modify_new_uses [uses_intro]: "uses K (modify_new f)"
  unfolding modify_new_def by (rule uses_modify) simp

lemma modify_status_uses [uses_intro]: "uses K (modify_status f)"
  unfolding modify_status_def by (rule modify_new_uses)

lemma modify_new_frame [uses_intro]:
  "(\<And>s n. fld (s\<lparr>newRds := n\<rparr>) = fld s) \<Longrightarrow> run_respects (same_field fld) (modify_new f)"
  by (simp add: modify_new_def frame_modify)

lemma Eventf_uses [uses_intro]:
  "(\<And>ns n. K (K8S (CEvent ns n ty rsn msg))) \<Longrightarrow> uses K (Eventf E ty rsn msg)"
  unfolding Eventf_def by (intro log_growth.keep_bind log_growth.keep_get uses_perform_w)

lemma Eventf_frame [uses_intro]:
  "(\<And>c ok w s. fld (log_call c ok w s) = fld s) \<Longrightarrow>
     run_respects (same_field fld) (Eventf E ty rsn msg)"
  unfolding Eventf_def by (intro frame.keep_bind frame.keep_get frame_perform_w)

lemma modify_status_core [uses_intro]:
  assumes "\<And>st. (f st)\<lparr>status_Ip := '''', status_Status := ''''\<rparr> = st\<lparr>status_Ip := '''', status_Status := ''''\<rparr>"
  shows "run_respects (same_field (\<lambda>s. resource_core (newRds s))) (modify_status f)"
  by (simp add: run_respects_def same_field_def modify_status_def modify_new_def go_eval
      resource_core_def assms)

lemma status_from_instance_core:
  "(status_from_instance i st)\<lparr>status_Ip := '''', status_Status := ''''\<rparr>
     = st\<lparr>status_Ip := '''', status_Status := ''''\<rparr>"
  by (simp add: status_from_instance_def Let_def)

lemmas status_defs = push_resource_def ensure_service_def rdsUpdateStatus_def InClusterConfig_def
  KubeClient_def Let_def

lemma push_resource_uses: "uses status_call (push_resource E cs)"
proof -
  have put: "uses status_call (rdss_Update E h ns r o1)" for h ns r o1
    by (auto simp: client_defs intro!: uses_intro)
  show ?thesis
    unfolding push_resource_def
    by (intro run_intro put)
qed

lemma rdsUpdateStatus_uses: "uses status_call (rdsUpdateStatus E client)"
  unfolding rdsUpdateStatus_def ensure_service_def InClusterConfig_def KubeClient_def Let_def
  by (intro run_intro uses_intro push_resource_uses) simp_all

lemma push_resource_frame:
  "(\<And>c ok w s. fld (log_call c ok w s) = fld s) \<Longrightarrow>
     run_respects (same_field fld) (push_resource E cs)"
  unfolding push_resource_def client_defs
  by (intro run_intro uses_intro)

lemma rdsUpdateStatus_core:
  "run_respects (same_field (\<lambda>s. resource_core (newRds s))) (rdsUpdateStatus E client)"
  unfolding rdsUpdateStatus_def ensure_service_def InClusterConfig_def KubeClient_def Let_def
  by (intro run_intro uses_intro push_resource_frame) (simp_all add: status_from_instance_core)

lemma rdsUpdateStatus_frame:
  assumes "\<And>c ok w s. fld (log_call c ok w s) = fld s" and "\<And>s n. fld (s\<lparr>newRds := n\<rparr>) = fld s"
  shows "run_respects (same_field fld) (rdsUpdateStatus E client)"
  unfolding rdsUpdateStatus_def ensure_service_def InClusterConfig_def KubeClient_def Let_def
    modify_status_def
  by (intro run_intro uses_intro push_resource_frame assms)

lemma UpdateStatus_uses: "uses status_call (UpdateStatus E)"
  unfolding UpdateStatus_def
  by (intro run_intro uses_intro rdsUpdateStatus_uses) simp_all

lemma UpdateStatus_core:
  "run_respects (same_field (\<lambda>s. resource_core (newRds s))) (UpdateStatus E)"
  unfolding UpdateStatus_def
  by (intro run_intro uses_intro rdsUpdateStatus_core) simp_all

lemma UpdateStatus_frame:
  assumes "\<And>c ok w s. fld (log_call c ok w s) = fld s" and "\<And>s n. fld (s\<lparr>newRds := n\<rparr>) = fld s"
    and "\<And>s env. fld (s\<lparr>osenv := env\<rparr>) = fld s"
  shows "run_respects (same_field fld) (UpdateStatus E)"
  unfolding UpdateStatus_def
  by (intro run_intro uses_intro rdsUpdateStatus_frame assms)

interpretation direct_write: status_writer "rdsUpdateStatus E client" for E client
  by unfold_locales
    (rule rdsUpdateStatus_core rdsUpdateStatus_uses rdsUpdateStatus_frame; simp)+

interpretation status_write: status_writer "UpdateStatus E" for E
  by unfold_locales (rule UpdateStatus_core UpdateStatus_uses UpdateStatus_frame; simp)+

section \<open>Outcomes\<close>

text \<open>
  The error of \<open>rdsUpdateStatus\<close> is assigned to nothing and the \<open>err\<close> tested after the call
  is the nil of \<open>NewRDSV3\<close>: \<open>UpdateStatus\<close> can only fail before it.
\<close>

definition rds_client :: "'w Ext \<Rightarrow> ('w sys, handle) go" where
  "rds_client E =
     go_bind (go_wrap ''unable to initialize provider: '' (GetProvider E)) (\<lambda>provider.
     go_wrap ''unable to initialize rds client: '' (NewClient E RDSV3 provider))"

lemma UpdateStatus_rds_client:
  "UpdateStatus E = go_bind (rds_client E) (\<lambda>rdsapi. go_ignore (rdsUpdateStatus E rdsapi))"
  by (simp add: UpdateStatus_def rds_client_def go_bind_assoc)

lemma UpdateStatus_error_from_client:
  assumes "fst (UpdateStatus E s) = Fail e"
  shows "fst (rds_client E s) = Fail e"
  using assms go_ignore_never_fails
  by (auto simp: UpdateStatus_rds_client go_eval split: prod.splits outcome.splits)

lemma UpdateStatus_swallows:
  assumes "rds_client E s = (Ok client, s1)" and "rdsUpdateStatus E client s1 = (Fail e, s2)"
  shows "UpdateStatus E s = (Ok (), s2)"
  using assms by (simp add: UpdateStatus_rds_client go_eval)

lemma rds_client_never_crashes: "fst (rds_client E s) \<noteq> Crash c"
proof -
  have "fst (GetProvider E s) \<noteq> Crash c" by (rule GetProvider_never_crashes)
  then show ?thesis
    by (auto simp: rds_client_def NewClient_def go_eval split: prod.splits outcome.splits sum.splits)
qed

lemma rds_client_frame [uses_intro]:
  assumes "\<And>c ok w s. fld (log_call c ok w s) = fld s" and "\<And>s env. fld (s\<lparr>osenv := env\<rparr>) = fld s"
  shows "run_respects (same_field fld) (rds_client E)"
  unfolding rds_client_def by (intro run_intro uses_intro assms)

lemma rds_client_uses [uses_intro]:
  "K (IAM CAuthenticate) \<Longrightarrow> K (IAM (CNewClient RDSV3)) \<Longrightarrow> uses K (rds_client E)"
  unfolding rds_client_def by (intro run_intro uses_intro)

lemma rdsUpdateStatus_no_id:
  "status_Id (rds_Status (newRds s)) = '''' \<Longrightarrow>
     rdsUpdateStatus E client s = (Fail (new_error ''rdsUpdateStatus failed, Rds.Status.Id is empty''), s)"
  by (simp add: rdsUpdateStatus_def go_eval)

text \<open>An instance that the cloud does not list crashes the status write (a nil dereference).\<close>

lemma rdsUpdateStatus_unlisted_crashes:
  assumes id: "status_Id (rds_Status (newRds s)) \<noteq> ''''"
    and cfg: "go_wrap ''error init in-cluster config: '' (InClusterConfig E) s = (Ok cfg, s1)"
    and cs: "go_wrap ''error creating rdsclientset: '' (clientset_NewForConfig E cfg) s1 = (Ok cs, s2)"
    and gone: "rds_answer E client
        (by_name_opts (rds_Name (newRds s)) (rds_Namespace (newRds s))) (world s2) = (Inr None, w)"
  shows "fst (rdsUpdateStatus E client s) = Crash NilDeref"
  unfolding rdsUpdateStatus_def
  apply (simp add: go_get_eval go_bind_eval [of _ _ s] id cfg)
  apply (simp add: go_bind_eval [of _ _ s1] cs)
  by (simp add: go_eval gone)

end
