(* ===== verification/Demo_Cloud.thy ===== *)
theory Demo_Cloud
  imports Status_Update
begin

text \<open>
  A small concrete cloud, on which the properties are instantiated: the world is the number of
  RDS instances it holds, creating adds one, deleting removes one, and every call
  succeeds but the lookup of a log job, whose name Kubernetes does not know.  It stands for no real service; the components' models take any \<open>Ext\<close>.
\<close>

definition demo_instance :: RdsInstanceResponse where
  "demo_instance = \<lparr>inst_Id = ''id1'', inst_Status = ''ACTIVE'', inst_PrivateIps = [''10.0.0.2''],
     inst_VolumeSize = 40, inst_FlavorRef = ''rds.c2'', inst_Nodes = [''node1'']\<rparr>"

definition demo_reply :: "string \<Rightarrow> ApiResult" where
  "demo_reply body = \<lparr>res_Err = None, res_Body = body\<rparr>"

definition demo_topic :: Topic where
  "demo_topic = \<lparr>tp_Name = ''ns_db'', tp_TopicUrn = ''urn1''\<rparr>"

definition demo_alarm :: "string \<Rightarrow> string \<Rightarrow> MetricAlarm" where
  "demo_alarm n i = \<lparr>ma_AlarmName = n, ma_AlarmId = i\<rparr>"

definition demo_flavor :: "string \<Rightarrow> int \<Rightarrow> string \<Rightarrow> (string \<times> string) list \<Rightarrow> Flavor" where
  "demo_flavor cpus ram code az = \<lparr>fl_VCPUs = cpus, fl_RAM = ram, fl_SpecCode = code, fl_AzStatus = az\<rparr>"

text \<open>Insertion into a sorted list without duplicates, for \<open>uniq.Slice\<close>.\<close>

fun uniq_insert :: "('a \<Rightarrow> 'a \<Rightarrow> bool) \<Rightarrow> 'a \<Rightarrow> 'a list \<Rightarrow> 'a list" where
  "uniq_insert lt x [] = [x]"
| "uniq_insert lt x (y # ys) = (if lt x y then x # y # ys else if lt y x then y # uniq_insert lt x ys
     else y # ys)"

definition demo_uniq :: "('a \<Rightarrow> 'a \<Rightarrow> bool) \<Rightarrow> 'a list \<Rightarrow> 'a list" where
  "demo_uniq lt xs = fold (uniq_insert lt) xs []"

definition demo_otc :: "nat OtcApi" where
  "demo_otc = \<lparr>
     o_AuthOptionsFromEnv = (\<lambda>env. Inr \<lparr>ao_IdentityEndpoint = env ''OS_AUTH_URL'',
        ao_Username = ''u'', ao_Password = ''p'', ao_DomainName = ''d''\<rparr>),
     o_AuthenticatedClient = (\<lambda>a w. (Inr 1, w)),
     o_NewClient = (\<lambda>svc h w. (Inr 2, w)),
     o_RdsPages = (\<lambda>h o1 w. (Inr (replicate w CHR ''i''), w)),
     o_ExtractRdsInstances = (\<lambda>pages. Inr (map (\<lambda>c. demo_instance) pages)),
     o_SecgroupPages = (\<lambda>h n w. (Inr ''g'', w)),
     o_ExtractGroups = (\<lambda>pages. ([''sg1''], None)),
     o_SubnetList = (\<lambda>h n w. (Inr [''subnet1''], w)),
     o_VpcList = (\<lambda>h n w. (Inr [''vpc1''], w)),
     o_RdsCreate = (\<lambda>h o1 w. (demo_reply ''job1'', w + 1)),
     o_RdsDelete = (\<lambda>h i w. (demo_reply ''job2'', w - 1)),
     o_EnlargeVolume = (\<lambda>h n i w. (demo_reply ''job3'', w)),
     o_Resize = (\<lambda>h f i w. (demo_reply ''job4'', w)),
     o_Restart = (\<lambda>h i w. (demo_reply ''job5'', w)),
     o_RestorePITR = (\<lambda>h o1 w. (demo_reply ''job6'', w)),
     o_ExtractInstance = (\<lambda>res. Inr (''id1'', ''BUILD'')),
     o_ExtractEnlarge = (\<lambda>res. Inr ()),
     o_ExtractResize = (\<lambda>res. Inr ()),
     o_ExtractRestart = (\<lambda>res. Inr (res_Body res)),
     o_ExtractJob = (\<lambda>res. Inr (res_Body res)),
     o_WaitForJobCompleted = (\<lambda>h t j w. (Inr (), w)),
     o_BackupCreate = (\<lambda>h o1 w. (Inr ''backup1'', w)),
     o_WaitForBackup = (\<lambda>h i b w. (Inr (), w)),
     o_FlavorPages = (\<lambda>h a b w. (Inr ''f'', w)),
     o_ExtractDbFlavors = (\<lambda>pages. Inr
        [demo_flavor ''2'' 4 ''rds.c2'' [(''eu-de-01'', ''normal'')],
         demo_flavor ''4'' 8 ''rds.c4'' [(''eu-de-01'', ''normal''), (''eu-de-02'', ''sellout'')],
         demo_flavor ''8'' 16 ''rds.c8'' [(''eu-de-02'', ''normal''), (''eu-de-01'', ''normal'')]]),
     o_UniqSlice = (\<lambda>lt xs. (demo_uniq lt xs, length (demo_uniq lt xs))),
     o_ListAlarms = (\<lambda>h w. ((Some [demo_alarm ''ns_db-disc-util'' ''a1'', demo_alarm ''ns_other'' ''a2''], None), w)),
     o_CreateAlarm = (\<lambda>h r w. (Inr ''a3'', w)),
     o_DeleteAlarm = (\<lambda>h i w. (Inr (), w)),
     o_TopicList = (\<lambda>h w. (Inr [demo_topic], w)),
     o_TopicCreate = (\<lambda>h n d w. ((Some demo_topic, None), w)),
     o_TopicDelete = (\<lambda>h u w. (Inr (), w)),
     o_SubscriptionList = (\<lambda>h w. (Inr [], w)),
     o_SubscriptionCreate = (\<lambda>h sb u w. (Inr (), w)),
     o_TokenCreate = (\<lambda>h o1 w. (Inr ''token1'', w)),
     o_TokenRevoke = (\<lambda>h tok w. (Inr (), w))\<rparr>"

definition demo_config :: RestConfig where
  "demo_config = \<lparr>rc_Host = ''kube'', rc_APIPath = '''', rc_GroupVersion = None, rc_UserAgent = '''',
     rc_RateLimiter = None, rc_QPS = 0, rc_Burst = 0\<rparr>"

definition demo_service :: Service where
  "demo_service = \<lparr>sv_Name = ''db'', sv_Namespace = ''ns'', sv_Labels = [], sv_Ports = [],
     sv_ClusterIP = ''None'', sv_Type = ''ClusterIP''\<rparr>"

definition demo_kube :: "nat KubeApi" where
  "demo_kube = \<lparr>
     k_InClusterConfig = (\<lambda>w. (Inr demo_config, w)),
     k_NewForConfig = (\<lambda>c w. (Inr 3, w)),
     k_RESTClientFor = (\<lambda>c w. (Inr 4, w)),
     k_DiscoveryClientFor = (\<lambda>c w. (Inr 5, w)),
     k_DefaultUserAgent = ''agent'',
     k_DoRds = (\<lambda>h rq w. ((case rq_Body rq of RdsBody r \<Rightarrow> r | _ \<Rightarrow> zero_rds, None), w)),
     k_DoRdsList = (\<lambda>h rq w. ((zero_rds_list, None), w)),
     k_DoError = (\<lambda>h rq w. (None, w)),
     k_Watch = (\<lambda>h rq w. (Inr 6, w)),
     k_ServiceGet = (\<lambda>h ns n w. (Inr demo_service, w)),
     k_ServiceCreate = (\<lambda>h ns sv w. (Inr (), w)),
     k_ServiceDelete = (\<lambda>h ns n w. (Inr (), w)),
     k_EndpointsCreate = (\<lambda>h ns ep w. (Inr (), w)),
     k_EndpointsUpdate = (\<lambda>h ns ep w. (Inr (), w)),
     k_JobCreate = (\<lambda>ns j w. (Inr (), w)),
     k_JobWatch = (\<lambda>ns l w. (Inr [WJob [], WJob [JobComplete]], w)),
     k_JobGet = (\<lambda>ns n w. ((Some (), Some (GErr NotFound ''not found'')), w)),
     k_Eventf = (\<lambda>r ty rsn m w. w)\<rparr>"

definition demo_sql :: "nat SqlApi" where
  "demo_sql = \<lparr>
     d_Open = (\<lambda>drv dsn w. (Inr 7, w)),
     d_Ping = (\<lambda>h w. (Inr (), w)),
     d_Prepare = (\<lambda>h q w. (Inr 8, w)),
     d_StmtQuery = (\<lambda>h v w. (Inr 9, w)),
     d_RowsNext = (\<lambda>h w. (False, w)),
     d_Query = (\<lambda>h q w. (Inr (), w)),
     d_StmtClose = (\<lambda>h w. w),
     d_Close = (\<lambda>h w. w)\<rparr>"

definition demo_ext :: "nat Ext" where
  "demo_ext = \<lparr>otc = demo_otc, kube = demo_kube, sqldb = demo_sql, x_Sleep = (\<lambda>n w. w),
     x_NowUnix = (\<lambda>w. (1700000000, w)), x_HttpGet = (\<lambda>u w. (Inr (), w)),
     x_ListenAndServe = (\<lambda>a w. (Some (new_error ''closed''), w))\<rparr>"

definition demo_spec :: RdsSpec where
  "demo_spec = zero_spec\<lparr>spec_Datastoretype := ''MySQL'', spec_Flavorref := ''rds.c2'',
     spec_Port := ''3306'', spec_Volumesize := 40\<rparr>"

text \<open>A resource with the instance identifier \<open>i\<close>, as its creation leaves it.\<close>

definition demo_rds :: "string \<Rightarrow> Rds" where
  "demo_rds i = zero_rds\<lparr>rds_Name := ''db'', rds_Namespace := ''ns'', rds_Spec := demo_spec,
     rds_Status := zero_status\<lparr>status_Id := i\<rparr>\<rparr>"

definition demo_sys :: "nat \<Rightarrow> Rds \<Rightarrow> nat sys" where
  "demo_sys n r = \<lparr>world = n, calls = [], osenv = (\<lambda>_. ''''), projectID = '''', oldRds = r, newRds = r\<rparr>"

named_theorems demo "what the concrete cloud answers"

lemma demo_ext_sel [demo]:
  "otc demo_ext = demo_otc" "kube demo_ext = demo_kube" "sqldb demo_ext = demo_sql"
  "x_Sleep demo_ext = (\<lambda>n w. w)" "x_NowUnix demo_ext = (\<lambda>w. (1700000000, w))"
  by (simp_all add: demo_ext_def)

lemmas [demo] = demo_otc_def demo_kube_def demo_sql_def

lemma demo_sys_sel [demo]:
  "world (demo_sys n r) = n" "calls (demo_sys n r) = []" "osenv (demo_sys n r) = (\<lambda>_. '''')"
  "projectID (demo_sys n r) = ''''" "oldRds (demo_sys n r) = r" "newRds (demo_sys n r) = r"
  by (simp_all add: demo_sys_def)

lemma demo_rds_sel [demo]:
  "rds_Name (demo_rds i) = ''db''" "rds_Namespace (demo_rds i) = ''ns''"
  "rds_Spec (demo_rds i) = demo_spec" "rds_Status (demo_rds i) = zero_status\<lparr>status_Id := i\<rparr>"
  by (simp_all add: demo_rds_def)

lemmas [demo] = go_eval GetProvider_eval NewClient_def Eventf_def InClusterConfig_def KubeClient_def
  demo_reply_def zero_status_def Let_def

lemma demo_clientset [demo]:
  "clientset_NewForConfig demo_ext demo_config s =
     (Ok \<lparr>cs_discovery = 5, cs_mcspsV1alpha1 = 4\<rparr>,
      log_call (K8S (CDiscoveryClient demo_config)) True (world s)
        (log_call (K8S (CRestClient (setConfigDefaults demo_ext demo_config))) True (world s) s))"
  by (simp add: clientset_NewForConfig_def mcsps_NewForConfig_def with_rate_limiter_def demo demo_config_def)

text \<open>A status write finds the one instance, pushes the resource and finds its service.\<close>

definition demo_pushed :: "Rds \<Rightarrow> Rds" where
  "demo_pushed r = r\<lparr>rds_Status := (rds_Status r)\<lparr>status_Ip := ''10.0.0.2'', status_Status := ''ACTIVE''\<rparr>\<rparr>"

definition demo_write_log :: "Rds \<Rightarrow> (call \<times> bool) list" where
  "demo_write_log r =
     [(K8S CInClusterConfig, True),
      (K8S (CRestClient (setConfigDefaults demo_ext demo_config)), True),
      (K8S (CDiscoveryClient demo_config), True),
      (RDS (CRdsList (by_name_opts (rds_Name r) (rds_Namespace r))), True),
      (K8S (CRest (update_request (rds_Namespace r) (demo_pushed r) [])), True),
      (K8S CKubeClient, True),
      (K8S (CServiceGet (rds_Namespace r) (rds_Name r)), True)]"

definition demo_written :: "nat sys \<Rightarrow> nat sys" where
  "demo_written s = s\<lparr>newRds := demo_pushed (newRds s), calls := calls s @ demo_write_log (newRds s)\<rparr>"

lemma demo_status_from_instance:
  "r\<lparr>rds_Status := status_from_instance demo_instance (rds_Status r)\<rparr> = demo_pushed r"
  by (simp add: status_from_instance_def demo_instance_def demo_pushed_def)

lemma demo_rdsUpdateStatus:
  assumes "status_Id (rds_Status (newRds s)) \<noteq> ''''" and "world s = 1"
  shows "rdsUpdateStatus demo_ext client s = (Ok (), demo_written s)"
  using assms
  by (simp add: rdsUpdateStatus_def demo rds_answer_def rds_answered_def demo_written_def demo_write_log_def
    push_resource_def ensure_service_def modify_status_def modify_new_def demo_status_from_instance
    log_call_def update_request_def)
    (simp add: demo_pushed_def)

definition demo_updated :: "nat sys \<Rightarrow> nat sys" where
  "demo_updated s = demo_written (s\<lparr>osenv := otc_defaults (osenv s),
     calls := calls s @ [(IAM CAuthenticate, True), (IAM (CNewClient RDSV3), True)]\<rparr>)"

lemma demo_UpdateStatus [demo]:
  "status_Id (rds_Status (newRds s)) \<noteq> [] \<Longrightarrow> world s = Suc 0 \<Longrightarrow>
     UpdateStatus demo_ext s = (Ok (), demo_updated s)"
  by (cases s) (simp add: UpdateStatus_def demo demo_rdsUpdateStatus demo_updated_def log_call_def)

lemma demo_updated_sel [demo]:
  "newRds (demo_updated s) = demo_pushed (newRds s)" "oldRds (demo_updated s) = oldRds s"
  "world (demo_updated s) = world s" "projectID (demo_updated s) = projectID s"
  "osenv (demo_updated s) = otc_defaults (osenv s)"
  "calls (demo_updated s) = calls s @ [(IAM CAuthenticate, True), (IAM (CNewClient RDSV3), True)] @
     demo_write_log (newRds s)"
  by (simp_all add: demo_updated_def demo_written_def)

lemma demo_pushed_sel [demo]:
  "rds_Spec (demo_pushed r) = rds_Spec r" "rds_Name (demo_pushed r) = rds_Name r"
  "rds_Namespace (demo_pushed r) = rds_Namespace r"
  "status_Id (rds_Status (demo_pushed r)) = status_Id (rds_Status r)"
  "status_Autopilot (rds_Status (demo_pushed r)) = status_Autopilot (rds_Status r)"
  "status_Logs (rds_Status (demo_pushed r)) = status_Logs (rds_Status r)"
  "status_Reboot (rds_Status (demo_pushed r)) = status_Reboot (rds_Status r)"
  "status_Status (rds_Status (demo_pushed r)) = ''ACTIVE''"
  by (simp_all add: demo_pushed_def)

text \<open>A view that skips the calls of a status write skips all of it.\<close>

lemma demo_write_silent:
  "(\<And>c. status_call c \<Longrightarrow> f c = None) \<Longrightarrow> seen f (demo_write_log r) = []"
  by (simp add: demo_write_log_def update_request_def)

lemma demo_instance_sel [demo]:
  "inst_Id demo_instance = ''id1''" "inst_Status demo_instance = ''ACTIVE''"
  "inst_PrivateIps demo_instance = [''10.0.0.2'']" "inst_VolumeSize demo_instance = 40"
  "inst_FlavorRef demo_instance = ''rds.c2''" "inst_Nodes demo_instance = [''node1'']"
  by (simp_all add: demo_instance_def)

lemma demo_lookup [demo]: "rds_answer demo_ext client opts (Suc 0) = (Inr (Some demo_instance), Suc 0)"
  "rds_answered demo_ext client opts (Suc 0)"
  by (simp_all add: rds_answer_def rds_answered_def demo)

lemmas [demo] = modify_status_def modify_new_def made_def demo_write_log_def

end
