(* ===== verification/Alarm.thy ===== *)
theory Alarm
  imports Demo_Cloud
begin

text \<open>
  \<open>pkg/controller/alarm.go\<close>: the autopilot's alarm rules, their topic and the subscription of
  the operator's endpoint.  The lemmas show what \<open>CreateAlarm\<close> creates and which rules
  \<open>DeleteAlarm\<close> asks to remove.
\<close>

definition ns_rds :: "string \<Rightarrow> string \<Rightarrow> string" where
  "ns_rds rdsName namespace = namespace @ ''_'' @ rdsName"

text \<open>
  The three \<open>CreateAlarmOpts\<close> literals of the source differ in the suffix of the name and in
  the metric only.
\<close>

definition alarm_rule :: "string \<Rightarrow> string \<Rightarrow> string \<Rightarrow> string \<Rightarrow> string \<Rightarrow> CreateAlarmOpts" where
  "alarm_rule nsRds sfx metric instanceId topicUrn =
     \<lparr>al_AlarmName = nsRds @ sfx,
      al_AlarmDescription = ''RDS Operator Autopilot'',
      al_AlarmLevel = 2,
      al_MetricNamespace = ''SYS.RDS'',
      al_MetricName = metric,
      al_Dimensions = [(''rds_instance_id'', instanceId)],
      al_Period = 300,
      al_Filter = ''average'',
      al_ComparisonOperator = ''>='',
      al_Value = 90,
      al_Unit = '''',
      al_Count = 3,
      al_AlarmActions = [(''notification'', [topicUrn])],
      al_AlarmEnabled = True,
      al_AlarmActionEnabled = True\<rparr>"

definition alarmDiscUtil :: "string \<Rightarrow> string \<Rightarrow> string \<Rightarrow> CreateAlarmOpts" where
  "alarmDiscUtil nsRds instanceId urn = alarm_rule nsRds ''-disc-util'' ''rds039_disk_util'' instanceId urn"

definition alarmCpuUtil :: "string \<Rightarrow> string \<Rightarrow> string \<Rightarrow> CreateAlarmOpts" where
  "alarmCpuUtil nsRds instanceId urn = alarm_rule nsRds ''-cpu-util'' ''rds001_cpu_util'' instanceId urn"

definition alarmMemUtil :: "string \<Rightarrow> string \<Rightarrow> string \<Rightarrow> CreateAlarmOpts" where
  "alarmMemUtil nsRds instanceId urn = alarm_rule nsRds ''-mem-util'' ''rds002_mem_util'' instanceId urn"

text \<open>The error of creating a rule is logged only; \<open>CreateAlarm\<close> goes on.\<close>

definition create_rule :: "'w Ext \<Rightarrow> handle \<Rightarrow> CreateAlarmOpts \<Rightarrow> ('w sys, unit) go" where
  "create_rule E ces rule =
     go_ignore (perform_e (MON (CAlarmCreate rule)) (o_CreateAlarm (otc E) ces rule))"

definition CreateAlarm :: "'w Ext \<Rightarrow> string \<Rightarrow> string \<Rightarrow> string \<Rightarrow> string \<Rightarrow> ('w sys, unit) go" where
  "CreateAlarm E instanceId smnEndpoint rdsName namespace =
     (let nsRds = ns_rds rdsName namespace;
          newSmn = \<lparr>sb_Endpoint = smnEndpoint, sb_Protocol = ''https'', sb_Remark = ''RDS Operator''\<rparr> in
     go_bind (go_wrap ''unable to initialize provider: '' (GetProvider E)) (\<lambda>provider.
     go_bind (go_wrap ''unable to initialize ces client: '' (NewClient E CES provider)) (\<lambda>ces.
     go_bind (go_wrap ''unable to initialize smn client: '' (NewClient E SMNV2 provider)) (\<lambda>smn.
     go_bind (go_wrap ''unable to get topic list: ''
               (perform_e (MON CTopicList) (o_TopicList (otc E) smn))) (\<lambda>tls.
     go_bind (perform_v (MON (CTopicCreate nsRds nsRds)) (o_TopicCreate (otc E) smn nsRds nsRds))
       (\<lambda>(topic, _).
     go_bind (go_wrap ''error extracting subscription list: ''
               (perform_e (MON CSubscriptionList) (o_SubscriptionList (otc E) smn))) (\<lambda>smnList.
     go_bind (go_deref topic) (\<lambda>topic.
     go_then (go_ignore (perform_e (MON (CSubscriptionCreate newSmn (tp_TopicUrn topic)))
               (o_SubscriptionCreate (otc E) smn newSmn (tp_TopicUrn topic))))
    (go_bind (perform_v (MON CAlarmList) (o_ListAlarms (otc E) ces)) (\<lambda>(alarmList, err).
     case err of
       Some e \<Rightarrow> go_fail (errorf ''ces list alarm failed: '' e)
     | None \<Rightarrow>
        go_bind (go_deref alarmList) (\<lambda>metricAlarms.
        if \<exists>alarm \<in> set metricAlarms. ma_AlarmName alarm = nsRds @ ''-disc-util''
        then go_fail (new_error (''alarmrule exists for '' @ nsRds))
        else
          go_then (create_rule E ces (alarmDiscUtil nsRds instanceId (tp_TopicUrn topic)))
         (go_then (create_rule E ces (alarmCpuUtil nsRds instanceId (tp_TopicUrn topic)))
         (create_rule E ces (alarmMemUtil nsRds instanceId (tp_TopicUrn topic)))))))))))))))"

definition delete_matching_alarm :: "'w Ext \<Rightarrow> handle \<Rightarrow> string \<Rightarrow> MetricAlarm \<Rightarrow> ('w sys, unit) go" where
  "delete_matching_alarm E ces nsRds alarm =
     go_when (Contains (ma_AlarmName alarm) nsRds)
       (go_ignore (perform_e (MON (CAlarmDelete (ma_AlarmId alarm)))
          (o_DeleteAlarm (otc E) ces (ma_AlarmId alarm))))"

definition delete_matching_topic :: "'w Ext \<Rightarrow> handle \<Rightarrow> string \<Rightarrow> Topic \<Rightarrow> ('w sys, unit) go" where
  "delete_matching_topic E smn nsRds tc =
     go_when (tp_Name tc = nsRds)
       (go_ignore (perform_e (MON (CTopicDelete (tp_TopicUrn tc)))
          (o_TopicDelete (otc E) smn (tp_TopicUrn tc))))"

definition DeleteAlarm :: "'w Ext \<Rightarrow> string \<Rightarrow> string \<Rightarrow> ('w sys, unit) go" where
  "DeleteAlarm E rdsName namespace =
     (let nsRds = ns_rds rdsName namespace in
     go_bind (go_wrap ''unable to initialize provider: '' (GetProvider E)) (\<lambda>provider.
     go_bind (go_wrap ''unable to initialize ces client: '' (NewClient E CES provider)) (\<lambda>ces.
     go_bind (go_wrap ''unable to initialize smn client: '' (NewClient E SMNV2 provider)) (\<lambda>smn.
     go_bind (perform_v (MON CAlarmList) (o_ListAlarms (otc E) ces)) (\<lambda>(alarmList, _).
     go_bind (go_deref alarmList) (\<lambda>metricAlarms.
     go_then (go_each (delete_matching_alarm E ces nsRds) metricAlarms)
    (go_bind (go_wrap ''unable to get topic list: ''
               (perform_e (MON CTopicList) (o_TopicList (otc E) smn))) (\<lambda>tls.
     go_each (delete_matching_topic E smn nsRds) tls))))))))"

section \<open>Which calls they make\<close>

fun create_alarm_call :: "call \<Rightarrow> bool" where
  "create_alarm_call (IAM CAuthenticate) = True"
| "create_alarm_call (IAM (CNewClient svc)) = (svc = CES \<or> svc = SMNV2)"
| "create_alarm_call (MON (CAlarmDelete i)) = False"
| "create_alarm_call (MON (CTopicDelete u)) = False"
| "create_alarm_call (MON c) = True"
| "create_alarm_call c = False"

fun delete_alarm_call :: "call \<Rightarrow> bool" where
  "delete_alarm_call (IAM CAuthenticate) = True"
| "delete_alarm_call (IAM (CNewClient svc)) = (svc = CES \<or> svc = SMNV2)"
| "delete_alarm_call (MON CAlarmList) = True"
| "delete_alarm_call (MON (CAlarmDelete i)) = True"
| "delete_alarm_call (MON CTopicList) = True"
| "delete_alarm_call (MON (CTopicDelete u)) = True"
| "delete_alarm_call c = False"

lemma CreateAlarm_uses: "uses create_alarm_call (CreateAlarm E i ep n ns)"
  unfolding CreateAlarm_def create_rule_def Let_def
  by (intro run_intro uses_intro) simp_all

lemma DeleteAlarm_uses: "uses delete_alarm_call (DeleteAlarm E n ns)"
  unfolding DeleteAlarm_def delete_matching_alarm_def delete_matching_topic_def Let_def
  by (intro run_intro uses_intro) simp_all

lemma CreateAlarm_frame [uses_intro]:
  assumes "\<And>c ok w s. fld (log_call c ok w s) = fld s" and "\<And>s env. fld (s\<lparr>osenv := env\<rparr>) = fld s"
  shows "run_respects (same_field fld) (CreateAlarm E i ep n ns)"
  unfolding CreateAlarm_def create_rule_def Let_def
  by (intro run_intro uses_intro assms)

lemma DeleteAlarm_frame [uses_intro]:
  assumes "\<And>c ok w s. fld (log_call c ok w s) = fld s" and "\<And>s env. fld (s\<lparr>osenv := env\<rparr>) = fld s"
  shows "run_respects (same_field fld) (DeleteAlarm E n ns)"
  unfolding DeleteAlarm_def delete_matching_alarm_def delete_matching_topic_def Let_def
  by (intro run_intro uses_intro assms)

section \<open>The rules that are created, and the rules that are deleted\<close>


fun deleted_alarm :: "call \<Rightarrow> string option" where
  "deleted_alarm (MON (CAlarmDelete i)) = Some i"
| "deleted_alarm c = None"

fun deleted_topic :: "call \<Rightarrow> string option" where
  "deleted_topic (MON (CTopicDelete u)) = Some u"
| "deleted_topic c = None"

lemma alarm_rule_name [simp]:
  "al_AlarmName (alarmDiscUtil nsRds i u) = nsRds @ ''-disc-util''"
  "al_AlarmName (alarmCpuUtil nsRds i u) = nsRds @ ''-cpu-util''"
  "al_AlarmName (alarmMemUtil nsRds i u) = nsRds @ ''-mem-util''"
  by (simp_all add: alarmDiscUtil_def alarmCpuUtil_def alarmMemUtil_def alarm_rule_def)

lemma delete_each_alarm:
  "\<exists>t. go_each (delete_matching_alarm E ces nsRds) as s = (Ok (), t) \<and>
     seen deleted_alarm (calls t) = seen deleted_alarm (calls s) @
       map ma_AlarmId (filter (\<lambda>a. Contains (ma_AlarmName a) nsRds) as)"
proof -
  have "\<exists>t. delete_matching_alarm E ces nsRds a s = (Ok (), t) \<and>
      seen deleted_alarm (calls t) = seen deleted_alarm (calls s) @
        (if Contains (ma_AlarmName a) nsRds then [ma_AlarmId a] else [])" for a s
    by (rule ignored_call [of "MON (CAlarmDelete (ma_AlarmId a))" "o_DeleteAlarm (otc E) ces (ma_AlarmId a)" s])
      (simp add: delete_matching_alarm_def go_when_eval )
  from each_logged [OF this, where xs = as] show ?thesis by (simp add: concat_if_filter)
qed

lemma delete_each_topic:
  "\<exists>t. go_each (delete_matching_topic E smn nsRds) tps s = (Ok (), t) \<and>
     seen deleted_topic (calls t) = seen deleted_topic (calls s) @
       map tp_TopicUrn (filter (\<lambda>t. tp_Name t = nsRds) tps) \<and>
     seen deleted_alarm (calls t) = seen deleted_alarm (calls s)"
proof -
  let ?f = "delete_matching_topic E smn nsRds"
  have one: "\<exists>t. ?f a s = (Ok (), t) \<and>
      seen deleted_topic (calls t) = seen deleted_topic (calls s) @
        (if tp_Name a = nsRds then [tp_TopicUrn a] else []) \<and>
      seen deleted_alarm (calls t) = seen deleted_alarm (calls s) @ []" for a s
    by (rule ignored_call [of "MON (CTopicDelete (tp_TopicUrn a))" "o_TopicDelete (otc E) smn (tp_TopicUrn a)" s])
      (simp add: delete_matching_topic_def go_when_eval )
  have "\<exists>t. go_each ?f tps s = (Ok (), t) \<and> seen deleted_topic (calls t) = seen deleted_topic (calls s) @
        concat (map (\<lambda>a. if tp_Name a = nsRds then [tp_TopicUrn a] else []) tps)"
    by (rule each_logged) (use one in blast)
  moreover have "\<exists>t. go_each ?f tps s = (Ok (), t) \<and> seen deleted_alarm (calls t) = seen deleted_alarm (calls s) @
        concat (map (\<lambda>a. []) tps)"
    by (rule each_logged) (use one in blast)
  ultimately show ?thesis by (auto simp: concat_if_filter)
qed

section \<open>Properties\<close>

definition alarm_clients :: "'w Ext \<Rightarrow> ('w sys, handle \<times> handle) go" where
  "alarm_clients E =
     go_bind (go_wrap ''unable to initialize provider: '' (GetProvider E)) (\<lambda>provider.
     go_bind (go_wrap ''unable to initialize ces client: '' (NewClient E CES provider)) (\<lambda>ces.
     go_bind (go_wrap ''unable to initialize smn client: '' (NewClient E SMNV2 provider)) (\<lambda>smn.
     go_return (ces, smn))))"

lemma alarm_clients_silent:
  "f (IAM CAuthenticate) = None \<Longrightarrow> f (IAM (CNewClient CES)) = None \<Longrightarrow>
     f (IAM (CNewClient SMNV2)) = None \<Longrightarrow> uses (\<lambda>c. f c = None) (alarm_clients E)"
  unfolding alarm_clients_def by (intro run_intro uses_intro)

text \<open>What the two services list, whenever they are asked.\<close>

definition lists_alarms :: "'w Ext \<Rightarrow> MetricAlarm list \<Rightarrow> bool" where
  "lists_alarms E as \<longleftrightarrow> (\<forall>h w. fst (fst (o_ListAlarms (otc E) h w)) = Some as)"

definition lists_topics :: "'w Ext \<Rightarrow> Topic list \<Rightarrow> bool" where
  "lists_topics E tps \<longleftrightarrow> (\<forall>h w. fst (o_TopicList (otc E) h w) = Inr tps)"

definition delete_listed :: "'w Ext \<Rightarrow> string \<Rightarrow> handle \<times> handle \<Rightarrow> ('w sys, unit) go" where
  "delete_listed E nsRds = (\<lambda>(ces, smn).
     go_bind (perform_v (MON CAlarmList) (o_ListAlarms (otc E) ces)) (\<lambda>(alarmList, _).
     go_bind (go_deref alarmList) (\<lambda>metricAlarms.
     go_then (go_each (delete_matching_alarm E ces nsRds) metricAlarms)
    (go_bind (go_wrap ''unable to get topic list: ''
               (perform_e (MON CTopicList) (o_TopicList (otc E) smn))) (\<lambda>tls.
     go_each (delete_matching_topic E smn nsRds) tls)))))"

lemma DeleteAlarm_clients:
  "DeleteAlarm E n ns = go_bind (alarm_clients E) (delete_listed E (ns_rds n ns))"
  by (simp add: DeleteAlarm_def alarm_clients_def delete_listed_def go_bind_assoc Let_def)

lemma delete_listed_log:
  assumes "lists_alarms E as" and "lists_topics E tps"
  shows "\<exists>t. delete_listed E nsRds hs s = (Ok (), t) \<and>
    seen deleted_alarm (calls t) = seen deleted_alarm (calls s) @
      map ma_AlarmId (filter (\<lambda>a. Contains (ma_AlarmName a) nsRds) as) \<and>
    seen deleted_topic (calls t) = seen deleted_topic (calls s) @
      map tp_TopicUrn (filter (\<lambda>t. tp_Name t = nsRds) tps)"
proof -
  obtain ces smn where hs: "hs = (ces, smn)" by (cases hs)
  obtain e w where al: "o_ListAlarms (otc E) ces (world s) = ((Some as, e), w)"
    using assms(1) unfolding lists_alarms_def by (metis prod.collapse)
  let ?s1 = "log_call (MON CAlarmList) (e = None) w s"
  obtain s2 where s2: "go_each (delete_matching_alarm E ces nsRds) as ?s1 = (Ok (), s2)"
      "seen deleted_alarm (calls s2) = seen deleted_alarm (calls ?s1) @
        map ma_AlarmId (filter (\<lambda>a. Contains (ma_AlarmName a) nsRds) as)"
    using delete_each_alarm by metis
  have "uses (\<lambda>c. deleted_topic c = None) (go_each (delete_matching_alarm E ces nsRds) as)"
    unfolding delete_matching_alarm_def by (intro run_intro uses_intro) simp
  from seen_unchanged [OF this s2(1)] have topics: "seen deleted_topic (calls s2) = seen deleted_topic (calls ?s1)" .
  obtain v where tl: "o_TopicList (otc E) smn (world s2) = (Inr tps, v)"
    using assms(2) unfolding lists_topics_def by (metis prod.collapse)
  let ?s3 = "log_call (MON CTopicList) True v s2"
  obtain t where t: "go_each (delete_matching_topic E smn nsRds) tps ?s3 = (Ok (), t)"
      "seen deleted_topic (calls t) = seen deleted_topic (calls ?s3) @
        map tp_TopicUrn (filter (\<lambda>t. tp_Name t = nsRds) tps)"
      "seen deleted_alarm (calls t) = seen deleted_alarm (calls ?s3)"
    using delete_each_topic by metis
  have "delete_listed E nsRds hs s = (Ok (), t)"
    using al s2(1) tl t(1) by (simp add: delete_listed_def hs go_bind_eval go_then_eval perform_v_eval
        go_deref_eval go_wrap_eval perform_e_eval)
  with s2(2) t(2,3) topics show ?thesis by simp
qed

lemma DeleteAlarm_log:
  assumes "lists_alarms E as" and "lists_topics E tps" and "DeleteAlarm E n ns s = (Ok (), t)"
  shows "seen deleted_alarm (made s t) = map ma_AlarmId (filter (\<lambda>a. Contains (ma_AlarmName a) (ns_rds n ns)) as)"
    and "seen deleted_topic (made s t) = map tp_TopicUrn (filter (\<lambda>t. tp_Name t = ns_rds n ns) tps)"
proof -
  obtain hs u where u: "alarm_clients E s = (Ok hs, u)" "delete_listed E (ns_rds n ns) hs u = (Ok (), t)"
    using assms(3) unfolding DeleteAlarm_clients by (rule go_bind_okE)
  obtain pre where pre: "calls u = calls s @ pre" "seen deleted_alarm pre = []"
    using silent_run [OF alarm_clients_silent u(1), of deleted_alarm] by auto
  have pre2: "seen deleted_topic (calls u) = seen deleted_topic (calls s)"
    by (rule seen_unchanged [OF alarm_clients_silent u(1)]) simp_all
  have log: "calls t = calls s @ made s t"
    using run_respectsD [OF DeleteAlarm_uses assms(3)] by (rule emits_prefix)
  from delete_listed_log [OF assms(1,2), of "ns_rds n ns" hs u] u(2)
  have "seen deleted_alarm (calls t) = seen deleted_alarm (calls u) @
      map ma_AlarmId (filter (\<lambda>a. Contains (ma_AlarmName a) (ns_rds n ns)) as)"
    "seen deleted_topic (calls t) = seen deleted_topic (calls u) @
      map tp_TopicUrn (filter (\<lambda>t. tp_Name t = ns_rds n ns) tps)"
    by auto
  with log pre pre2 show "seen deleted_alarm (made s t) =
      map ma_AlarmId (filter (\<lambda>a. Contains (ma_AlarmName a) (ns_rds n ns)) as)"
    and "seen deleted_topic (made s t) = map tp_TopicUrn (filter (\<lambda>t. tp_Name t = ns_rds n ns) tps)"
    by (metis append_Nil2 append_same_eq same_append_eq seen_append)+
qed


lemma demo_lists:
  "lists_alarms demo_ext [demo_alarm ''ns_db-disc-util'' ''a1'', demo_alarm ''ns_other'' ''a2'']"
  "lists_topics demo_ext [demo_topic]"
  by (simp_all add: lists_alarms_def lists_topics_def demo)

lemma demo_DeleteAlarm_run:
  "\<exists>t. DeleteAlarm demo_ext n ns (demo_sys 1 (demo_rds ''id1'')) = (Ok (), t)"
proof -
  obtain u where "alarm_clients demo_ext (demo_sys 1 (demo_rds ''id1'')) = (Ok (2, 2), u)"
    by (simp add: alarm_clients_def demo)
  with delete_listed_log [OF demo_lists, of "ns_rds n ns" "(2, 2)" u] show ?thesis
    by (auto simp: DeleteAlarm_clients go_bind_eval)
qed



text \<open>Deleting the alarms of one instance also deletes every rule of an instance in the same
  namespace whose name begins with its name.\<close>

theorem delete_alarm_overreaches:
  assumes "lists_alarms E as" and "lists_topics E tps" and "DeleteAlarm E n ns s = (Ok (), t)"
    and "a \<in> set as" and "ma_AlarmName a = ns_rds (n @ rest) ns @ sfx"
  shows "ma_AlarmId a \<in> set (seen deleted_alarm (made s t))"
proof -
  have "Contains (ma_AlarmName a) (ns_rds n ns)"
    using assms(5) Contains_self_append [of "[]" "ns_rds n ns" "rest @ sfx"] by (simp add: ns_rds_def)
  with assms(4) show ?thesis by (simp add: DeleteAlarm_log(1) [OF assms(1-3)])
qed

theorem delete_alarm_overreaches_witness:
  "\<exists>t. DeleteAlarm demo_ext ''d'' ''ns'' (demo_sys 1 (demo_rds ''id1'')) = (Ok (), t) \<and>
     ''a1'' \<in> set (seen deleted_alarm (made (demo_sys 1 (demo_rds ''id1'')) t))"
proof -
  obtain t where run: "DeleteAlarm demo_ext ''d'' ''ns'' (demo_sys 1 (demo_rds ''id1'')) = (Ok (), t)"
    using demo_DeleteAlarm_run by blast
  let ?a = "demo_alarm ''ns_db-disc-util'' ''a1''"
  have "?a \<in> set [?a, demo_alarm ''ns_other'' ''a2'']"
    and "ma_AlarmName ?a = ns_rds (''d'' @ ''b'') ''ns'' @ ''-disc-util''"
    by (simp_all add: demo_alarm_def ns_rds_def)
  from delete_alarm_overreaches [OF demo_lists run this] run show ?thesis
    by (simp add: demo_alarm_def)
qed










end
