(* ===== verification/Trace_Logic.thy ===== *)
theory Trace_Logic
  imports Cloud "HOL-Library.Sublist"
begin

text \<open>
  Triples for the calls a piece of code makes.  \<open>traces f I m P J\<close>: from a state with \<open>I\<close>, the
  calls of interest (those that \<open>f\<close> picks) that \<open>m\<close> makes are the first of the list \<open>P\<close>, and
  when \<open>m\<close> returns a value they are all of \<open>P\<close> and the value and the state satisfy \<open>J\<close>.
  So \<open>P\<close> is what the code plans to do, and an error or a crash cuts it short.
\<close>

definition traces :: "(call \<Rightarrow> 'b option) \<Rightarrow> ('w sys \<Rightarrow> bool) \<Rightarrow> ('w sys, 'a) go \<Rightarrow> 'b list \<Rightarrow>
    ('a \<Rightarrow> 'w sys \<Rightarrow> bool) \<Rightarrow> bool" where
  "traces f I m P J \<longleftrightarrow> (\<forall>s r t. I s \<longrightarrow> m s = (r, t) \<longrightarrow>
     (\<exists>new. calls t = calls s @ new \<and> prefix (seen f new) P \<and>
        (\<forall>a. r = Ok a \<longrightarrow> seen f new = P \<and> J a t)))"

named_theorems trace_intro "rules of the triples"

lemma tracesI:
  assumes "\<And>s r t. I s \<Longrightarrow> m s = (r, t) \<Longrightarrow> \<exists>new. calls t = calls s @ new \<and> prefix (seen f new) P \<and>
     (\<forall>a. r = Ok a \<longrightarrow> seen f new = P \<and> J a t)"
  shows "traces f I m P J"
  using assms by (simp add: traces_def)

lemma tracesE:
  assumes "traces f I m P J" and "I s" and "m s = (r, t)"
  obtains new where "calls t = calls s @ new" and "prefix (seen f new) P"
    and "\<And>a. r = Ok a \<Longrightarrow> seen f new = P" and "\<And>a. r = Ok a \<Longrightarrow> J a t"
  using assms unfolding traces_def by metis

lemma traces_made:
  assumes "traces f I m P J" and "I s" and "m s = (r, t)"
  shows "prefix (seen f (made s t)) P" and "r = Ok a \<Longrightarrow> seen f (made s t) = P"
    and "r = Ok a \<Longrightarrow> J a t"
  using tracesE [OF assms] seen_same_calls by metis+

lemma traces_weaken:
  assumes "traces f I m P J" and "\<And>s. I' s \<Longrightarrow> I s" and "\<And>a s. J a s \<Longrightarrow> J' a s"
  shows "traces f I' m P J'"
proof (rule tracesI)
  fix s r t
  assume "I' s" and run: "m s = (r, t)"
  obtain new where "calls t = calls s @ new" "prefix (seen f new) P"
      "\<And>a. r = Ok a \<Longrightarrow> seen f new = P" "\<And>a. r = Ok a \<Longrightarrow> J a t"
    using tracesE [OF assms(1) assms(2) [OF \<open>I' s\<close>] run] by blast
  then show "\<exists>new. calls t = calls s @ new \<and> prefix (seen f new) P \<and>
      (\<forall>a. r = Ok a \<longrightarrow> seen f new = P \<and> J' a t)"
    by (intro exI [of _ new]) (simp add: assms(3))
qed

lemma traces_bind [trace_intro]:
  assumes m: "traces f I m P J" and k: "\<And>a. traces f (J a) (k a) Q K"
  shows "traces f I (go_bind m k) (P @ Q) K"
proof (rule tracesI)
  fix s r t
  assume "I s" and run: "go_bind m k s = (r, t)"
  from run show "\<exists>new. calls t = calls s @ new \<and> prefix (seen f new) (P @ Q) \<and>
      (\<forall>a. r = Ok a \<longrightarrow> seen f new = P @ Q \<and> K a t)"
  proof (cases rule: go_bind_cases)
    case (stop q)
    have "r \<noteq> Ok a" for a using run stop by (auto simp: go_bind_eval split: outcome.splits)
    with tracesE [OF m \<open>I s\<close> stop(1)] show ?thesis by (metis prefix_prefix)
  next
    case (cont a u)
    obtain new where new: "calls u = calls s @ new" "seen f new = P" "J a u"
      using tracesE [OF m \<open>I s\<close> cont(1)] by metis
    obtain more where "calls t = calls u @ more" "prefix (seen f more) Q"
        "\<And>a. r = Ok a \<Longrightarrow> seen f more = Q" "\<And>a. r = Ok a \<Longrightarrow> K a t"
      using tracesE [OF k new(3) cont(2)] by metis
    with new show ?thesis by (intro exI [of _ "new @ more"]) auto
  qed
qed

lemma traces_then [trace_intro]:
  "traces f I m P (\<lambda>_. J) \<Longrightarrow> traces f J n Q K \<Longrightarrow> traces f I (go_then m n) (P @ Q) K"
  unfolding go_then_def by (rule traces_bind)

lemma traces_wrap [trace_intro]: "traces f I m P J \<Longrightarrow> traces f I (go_wrap msg m) P J"
proof (rule tracesI)
  fix s r t
  assume m: "traces f I m P J" and "I s" and "go_wrap msg m s = (r, t)"
  from this(3) obtain q where q: "m s = (q, t)" "\<And>a. r = Ok a \<longleftrightarrow> q = Ok a"
    by (rule go_wrap_cases) blast
  from tracesE [OF m \<open>I s\<close> q(1)] q(2)
  show "\<exists>new. calls t = calls s @ new \<and> prefix (seen f new) P \<and> (\<forall>a. r = Ok a \<longrightarrow> seen f new = P \<and> J a t)"
    by metis
qed

lemma traces_get:
  "(\<And>s0. I s0 \<Longrightarrow> traces f I (k (g s0)) Q K) \<Longrightarrow> traces f I (go_bind (go_get g) k) Q K"
  unfolding traces_def by (simp add: go_bind_eval go_get_eval)

lemma traces_when:
  "(b \<Longrightarrow> traces f I m P (\<lambda>_. J)) \<Longrightarrow> (\<And>s. \<not> b \<Longrightarrow> I s \<Longrightarrow> J s) \<Longrightarrow>
     traces f I (go_when b m) (if b then P else []) (\<lambda>_. J)"
  unfolding traces_def by (simp add: go_when_eval)

lemma traces_silent:
  assumes "uses (\<lambda>c. f c = None) m" and "\<And>s a t. I s \<Longrightarrow> m s = (Ok a, t) \<Longrightarrow> J a t"
  shows "traces f I m [] J"
proof (rule tracesI)
  fix s r t
  assume "I s" and run: "m s = (r, t)"
  from silent_run [OF assms(1) run] assms(2) [OF \<open>I s\<close>] run
  show "\<exists>new. calls t = calls s @ new \<and> prefix (seen f new) [] \<and> (\<forall>a. r = Ok a \<longrightarrow> seen f new = [] \<and> J a t)"
    by (metis prefix_order.refl)
qed

text \<open>A silent piece of code that keeps what \<open>I\<close> looks at.\<close>

lemma traces_silent_frame:
  assumes "uses (\<lambda>c. f c = None) m" and "run_respects (same_field g) m"
  shows "traces f (\<lambda>s. I (g s)) m [] (\<lambda>_ s. I (g s))"
  by (rule traces_silent [OF assms(1)])
    (use run_respectsD [OF assms(2)] in \<open>auto simp: same_field_def\<close>)

lemma traces_fail: "traces f I (go_fail e) P J"
  by (auto simp: traces_def go_eval)

lemma traces_call:
  "f c = Some x \<Longrightarrow> (\<And>ok w s. I s \<Longrightarrow> J (log_call c ok w s)) \<Longrightarrow>
     traces f I (perform_res c h) [x] (\<lambda>_. J)"
  by (auto simp: traces_def go_eval split: prod.splits)

lemma traces_perform_e:
  "f c = Some x \<Longrightarrow> (\<And>ok w s. I s \<Longrightarrow> J (log_call c ok w s)) \<Longrightarrow>
     traces f I (perform_e c h) [x] (\<lambda>_. J)"
  by (auto simp: traces_def go_eval split: prod.splits sum.splits)

end
