(* ===== verification/Rds_Create.thy ===== *)
theory Rds_Create
  imports Demo_Cloud Trace_Logic
begin

text \<open>
  \<open>rdsCreate\<close> and \<open>Create\<close> of \<open>pkg/controller/resource.go\<close>: the instance of a new resource
  is created once, its identifier and state are written to the resource, and the creation job
  is awaited.
\<close>

definition WaitForJobCompleted :: "'w Ext \<Rightarrow> handle \<Rightarrow> string \<Rightarrow> ('w sys, unit) go" where
  "WaitForJobCompleted E client jobID =
     perform_e (RDS (CWaitJob 1800 jobID)) (o_WaitForJobCompleted (otc E) client 1800 jobID)"

text \<open>The two literals of the source differ in the field \<open>Ha\<close>, which is nil for a single instance.\<close>

definition create_opts_for :: "Rds \<Rightarrow> string \<Rightarrow> string \<Rightarrow> string \<Rightarrow> CreateRdsOpts" where
  "create_opts_for r v s g =
     (let sp = rds_Spec r in
      \<lparr>co_Name = rds_Namespace r @ ''_'' @ rds_Name r,
       co_DatastoreType = spec_Datastoretype sp,
       co_DatastoreVersion = spec_Datastoreversion sp,
       co_Ha = (if spec_Hamode sp = ''Ha'' then Some (spec_Hamode sp, spec_Hareplicationmode sp) else None),
       co_Port = spec_Port sp,
       co_Password = spec_Password sp,
       co_BackupStartTime = spec_Backupstarttime sp,
       co_BackupKeepDays = spec_Backupkeepdays sp,
       co_FlavorRef = spec_Flavorref sp,
       co_VolumeType = spec_Volumetype sp,
       co_VolumeSize = spec_Volumesize sp,
       co_Region = spec_Region sp,
       co_AvailabilityZone = spec_Availabilityzone sp,
       co_VpcId = v,
       co_SubnetId = s,
       co_SecurityGroupId = g\<rparr>)"

text \<open>After the request was accepted: record the identifier, await the job, record the rest.\<close>

definition finish_create :: "'w Ext \<Rightarrow> handle \<Rightarrow> ApiResult \<Rightarrow> ('w sys, unit) go" where
  "finish_create E client createResult =
     go_bind (go_wrap ''error creating rds instance: ''
               (go_lift (o_ExtractInstance (otc E) createResult))) (\<lambda>(iid, ist).
     go_then (modify_status (\<lambda>st. st\<lparr>status_Id := iid, status_Status := ist\<rparr>))
    (go_then (go_wrap ''error update rds create status: '' (UpdateStatus E))
    (go_bind (go_wrap ''error creating rds job: ''
               (go_lift (o_ExtractJob (otc E) createResult))) (\<lambda>jobID.
     go_then (go_wrap ''error getting rds job: '' (WaitForJobCompleted E client jobID))
    (go_bind (go_wrap ''error getting rds by id: '' (rdsGetById E client iid)) (\<lambda>p.
     go_bind (go_deref p) (\<lambda>rdsInstance.
     go_then (modify_status (\<lambda>st. st\<lparr>status_Id := inst_Id rdsInstance\<rparr>))
    (go_bind (go_index (inst_PrivateIps rdsInstance) 0) (\<lambda>ip.
     go_then (modify_status (\<lambda>st. st\<lparr>status_Ip := ip, status_Status := inst_Status rdsInstance\<rparr>))
     (go_wrap ''error update rds status: '' (UpdateStatus E)))))))))))"

definition create_for :: "'w Ext \<Rightarrow> handle \<Rightarrow> handle \<Rightarrow> handle \<Rightarrow> Rds \<Rightarrow> ('w sys, unit) go" where
  "create_for E netclient1 netclient2 client r =
     go_bind (go_try (rdsGetByName E client (rds_Name r) (rds_Namespace r))) (\<lambda>rdsCheck.
     case rdsCheck of
       Inr (Some _) \<Rightarrow> go_fail (new_error (''rds already exists '' @ rds_Name r))
     | Inl err \<Rightarrow> go_fail (errorf ''error checking rds status '' err)
     | Inr None \<Rightarrow>
        go_bind (go_wrap ''error getting secgroup state: ''
                  (secgroupGet E netclient2 (spec_Securitygroup (rds_Spec r)))) (\<lambda>g.
        go_bind (go_wrap ''error getting subnet state: ''
                  (subnetGet E netclient1 (spec_Subnet (rds_Spec r)))) (\<lambda>s.
        go_bind (go_wrap ''error getting vpc state: ''
                  (vpcGet E netclient1 (spec_Vpc (rds_Spec r)))) (\<lambda>v.
        let createOpts = create_opts_for r v s g in
        go_then (Eventf E EventTypeNormal ''Create'' ''This instance is creating.'')
       (go_bind (perform_res (RDS (CRdsCreate createOpts)) (o_RdsCreate (otc E) client createOpts))
          (finish_create E client))))))"

definition rdsCreate :: "'w Ext \<Rightarrow> handle \<Rightarrow> handle \<Rightarrow> handle \<Rightarrow> ('w sys, unit) go" where
  "rdsCreate E netclient1 netclient2 client =
     go_bind (go_get newRds) (create_for E netclient1 netclient2 client)"

text \<open>The result of \<open>rdsCreate\<close> is dropped; the error tested after it is the one before it.\<close>

definition Create :: "'w Ext \<Rightarrow> ('w sys, unit) go" where
  "Create E =
     go_bind (go_wrap ''unable to initialize provider: '' (GetProvider E)) (\<lambda>provider.
     go_bind (go_wrap ''unable to initialize network v1 client: '' (NewClient E NetworkV1 provider)) (\<lambda>network1.
     go_bind (go_wrap ''unable to initialize network v2 client: '' (NewClient E NetworkV2 provider)) (\<lambda>network2.
     go_bind (go_wrap ''unable to initialize rds client: '' (NewClient E RDSV3 provider)) (\<lambda>rdsapi.
     go_ignore (rdsCreate E network1 network2 rdsapi)))))"

section \<open>Which calls a creation makes\<close>

fun create_call :: "call \<Rightarrow> bool" where
  "create_call (NET c) = True"
| "create_call (RDS (CRdsCreate o1)) = True"
| "create_call (RDS (CWaitJob t j)) = (t = 1800)"
| "create_call (IAM (CNewClient svc)) = (svc = NetworkV1 \<or> svc = NetworkV2 \<or> svc = RDSV3)"
| "create_call (K8S (CEvent ns n ty rsn msg)) = (rsn = ''Create'')"
| "create_call c = status_call c"

lemma status_call_create: "status_call c \<Longrightarrow> create_call c"
  by (cases c rule: status_call.cases) auto

lemma finish_create_uses: "uses create_call (finish_create E client res)"
  unfolding finish_create_def WaitForJobCompleted_def
  by (intro run_intro uses_intro status_write.write_uses_in [OF status_call_create]) simp_all

lemma rdsCreate_uses: "uses create_call (rdsCreate E n1 n2 client)"
  unfolding rdsCreate_def create_for_def Eventf_def Let_def
  by (intro run_intro uses_intro secgroup.lookup_uses subnet.lookup_uses vpc.lookup_uses
      finish_create_uses) simp_all

lemma Create_uses: "uses create_call (Create E)"
  unfolding Create_def
  by (intro run_intro uses_intro rdsCreate_uses) simp_all

section \<open>What a creation requests\<close>

fun requested_instance :: "call \<Rightarrow> CreateRdsOpts option" where
  "requested_instance (RDS (CRdsCreate o1)) = Some o1"
| "requested_instance c = None"

lemma status_call_requests_nothing: "status_call c \<Longrightarrow> requested_instance c = None"
  by (cases c rule: status_call.cases) auto

lemma finish_create_requests_nothing:
  "uses (\<lambda>c. requested_instance c = None) (finish_create E client res)"
  unfolding finish_create_def WaitForJobCompleted_def
  by (intro run_intro uses_intro status_write.write_uses_in [OF status_call_requests_nothing]) simp_all

text \<open>Everything before the request, for a resource that the cloud does not list.\<close>

lemma lookups_request_nothing:
  "uses (\<lambda>c. requested_instance c = None) (secgroupGet E h n)"
  "uses (\<lambda>c. requested_instance c = None) (subnetGet E h n)"
  "uses (\<lambda>c. requested_instance c = None) (vpcGet E h n)"
  "uses (\<lambda>c. requested_instance c = None) (rdsGetByName E h n ns)"
  "uses (\<lambda>c. requested_instance c = None) (Eventf E ty rsn msg)"
  by (intro uses_intro secgroup.lookup_uses subnet.lookup_uses vpc.lookup_uses; simp)+

lemma finish_create_silent:
  "traces requested_instance (\<lambda>_. True) (finish_create E client res) [] (\<lambda>_ _. True)"
  by (rule traces_silent [OF finish_create_requests_nothing]) simp

definition one_instance :: "Rds \<Rightarrow> CreateRdsOpts list \<Rightarrow> bool" where
  "one_instance r xs \<longleftrightarrow> xs = [] \<or> (\<exists>v n g. xs = [create_opts_for r v n g])"

text \<open>
  The plan of a creation: the request for the resource, with the first security group, subnet and
  VPC that the services list for the names of the specification, if the cloud does not list an
  instance for the resource and each listing has an element.
\<close>

definition planned_instance :: "'w Ext \<Rightarrow> handle \<Rightarrow> handle \<Rightarrow> handle \<Rightarrow> Rds \<Rightarrow> 'w \<Rightarrow> CreateRdsOpts list" where
  "planned_instance E n1 n2 client r w =
     (case rds_answer E client (by_name_opts (rds_Name r) (rds_Namespace r)) w of
        (Inr None, w1) \<Rightarrow> (case first_found (secgroup_listing E n2 (spec_Securitygroup (rds_Spec r)) w1) of
           None \<Rightarrow> []
         | Some (g, w2) \<Rightarrow> (case first_found (o_SubnetList (otc E) n1 (spec_Subnet (rds_Spec r)) w2) of
             None \<Rightarrow> []
           | Some (n, w3) \<Rightarrow> (case first_found (o_VpcList (otc E) n1 (spec_Vpc (rds_Spec r)) w3) of
               None \<Rightarrow> []
             | Some (v, w4) \<Rightarrow> [create_opts_for r v n g])))
      | _ \<Rightarrow> [])"

lemma planned_instance_one: "one_instance r (planned_instance E n1 n2 client r w)"
  by (auto simp: planned_instance_def one_instance_def split: prod.split sum.split option.split)

lemma planned_request:
  "planned requested_instance (go_bind (perform_res (RDS (CRdsCreate o1)) h) (finish_create E client)) (\<lambda>_. [o1])"
  unfolding planned_def
proof
  fix s :: "'a sys"
  obtain res w where "h (world s) = (res, w)" by fastforce
  then have step: "go_bind (perform_res (RDS (CRdsCreate o1)) h) (finish_create E client) s =
      finish_create E client res (log_call (RDS (CRdsCreate o1)) (res_Err res = None) w s)"
    by (simp add: go_eval)
  obtain q t where run: "finish_create E client res (log_call (RDS (CRdsCreate o1)) (res_Err res = None) w s) = (q, t)"
    by fastforce
  obtain new where "calls t = calls (log_call (RDS (CRdsCreate o1)) (res_Err res = None) w s) @ new"
      "seen requested_instance new = []"
    using silent_run [OF finish_create_requests_nothing run] .
  with step run show "\<exists>new. calls (snd (go_bind (perform_res (RDS (CRdsCreate o1)) h) (finish_create E client) s)) =
      calls s @ new \<and> seen requested_instance new = [o1]"
    by auto
qed

lemma planned_announced:
  "planned requested_instance m p \<Longrightarrow> (\<And>w. p w = p0) \<Longrightarrow> planned requested_instance (go_then (Eventf E ty rsn msg) m) (\<lambda>_. p0)"
  unfolding planned_def
proof
  fix s :: "'a sys"
  assume m: "\<forall>s. \<exists>new. calls (snd (m s)) = calls s @ new \<and> seen requested_instance new = p (world s)" and p: "\<And>w. p w = p0"
  obtain c ok w where ev: "Eventf E ty rsn msg s = (Ok (), log_call (K8S c) ok w s)"
    by (simp add: Eventf_def go_eval)
  obtain new where "calls (snd (m (log_call (K8S c) ok w s))) = calls (log_call (K8S c) ok w s) @ new"
      "seen requested_instance new = p0"
    using m p by metis
  with ev show "\<exists>new. calls (snd (go_then (Eventf E ty rsn msg) m s)) = calls s @ new \<and> seen requested_instance new = p0"
    by (auto simp: go_then_eval)
qed

lemma create_for_planned:
  "planned requested_instance (create_for E n1 n2 client r) (planned_instance E n1 n2 client r)"
proof -
  let ?opts = "by_name_opts (rds_Name r) (rds_Namespace r)"
  let ?p = "\<lambda>w. case first_found (secgroup_listing E n2 (spec_Securitygroup (rds_Spec r)) w) of
      None \<Rightarrow> []
    | Some (g, w2) \<Rightarrow> (case first_found (o_SubnetList (otc E) n1 (spec_Subnet (rds_Spec r)) w2) of
        None \<Rightarrow> []
      | Some (n, w3) \<Rightarrow> (case first_found (o_VpcList (otc E) n1 (spec_Vpc (rds_Spec r)) w3) of
          None \<Rightarrow> [] | Some (v, w4) \<Rightarrow> [create_opts_for r v n g]))"
  let ?a = "\<lambda>w. fst (rds_answer E client ?opts w)"
  have check: "\<exists>ok. go_try (rdsGetByName E client (rds_Name r) (rds_Namespace r)) s =
      (Ok (?a (world s)), log_call (RDS (CRdsList ?opts)) ok (snd (rds_answer E client ?opts (world s))) s)" for s
    by (auto simp: go_try_eval rdsGetByName_eval query_instance_eval split: prod.split sum.split)
  show ?thesis
    unfolding create_for_def
  proof (rule subst [where P = "planned requested_instance _", OF _ planned_step [OF check, where
        p = "\<lambda>a. case a of Inr None \<Rightarrow> ?p | _ \<Rightarrow> (\<lambda>_. [])"]])
    show "(\<lambda>w. case Ok (?a w) of Ok a \<Rightarrow> (case a of Inr None \<Rightarrow> ?p | _ \<Rightarrow> (\<lambda>_. [])) (snd (rds_answer E client ?opts w))
        | _ \<Rightarrow> []) = planned_instance E n1 n2 client r"
      by (auto simp: fun_eq_iff planned_instance_def split: prod.split sum.split option.split)
  next
    show "requested_instance (RDS (CRdsList ?opts)) = None" by simp
  qed (auto simp: Let_def split: sum.split option.split
      intro!: secgroup.lookup_planned subnet.lookup_planned vpc.lookup_planned planned_announced planned_request
        planned_silent log_growth.keep_fail)
qed

section \<open>Properties\<close>

text \<open>The clients that \<open>Create\<close> builds before anything else.\<close>

definition create_clients :: "'w Ext \<Rightarrow> ('w sys, handle \<times> handle \<times> handle) go" where
  "create_clients E =
     go_bind (go_wrap ''unable to initialize provider: '' (GetProvider E)) (\<lambda>provider.
     go_bind (go_wrap ''unable to initialize network v1 client: '' (NewClient E NetworkV1 provider)) (\<lambda>network1.
     go_bind (go_wrap ''unable to initialize network v2 client: '' (NewClient E NetworkV2 provider)) (\<lambda>network2.
     go_bind (go_wrap ''unable to initialize rds client: '' (NewClient E RDSV3 provider)) (\<lambda>rdsapi.
     go_return (network1, network2, rdsapi)))))"

lemma Create_clients:
  "Create E = go_bind (create_clients E) (\<lambda>(n1, n2, client). go_ignore (rdsCreate E n1 n2 client))"
  by (simp add: Create_def create_clients_def go_bind_assoc)

lemma create_clients_safe:
  "uses (\<lambda>c. requested_instance c = None) (create_clients E)"
  "run_respects (same_field newRds) (create_clients E)"
  unfolding create_clients_def by (intro run_intro uses_intro; simp)+

lemma create_clients_no_crash: "fst (create_clients E s) \<noteq> Crash c"
proof -
  have "no_crash (create_clients E)"
    unfolding create_clients_def
    by (intro no_crash_intro no_crashI GetProvider_never_crashes NewClient_never_crashes)
  then show ?thesis by (simp add: no_crash_def)
qed

lemma Create_planned:
  assumes "Create E s = (r, t)"
  shows "seen requested_instance (made s t) = (case create_clients E s of
      (Ok (n1, n2, client), u) \<Rightarrow> planned_instance E n1 n2 client (newRds s) (world u) | _ \<Rightarrow> [])"
  using assms unfolding Create_clients
proof (cases rule: go_bind_cases)
  case (stop q)
  obtain new where "calls t = calls s @ new" "seen requested_instance new = []"
    using silent_run [OF create_clients_safe(1) stop(1)] .
  moreover have "\<And>a. q \<noteq> Ok a" using assms stop unfolding Create_clients by (auto simp: go_bind_eval split: outcome.splits)
  ultimately show ?thesis using stop(1) by (cases q) (blast, simp_all add: seen_same_calls)
next
  case (cont a u)
  obtain n1 n2 client where a: "a = (n1, n2, client)" by (cases a)
  have same: "newRds u = newRds s"
    using run_respectsD [OF create_clients_safe(2) cont(1)] by (simp add: same_field_def)
  obtain new where new: "calls u = calls s @ new" "seen requested_instance new = []"
    using silent_run [OF create_clients_safe(1) cont(1)] .
  have "t = snd (create_for E n1 n2 client (newRds s) u)"
    using cont(2) a same go_ignore_state [of "rdsCreate E n1 n2 client" u]
    by (simp add: rdsCreate_def go_bind_eval go_get_eval)
  then obtain more where "calls t = calls u @ more"
      "seen requested_instance more = planned_instance E n1 n2 client (newRds s) (world u)"
    using create_for_planned [of E n1 n2 client "newRds s"] unfolding planned_def by blast
  with new cont(1) a show ?thesis by (simp add: seen_same_calls [of t s "new @ more"])
qed


text \<open>So one run requests at most one instance, whatever the lookups answered.\<close>

theorem create_requests_one_instance:
  "case Create E s of (r, t) \<Rightarrow> one_instance (newRds s) (seen requested_instance (made s t))"
proof -
  obtain r t where run: "Create E s = (r, t)" by fastforce
  obtain q u where "create_clients E s = (q, u)" by fastforce
  with Create_planned [OF run] have "one_instance (newRds s) (seen requested_instance (made s t))"
    using planned_instance_one [of "newRds s" E]
    by (cases q) (auto simp: one_instance_def split: prod.split)
  with run show ?thesis by simp
qed

text \<open>A resource whose instance exists already is not created again: \<open>rdsCreate\<close> fails after
  the one listing call.\<close>

theorem create_existing_fails:
  assumes "rds_answer E client (by_name_opts (rds_Name (newRds s)) (rds_Namespace (newRds s))) (world s)
    = (Inr (Some inst), w)"
  shows "\<exists>t ok. rdsCreate E n1 n2 client s =
      (Fail (new_error (''rds already exists '' @ rds_Name (newRds s))), t) \<and> newRds t = newRds s \<and>
      made s t = [(RDS (CRdsList (by_name_opts (rds_Name (newRds s)) (rds_Namespace (newRds s)))), ok)]"
  using assms
  by (simp add: rdsCreate_def create_for_def go_eval made_def)

theorem create_existing_fails_witness:
  "fst (rdsCreate demo_ext 2 2 2 (demo_sys 1 (demo_rds ''id1''))) = Fail (new_error ''rds already exists db'')"
proof -
  let ?s = "demo_sys 1 (demo_rds ''id1'')"
  have "rds_answer demo_ext 2 (by_name_opts (rds_Name (newRds ?s)) (rds_Namespace (newRds ?s))) (world ?s)
    = (Inr (Some demo_instance), 1)"
    by (simp add: demo)
  from create_existing_fails [OF this, of 2 2] obtain t where
    "rdsCreate demo_ext 2 2 2 ?s = (Fail (new_error (''rds already exists '' @ rds_Name (newRds ?s))), t)"
    by blast
  then show ?thesis by (simp add: demo_sys_sel demo_rds_sel)
qed

text \<open>C38: \<open>Create\<close> returns an error exactly when one of its clients cannot be built; the errors
  of \<open>rdsCreate\<close>, a failed lookup or a refused request among them, are dropped, and the caller
  takes the resource as created.\<close>

theorem create_drops_errors:
  "(fst (Create E s) = Fail e) = (fst (create_clients E s) = Fail e)"
proof -
  obtain q u where q: "create_clients E s = (q, u)" by fastforce
  show ?thesis
  proof (cases q)
    case (Ok a)
    obtain n1 n2 client where "a = (n1, n2, client)" by (cases a)
    with q Ok show ?thesis
      using go_ignore_never_fails [of "rdsCreate E n1 n2 client" u e]
      by (simp add: Create_clients go_bind_eval)
  qed (use q in \<open>simp_all add: Create_clients go_bind_eval\<close>)
qed

section \<open>The identifier is recorded before the creation is awaited\<close>

text \<open>What the documented listing by identifier answers: an instance with that identifier.\<close>

definition lists_by_id :: "'w Ext \<Rightarrow> handle \<Rightarrow> string \<Rightarrow> bool" where
  "lists_by_id E client i \<longleftrightarrow>
     (\<forall>w. case fst (rds_answer E client (by_id_opts i) w) of Inr (Some inst) \<Rightarrow> inst_Id inst = i | _ \<Rightarrow> True)"

abbreviation id_is :: "string \<Rightarrow> 'w sys \<Rightarrow> bool" where
  "id_is i s \<equiv> status_Id (rds_Status (newRds s)) = i"

definition keeps_id :: "string \<Rightarrow> ('w sys, 'a) go \<Rightarrow> bool" where
  "keeps_id i m \<longleftrightarrow> (\<forall>s r t. id_is i s \<longrightarrow> m s = (r, t) \<longrightarrow> id_is i t)"

lemma keeps_id_frame: "run_respects (same_field (\<lambda>s. status_Id (rds_Status (newRds s)))) m \<Longrightarrow> keeps_id i m"
  unfolding keeps_id_def using run_respectsD by (fastforce simp: same_field_def)

lemma keeps_id_bind: "keeps_id i m \<Longrightarrow> (\<And>a. keeps_id i (k a)) \<Longrightarrow> keeps_id i (go_bind m k)"
  unfolding keeps_id_def by (metis go_bind_cases)

lemma keeps_id_then: "keeps_id i m \<Longrightarrow> keeps_id i n \<Longrightarrow> keeps_id i (go_then m n)"
  unfolding go_then_def by (rule keeps_id_bind)

lemma keeps_idD: "keeps_id i m \<Longrightarrow> id_is i s \<Longrightarrow> m s = (r, t) \<Longrightarrow> id_is i t"
  by (simp add: keeps_id_def)

lemma keeps_id_wrap: "keeps_id i m \<Longrightarrow> keeps_id i (go_wrap msg m)"
  unfolding keeps_id_def by (metis go_wrap_cases)

lemma keeps_id_parts:
  "keeps_id i (go_lift q)" "keeps_id i (go_deref p)" "keeps_id i (go_index xs n)"
  "keeps_id i (WaitForJobCompleted E client j)"
  unfolding WaitForJobCompleted_def
  by (rule keeps_id_frame; intro run_intro uses_intro; simp)+

lemma keeps_id_UpdateStatus: "keeps_id i (UpdateStatus E)"
  unfolding keeps_id_def using status_write.write_keeps(4) [of E] by metis

lemma keeps_id_modify:
  "(\<And>st. status_Id st = i \<Longrightarrow> status_Id (f st) = i) \<Longrightarrow> keeps_id i (modify_status f)"
  by (simp add: keeps_id_def modify_status_def modify_new_def go_eval)

lemma keeps_id_lookup:
  assumes "lists_by_id E client i" and "\<And>inst. inst_Id inst = i \<Longrightarrow> keeps_id i (k inst)"
  shows "keeps_id i (go_bind (go_wrap msg (rdsGetById E client i)) (\<lambda>p. go_bind (go_deref p) k))"
  unfolding keeps_id_def
proof (intro allI impI)
  fix s r t
  assume "id_is i s" and run: "go_bind (go_wrap msg (rdsGetById E client i)) (\<lambda>p. go_bind (go_deref p) k) s = (r, t)"
  obtain q w where q: "rds_answer E client (by_id_opts i) (world s) = (q, w)" by fastforce
  let ?u = "log_call (RDS (CRdsList (by_id_opts i))) (rds_answered E client (by_id_opts i) (world s)) w s"
  show "id_is i t"
  proof (cases q)
    case (Inl e)
    with q run \<open>id_is i s\<close> show ?thesis by (auto simp: go_eval)
  next
    case (Inr p)
    show ?thesis
    proof (cases p)
      case None
      with q Inr run \<open>id_is i s\<close> show ?thesis by (auto simp: go_eval)
    next
      case (Some inst)
      have "inst_Id inst = i"
        using spec [OF assms(1) [unfolded lists_by_id_def], of "world s"] q Inr Some by simp
      moreover have "k inst ?u = (r, t)" using q Inr Some run by (simp add: go_eval)
      moreover have "id_is i ?u" using \<open>id_is i s\<close> by simp
      ultimately show ?thesis using keeps_idD [OF assms(2)] by metis
    qed
  qed
qed

text \<open>C30: once the request for an instance was answered with its identifier, the resource has that
  identifier, however the rest of the creation ends: with an error of the status write or of the
  job, or with a crash at an instance without an address.\<close>

theorem create_records_identifier:
  assumes "o_ExtractInstance (otc E) res = Inr (iid, ist)" and "lists_by_id E client iid"
    and "finish_create E client res s = (r, t)"
  shows "status_Id (rds_Status (newRds t)) = iid"
proof -
  obtain u where u: "modify_status (\<lambda>st. st\<lparr>status_Id := iid, status_Status := ist\<rparr>) s = (Ok (), u)"
      "id_is iid u"
    by (simp add: modify_status_def modify_new_def go_eval)
  let ?rest = "go_then (go_wrap ''error update rds create status: '' (UpdateStatus E))
    (go_bind (go_wrap ''error creating rds job: ''
               (go_lift (o_ExtractJob (otc E) res))) (\<lambda>jobID.
     go_then (go_wrap ''error getting rds job: '' (WaitForJobCompleted E client jobID))
    (go_bind (go_wrap ''error getting rds by id: '' (rdsGetById E client iid)) (\<lambda>p.
     go_bind (go_deref p) (\<lambda>rdsInstance.
     go_then (modify_status (\<lambda>st. st\<lparr>status_Id := inst_Id rdsInstance\<rparr>))
    (go_bind (go_index (inst_PrivateIps rdsInstance) 0) (\<lambda>ip.
     go_then (modify_status (\<lambda>st. st\<lparr>status_Ip := ip, status_Status := inst_Status rdsInstance\<rparr>))
     (go_wrap ''error update rds status: '' (UpdateStatus E)))))))))"
  have rest: "keeps_id iid ?rest"
    by (intro keeps_id_then keeps_id_wrap keeps_id_UpdateStatus keeps_id_bind [OF keeps_id_wrap]
        keeps_id_parts keeps_id_lookup [OF assms(2)] keeps_id_bind [OF keeps_id_parts(3)] keeps_id_modify)
      simp_all
  have "?rest u = (r, t)"
    using assms(1,3) u(1)
    by (simp add: finish_create_def go_wrap_eval go_lift_eval go_bind_eval [of "go_wrap ''error creating rds instance: '' _"]
        go_then_eval [of "modify_status (\<lambda>st. st\<lparr>status_Id := iid, status_Status := ist\<rparr>)"])
  with rest u(2) show ?thesis unfolding keeps_id_def by blast
qed

theorem create_records_identifier_witness:
  "\<exists>r t. finish_create demo_ext 2 (demo_reply ''job1'') (demo_sys 1 (demo_rds '''')) = (r, t) \<and>
     status_Id (rds_Status (newRds t)) = ''id1''"
proof -
  obtain r t where run: "finish_create demo_ext 2 (demo_reply ''job1'') (demo_sys 1 (demo_rds '''')) = (r, t)"
    by fastforce
  have "o_ExtractInstance (otc demo_ext) (demo_reply ''job1'') = Inr (''id1'', ''BUILD'')"
    by (simp add: demo)
  moreover have "lists_by_id demo_ext 2 ''id1''"
    unfolding lists_by_id_def
  proof
    fix w
    show "case fst (rds_answer demo_ext 2 (by_id_opts ''id1'') w) of
        Inr (Some inst) \<Rightarrow> inst_Id inst = ''id1'' | _ \<Rightarrow> True"
      by (cases w) (simp_all add: rds_answer_def demo)
  qed
  ultimately show ?thesis using create_records_identifier run by blast
qed

end
