(* ===== verification/Rds_Delete.thy ===== *)
theory Rds_Delete
  imports Alarm Rds_Create Demo_Cloud
begin

text \<open>
  \<open>rdsDelete\<close> and \<open>Delete\<close> of \<open>pkg/controller/resource.go\<close>: a last backup is taken and
  awaited, the instance is deleted and its job awaited, then the Kubernetes service goes.  The
  lemmas follow the three phases and show that no deletion is requested without a completed
  backup of the same instance.
\<close>

definition backup_opts_for :: "Rds \<Rightarrow> int \<Rightarrow> BackupCreateOpts" where
  "backup_opts_for r now =
     (let backuptime = Itoa now in
      \<lparr>bo_InstanceID = status_Id (rds_Status r),
       bo_Name = rds_Namespace r @ ''_'' @ rds_Name r @ ''_'' @ backuptime,
       bo_Description = ''RDS Operator Last Backup''\<rparr>)"

definition last_backup :: "'w Ext \<Rightarrow> handle \<Rightarrow> ('w sys, unit) go" where
  "last_backup E client =
     go_bind (go_get newRds) (\<lambda>r.
     go_bind (perform (SYS CNow) (x_NowUnix E)) (\<lambda>now.
     let backupOpts = backup_opts_for r now in
     go_bind (go_wrap ''error creating rds backup before instance deleting: ''
               (perform_e (RDS (CBackupCreate backupOpts)) (o_BackupCreate (otc E) client backupOpts))) (\<lambda>bid.
     go_wrap ''error wait for rds backup before instance deleting: ''
       (perform_e (RDS (CWaitBackup (bo_InstanceID backupOpts) bid))
         (o_WaitForBackup (otc E) client (bo_InstanceID backupOpts) bid)))))"

definition delete_instance :: "'w Ext \<Rightarrow> handle \<Rightarrow> ('w sys, unit) go" where
  "delete_instance E client =
     go_bind (go_get newRds) (\<lambda>r.
     go_bind (perform_res (RDS (CRdsDelete (status_Id (rds_Status r))))
               (o_RdsDelete (otc E) client (status_Id (rds_Status r)))) (\<lambda>deleteResult.
     go_bind (go_wrap ''error rds delete job: '' (go_lift (o_ExtractJob (otc E) deleteResult))) (\<lambda>jobID.
     go_wrap ''error getting rds delete job: '' (WaitForJobCompleted E client jobID))))"

definition delete_service :: "'w Ext \<Rightarrow> ('w sys, unit) go" where
  "delete_service E =
     go_bind (go_wrap ''error init in-cluster config: '' (InClusterConfig E)) (\<lambda>restConfig.
     go_bind (go_wrap ''error creating k8sclientset: '' (KubeClient E restConfig)) (\<lambda>k8s.
     go_bind (go_get newRds) (\<lambda>r.
     go_bind (go_try (perform_e (K8S (CServiceGet (rds_Namespace r) (rds_Name r)))
               (k_ServiceGet (kube E) k8s (rds_Namespace r) (rds_Name r)))) (\<lambda>got.
     case got of
       Inl _ \<Rightarrow> go_return ()
     | Inr sv \<Rightarrow> go_wrap ''error deleting service: ''
         (perform_e (K8S (CServiceDelete (sv_Namespace sv) (sv_Name sv)))
           (k_ServiceDelete (kube E) k8s (sv_Namespace sv) (sv_Name sv)))))))"

definition rdsDelete :: "'w Ext \<Rightarrow> handle \<Rightarrow> ('w sys, unit) go" where
  "rdsDelete E client =
     go_bind (go_get newRds) (\<lambda>r.
     if status_Id (rds_Status r) \<noteq> '''' then
       go_then (Eventf E EventTypeNormal ''Delete'' ''This instance is deleting.'')
      (go_then (last_backup E client)
      (go_then (delete_instance E client)
       (delete_service E)))
     else go_fail (new_error ''no rds id to delete''))"

definition Delete :: "'w Ext \<Rightarrow> ('w sys, unit) go" where
  "Delete E =
     go_bind (go_wrap ''unable to initialize provider: '' (GetProvider E)) (\<lambda>provider.
     go_bind (go_wrap ''unable to initialize rds client: '' (NewClient E RDSV3 provider)) (\<lambda>rdsapi.
     go_bind (go_get newRds) (\<lambda>r.
     go_then (go_when (status_Autopilot (rds_Status r))
                (go_wrap ''error deleting alarm: '' (DeleteAlarm E (rds_Name r) (rds_Namespace r))))
       (go_wrap ''rds delete failed: '' (rdsDelete E rdsapi)))))"

section \<open>Frames\<close>

lemmas delete_phase_defs = last_backup_def delete_instance_def delete_service_def
  WaitForJobCompleted_def InClusterConfig_def KubeClient_def Let_def

lemma delete_phases_frame [uses_intro]:
  assumes "\<And>c ok w s. fld (log_call c ok w s) = fld s"
  shows "run_respects (same_field fld) (last_backup E client)"
    and "run_respects (same_field fld) (delete_instance E client)"
    and "run_respects (same_field fld) (delete_service E)"
  unfolding delete_phase_defs by (intro run_intro uses_intro assms)+

lemma rdsDelete_frame:
  "(\<And>c ok w s. fld (log_call c ok w s) = fld s) \<Longrightarrow>
     run_respects (same_field fld) (rdsDelete E client)"
  unfolding rdsDelete_def by (intro run_intro uses_intro)

lemma Delete_frame:
  assumes "\<And>c ok w s. fld (log_call c ok w s) = fld s" and "\<And>s env. fld (s\<lparr>osenv := env\<rparr>) = fld s"
  shows "run_respects (same_field fld) (Delete E)"
  unfolding Delete_def by (intro run_intro uses_intro rdsDelete_frame assms)

text \<open>The resource that is deleted is never written.\<close>

lemma Delete_keeps_resource: "newRds (snd (Delete E s)) = newRds s"
  using Delete_frame [of newRds E] by (simp add: run_respects_def same_field_def)

section \<open>Phases that request no deletion\<close>

fun deleted_instance :: "call \<Rightarrow> string option" where
  "deleted_instance (RDS (CRdsDelete i)) = Some i"
| "deleted_instance c = None"

lemma delete_alarm_call_spares: "delete_alarm_call c \<Longrightarrow> deleted_instance c = None"
  by (cases c rule: delete_alarm_call.cases) auto

lemma phases_spare_instances:
  "uses (\<lambda>c. deleted_instance c = None) (last_backup E client)"
  "uses (\<lambda>c. deleted_instance c = None) (delete_service E)"
  "uses (\<lambda>c. deleted_instance c = None) (Eventf E ty rsn msg)"
  unfolding delete_phase_defs by (intro run_intro uses_intro; simp)+

lemma before_rdsDelete_spares:
  "uses (\<lambda>c. deleted_instance c = None) (go_wrap m1 (GetProvider E))"
  "uses (\<lambda>c. deleted_instance c = None) (go_wrap m2 (NewClient E svc p))"
  "uses (\<lambda>c. deleted_instance c = None) (go_wrap m3 (DeleteAlarm E n ns))"
  by (intro run_intro uses_intro uses_mono [OF DeleteAlarm_uses delete_alarm_call_spares]; simp)+

section \<open>No deletion without a completed backup\<close>

definition backed_up :: "string \<Rightarrow> (call \<times> bool) list \<Rightarrow> bool" where
  "backed_up i cs \<longleftrightarrow> (\<exists>opts bid. bo_InstanceID opts = i \<and>
     (RDS (CBackupCreate opts), True) \<in> set cs \<and> (RDS (CWaitBackup i bid), True) \<in> set cs)"

lemma last_backup_ok:
  assumes "last_backup E client s = (Ok u, t)"
  obtains new where "calls t = calls s @ new" and "seen deleted_instance new = []"
    and "backed_up (status_Id (rds_Status (newRds s))) new" and "newRds t = newRds s"
  using assms
  by (force simp: last_backup_def go_eval backup_opts_for_def Let_def backed_up_def
      split: prod.splits sum.splits outcome.splits)

lemma delete_instance_log:
  assumes "delete_instance E client s = (r, t)"
  obtains ok new where "calls t = calls s @ (RDS (CRdsDelete (status_Id (rds_Status (newRds s)))), ok) # new"
    and "seen deleted_instance new = []"
  using assms
  by (fastforce simp: delete_instance_def WaitForJobCompleted_def go_eval go_lift_def
      split: prod.splits sum.splits outcome.splits)

text \<open>
  The log of a deletion: without a deletion request, or with exactly one, of the resource's
  instance, behind a completed backup.
\<close>

definition delete_log :: "string \<Rightarrow> (call \<times> bool) list \<Rightarrow> bool" where
  "delete_log i cs \<longleftrightarrow> seen deleted_instance cs = [] \<or>
     (\<exists>pre ok post. cs = pre @ (RDS (CRdsDelete i), ok) # post \<and> backed_up i pre \<and>
        seen deleted_instance pre = [] \<and> seen deleted_instance post = [])"

lemma delete_log_silent: "seen deleted_instance cs = [] \<Longrightarrow> delete_log i cs"
  by (simp add: delete_log_def)

lemma delete_log_after:
  assumes "seen deleted_instance new = []" and "delete_log i cs"
  shows "delete_log i (new @ cs)"
proof -
  have "backed_up i pre \<Longrightarrow> backed_up i (new @ pre)" for pre
    by (auto simp: backed_up_def)
  with assms show ?thesis
    unfolding delete_log_def by (metis append.assoc append_Nil seen_append)
qed

definition deletes_safely :: "('w sys, 'a) go \<Rightarrow> bool" where
  "deletes_safely m \<longleftrightarrow> (\<forall>s. \<exists>new. calls (snd (m s)) = calls s @ new \<and>
     delete_log (status_Id (rds_Status (newRds s))) new)"

abbreviation deletes_nothing :: "('w sys, 'a) go \<Rightarrow> bool" where
  "deletes_nothing m \<equiv> uses (\<lambda>c. deleted_instance c = None) m"

lemma safely_silent: "deletes_nothing m \<Longrightarrow> deletes_safely m"
  unfolding deletes_safely_def using silent_run delete_log_silent by (metis prod.collapse)

lemma safely_bind:
  assumes "deletes_nothing m" and "run_respects (same_field newRds) m" and "\<And>a. deletes_safely (k a)"
  shows "deletes_safely (go_bind m k)"
  unfolding deletes_safely_def
proof
  fix s
  obtain r t where run: "go_bind m k s = (r, t)" by fastforce
  then show "\<exists>new. calls (snd (go_bind m k s)) = calls s @ new \<and>
      delete_log (status_Id (rds_Status (newRds s))) new"
  proof (cases rule: go_bind_cases)
    case (stop q)
    with run silent_run [OF assms(1)] show ?thesis by (metis delete_log_silent snd_conv)
  next
    case (cont a u)
    obtain new where new: "calls u = calls s @ new" "seen deleted_instance new = []"
      using silent_run [OF assms(1) cont(1)] .
    have "newRds u = newRds s"
      using run_respectsD [OF assms(2) cont(1)] by (simp add: same_field_def)
    with assms(3) cont(2) obtain more
      where "calls t = calls u @ more" "delete_log (status_Id (rds_Status (newRds s))) more"
      unfolding deletes_safely_def by (metis snd_conv)
    with new run show ?thesis by (auto intro: delete_log_after)
  qed
qed

lemma safely_then:
  "deletes_nothing m \<Longrightarrow> run_respects (same_field newRds) m \<Longrightarrow> deletes_safely n \<Longrightarrow>
     deletes_safely (go_then m n)"
  unfolding go_then_def by (rule safely_bind)

lemma safely_wrap: "deletes_safely m \<Longrightarrow> deletes_safely (go_wrap msg m)"
  unfolding deletes_safely_def by (auto simp: go_wrap_eval split: prod.split outcome.split) (metis snd_conv)+

text \<open>The backup, the deletion and the service: the only place where an instance is deleted.\<close>

lemma backup_then_delete_safely:
  fixes E :: "'w Ext"
  shows "deletes_safely (go_then (last_backup E client) (go_then (delete_instance E client) (delete_service E)))"
  unfolding deletes_safely_def
proof
  fix s :: "'w sys"
  let ?i = "status_Id (rds_Status (newRds s))"
  let ?rest = "go_then (delete_instance E client) (delete_service E)"
  obtain r t where run: "go_then (last_backup E client) ?rest s = (r, t)" by fastforce
  then show "\<exists>new. calls (snd (go_then (last_backup E client) ?rest s)) = calls s @ new \<and> delete_log ?i new"
  proof (cases rule: go_then_cases)
    case (stop q)
    with run silent_run [OF phases_spare_instances(1)] show ?thesis
      by (metis delete_log_silent snd_conv)
  next
    case (cont a u)
    obtain b where b: "calls u = calls s @ b" "seen deleted_instance b = []" "backed_up ?i b"
      "newRds u = newRds s"
      using last_backup_ok [OF cont(1)] .
    obtain q v where dv: "delete_instance E client u = (q, v)" by fastforce
    obtain ok d where d: "calls v = calls u @ (RDS (CRdsDelete ?i), ok) # d" "seen deleted_instance d = []"
      using delete_instance_log [OF dv] b(4) by metis
    have "\<exists>e. calls t = calls v @ e \<and> seen deleted_instance e = []"
      using cont(2)
    proof (cases rule: go_then_cases)
      case (cont a2 u2)
      with dv silent_run [OF phases_spare_instances(2)] show ?thesis by (metis prod.inject)
    qed (use dv in auto)
    then obtain e where "calls t = calls v @ e" "seen deleted_instance e = []" by blast
    with b d have "calls t = calls s @ b @ (RDS (CRdsDelete ?i), ok) # d @ e"
      and "seen deleted_instance (d @ e) = []"
      by simp_all
    with b run show ?thesis unfolding delete_log_def by (metis snd_conv)
  qed
qed

lemma rdsDelete_safely: "deletes_safely (rdsDelete E client)"
proof -
  have ev: "run_respects (same_field newRds) (Eventf E ty rsn msg)" for ty rsn msg
    by (rule Eventf_frame) simp
  have "deletes_safely (if b then go_then (Eventf E ty rsn msg) (go_then (last_backup E client)
      (go_then (delete_instance E client) (delete_service E))) else go_fail e)" for b ty rsn msg e
    by (auto intro: safely_then phases_spare_instances(3) ev backup_then_delete_safely
        safely_silent log_growth.keep_fail)
  then show ?thesis
    unfolding rdsDelete_def by (intro safely_bind log_growth.keep_get frame.keep_get)
qed

lemma Delete_safely: "deletes_safely (Delete E)"
proof -
  have alarm: "deletes_nothing (go_when b (go_wrap msg (DeleteAlarm E n ns)))"
      "run_respects (same_field newRds) (go_when b (go_wrap msg (DeleteAlarm E n ns)))"
    for b msg n ns
    by (intro run_intro uses_intro before_rdsDelete_spares(3)[unfolded go_wrap_def]
        uses_mono [OF DeleteAlarm_uses delete_alarm_call_spares]; simp)+
  have client: "run_respects (same_field newRds) (go_wrap msg (GetProvider E))"
      "run_respects (same_field newRds) (go_wrap msg (NewClient E svc p))" for msg svc p
    by (intro run_intro uses_intro; simp)+
  show ?thesis
    unfolding Delete_def
    by (intro safely_bind safely_then safely_wrap rdsDelete_safely before_rdsDelete_spares
        alarm client log_growth.keep_get frame.keep_get)
qed

section \<open>The steps of a deletion\<close>

datatype DeleteStep = TakeBackup string | AwaitBackup string | RequestDeletion string | AwaitDeletion

fun delete_step :: "call \<Rightarrow> DeleteStep option" where
  "delete_step (RDS (CBackupCreate o1)) = Some (TakeBackup (bo_InstanceID o1))"
| "delete_step (RDS (CWaitBackup i b)) = Some (AwaitBackup i)"
| "delete_step (RDS (CRdsDelete i)) = Some (RequestDeletion i)"
| "delete_step (RDS (CWaitJob n j)) = Some AwaitDeletion"
| "delete_step c = None"

text \<open>The abstract deletion of the instance \<open>i\<close>.\<close>

definition delete_plan :: "string \<Rightarrow> DeleteStep list" where
  "delete_plan i = (if i = '''' then [] else [TakeBackup i, AwaitBackup i, RequestDeletion i, AwaitDeletion])"

abbreviation has_id :: "string \<Rightarrow> 'w sys \<Rightarrow> bool" where
  "has_id i s \<equiv> status_Id (rds_Status (newRds s)) = i"

lemma stepless:
  assumes "uses (\<lambda>c. delete_step c = None) m" and "run_respects (same_field newRds) m"
  shows "traces delete_step (has_id i) m [] (\<lambda>_. has_id i)"
  by (rule traces_silent_frame [OF assms, of "\<lambda>r. status_Id (rds_Status r) = i"])

lemma delete_alarm_call_stepless: "delete_alarm_call c \<Longrightarrow> delete_step c = None"
  by (cases c rule: delete_alarm_call.cases) auto

lemma last_backup_steps:
  "traces delete_step (has_id i) (last_backup E client) [TakeBackup i, AwaitBackup i] (\<lambda>_. has_id i)"
  unfolding last_backup_def Let_def
proof (rule traces_get)
  fix s0 :: "'a sys"
  assume id: "has_id i s0"
  let ?o = "backup_opts_for (newRds s0)"
  have o1: "bo_InstanceID (?o now) = i" for now using id by (simp add: backup_opts_for_def Let_def)
  have "traces delete_step (has_id i) (go_bind (perform (SYS CNow) (x_NowUnix E)) (\<lambda>now.
      go_bind (go_wrap m1 (perform_e (RDS (CBackupCreate (?o now))) (o_BackupCreate (otc E) client (?o now)))) (\<lambda>bid.
      go_wrap m2 (perform_e (RDS (CWaitBackup (bo_InstanceID (?o now)) bid))
         (o_WaitForBackup (otc E) client (bo_InstanceID (?o now)) bid)))))
      ([] @ [TakeBackup i] @ [AwaitBackup i]) (\<lambda>_. has_id i)" for m1 m2
    by (intro traces_bind [OF stepless] traces_bind [OF traces_wrap [OF traces_perform_e]]
        traces_wrap [OF traces_perform_e] uses_intro) (simp_all add: o1)
  then show "traces delete_step (has_id i) (go_bind (perform (SYS CNow) (x_NowUnix E)) (\<lambda>now.
      go_bind (go_wrap ''error creating rds backup before instance deleting: ''
        (perform_e (RDS (CBackupCreate (?o now))) (o_BackupCreate (otc E) client (?o now)))) (\<lambda>bid.
      go_wrap ''error wait for rds backup before instance deleting: ''
        (perform_e (RDS (CWaitBackup (bo_InstanceID (?o now)) bid))
         (o_WaitForBackup (otc E) client (bo_InstanceID (?o now)) bid)))))
      [TakeBackup i, AwaitBackup i] (\<lambda>_. has_id i)"
    by simp
qed

lemma delete_instance_steps:
  "traces delete_step (has_id i) (delete_instance E client) [RequestDeletion i, AwaitDeletion] (\<lambda>_. has_id i)"
  unfolding delete_instance_def WaitForJobCompleted_def
proof (rule traces_get)
  fix s0 :: "'a sys"
  assume id: "has_id i s0"
  let ?i = "status_Id (rds_Status (newRds s0))"
  have "traces delete_step (has_id i) (go_bind (perform_res (RDS (CRdsDelete ?i)) (o_RdsDelete (otc E) client ?i)) (\<lambda>r.
      go_bind (go_wrap m1 (go_lift (o_ExtractJob (otc E) r))) (\<lambda>j.
      go_wrap m2 (perform_e (RDS (CWaitJob 1800 j)) (o_WaitForJobCompleted (otc E) client 1800 j)))))
      ([RequestDeletion i] @ [] @ [AwaitDeletion]) (\<lambda>_. has_id i)" for m1 m2
    by (intro traces_bind [OF traces_call [where J = "has_id i"]] traces_bind [OF stepless] traces_wrap [OF traces_perform_e] run_intro uses_intro)
      (simp_all add: id)
  then show "traces delete_step (has_id i) (go_bind (perform_res (RDS (CRdsDelete ?i)) (o_RdsDelete (otc E) client ?i))
      (\<lambda>r. go_bind (go_wrap ''error rds delete job: '' (go_lift (o_ExtractJob (otc E) r))) (\<lambda>j.
      go_wrap ''error getting rds delete job: ''
        (perform_e (RDS (CWaitJob 1800 j)) (o_WaitForJobCompleted (otc E) client 1800 j)))))
      [RequestDeletion i, AwaitDeletion] (\<lambda>_. has_id i)"
    by simp
qed

lemma around_stepless:
  "uses (\<lambda>c. delete_step c = None) (delete_service E)"
  "uses (\<lambda>c. delete_step c = None) (Eventf E ty rsn msg)"
  "uses (\<lambda>c. delete_step c = None) (go_when b (go_wrap m (DeleteAlarm E n ns)))"
  "uses (\<lambda>c. delete_step c = None) (go_wrap m (GetProvider E))"
  "uses (\<lambda>c. delete_step c = None) (go_wrap m (NewClient E svc p))"
  unfolding delete_service_def InClusterConfig_def KubeClient_def
  by (intro run_intro uses_intro uses_mono [OF DeleteAlarm_uses delete_alarm_call_stepless]; simp)+

lemma rdsDelete_steps:
  "traces delete_step (has_id i) (rdsDelete E client) (delete_plan i) (\<lambda>_ _. i \<noteq> '''')"
  unfolding rdsDelete_def
proof (rule traces_get)
  fix s0 :: "'a sys"
  assume id: "has_id i s0"
  show "traces delete_step (has_id i) (if status_Id (rds_Status (newRds s0)) \<noteq> '''' then
       go_then (Eventf E EventTypeNormal ''Delete'' ''This instance is deleting.'')
      (go_then (last_backup E client) (go_then (delete_instance E client) (delete_service E)))
     else go_fail (new_error ''no rds id to delete'')) (delete_plan i) (\<lambda>_ _. i \<noteq> '''')"
  proof (cases "i = ''''")
    case True
    with id show ?thesis by (simp add: traces_fail)
  next
    case False
    have "traces delete_step (has_id i) (go_then (Eventf E EventTypeNormal ''Delete'' ''This instance is deleting.'')
      (go_then (last_backup E client) (go_then (delete_instance E client) (delete_service E))))
      ([] @ [TakeBackup i, AwaitBackup i] @ [RequestDeletion i, AwaitDeletion] @ []) (\<lambda>_. has_id i)"
      by (intro traces_then [OF stepless] traces_then [OF last_backup_steps] traces_then [OF delete_instance_steps]
          stepless around_stepless Eventf_frame delete_phases_frame) simp_all
    from traces_weaken [OF this, of "has_id i" "\<lambda>_ _. i \<noteq> ''''"] False id show ?thesis
      by (simp add: delete_plan_def)
  qed
qed

lemma Delete_steps:
  "traces delete_step (has_id i) (Delete E) (delete_plan i) (\<lambda>_ _. i \<noteq> '''')"
proof -
  have frames: "run_respects (same_field newRds) (go_wrap m (GetProvider E))"
    "run_respects (same_field newRds) (go_wrap m (NewClient E svc p))"
    "run_respects (same_field newRds) (go_when b (go_wrap m (DeleteAlarm E n ns)))" for m svc p b n ns
    by (intro run_intro uses_intro; simp)+
  have "traces delete_step (has_id i) (Delete E) ([] @ [] @ [] @ delete_plan i) (\<lambda>_ _. i \<noteq> '''')"
    unfolding Delete_def
    by (intro traces_bind [OF stepless] traces_then [OF stepless] traces_get traces_wrap rdsDelete_steps
        around_stepless frames)
  then show ?thesis by simp
qed

section \<open>Properties\<close>

text \<open>C1: whatever the cloud, Kubernetes and the environment answer, \<open>Delete\<close> requests the
  deletion of the resource's own instance only, at most once, and only after a backup of that
  instance was created and awaited without an error.\<close>

theorem delete_only_after_backup:
  assumes "Delete E s = (r, t)" and "made s t = pre @ (RDS (CRdsDelete i), ok) # post"
  shows "i = status_Id (rds_Status (newRds s)) \<and> backed_up i pre \<and>
    seen deleted_instance (pre @ post) = []"
proof -
  obtain new where "calls t = calls s @ new" "delete_log (status_Id (rds_Status (newRds s))) new"
    using Delete_safely [of E] assms(1) unfolding deletes_safely_def by (metis snd_conv)
  with assms(2) have log: "delete_log (status_Id (rds_Status (newRds s)))
      (pre @ (RDS (CRdsDelete i), ok) # post)"
    by (simp add: seen_same_calls)
  then obtain pre' ok' post' where
    "pre @ (RDS (CRdsDelete i), ok) # post =
       pre' @ (RDS (CRdsDelete (status_Id (rds_Status (newRds s)))), ok') # post'"
    "backed_up (status_Id (rds_Status (newRds s))) pre'"
    "seen deleted_instance pre' = []" "seen deleted_instance post' = []"
    by (auto simp: delete_log_def)
  with seen_split_unique [OF this(1), of deleted_instance i] show ?thesis by simp
qed

text \<open>C2: what \<open>Delete\<close> asks of the cloud for the instance is the beginning of the abstract deletion: take a
  backup, await it, request the deletion, await its job, each once and for the instance of the
  resource; nothing for a resource without an identifier.  It succeeds only with an identifier
  and after the last of the steps.\<close>

theorem delete_follows_plan:
  "case Delete E s of (r, t) \<Rightarrow>
     prefix (seen delete_step (made s t)) (delete_plan (status_Id (rds_Status (newRds s)))) \<and>
     (if r = Ok () then status_Id (rds_Status (newRds s)) \<noteq> '''' \<and>
        seen delete_step (made s t) = delete_plan (status_Id (rds_Status (newRds s))) else True)"
proof -
  obtain r t where run: "Delete E s = (r, t)" by fastforce
  from traces_made [OF Delete_steps refl this] run show ?thesis by simp
qed

lemma demo_delete_run:
  "\<exists>t pre ok post. Delete demo_ext (demo_sys 1 (demo_rds ''id1'')) = (Ok (), t) \<and>
     made (demo_sys 1 (demo_rds ''id1'')) t = pre @ (RDS (CRdsDelete ''id1''), ok) # post"
proof -
  let ?s = "demo_sys 1 (demo_rds ''id1'')"
  obtain t where t: "Delete demo_ext ?s = (Ok (), t)" "seen deleted_instance (made ?s t) = [''id1'']"
    by (simp add: Delete_def rdsDelete_def delete_phase_defs made_def demo)
  then obtain c ok where "(c, ok) \<in> set (made ?s t)" "deleted_instance c = Some ''id1''"
    using seen_mem [of deleted_instance "made ?s t" "[]"] by auto
  moreover from this have "c = RDS (CRdsDelete ''id1'')" by (cases c rule: deleted_instance.cases) auto
  ultimately show ?thesis using t(1) split_list by metis
qed

theorem delete_only_after_backup_witness:
  "\<exists>t pre ok post. Delete demo_ext (demo_sys 1 (demo_rds ''id1'')) = (Ok (), t) \<and>
     made (demo_sys 1 (demo_rds ''id1'')) t = pre @ (RDS (CRdsDelete ''id1''), ok) # post \<and>
     backed_up ''id1'' pre"
  using demo_delete_run delete_only_after_backup by metis

lemma rdsDelete_no_id:
  "status_Id (rds_Status (newRds s)) = '''' \<Longrightarrow>
     rdsDelete E client s = (Fail (new_error ''no rds id to delete''), s)"
  by (simp add: rdsDelete_def go_eval)

fun client_call :: "call \<Rightarrow> bool" where
  "client_call (IAM CAuthenticate) = True"
| "client_call (IAM (CNewClient svc)) = (svc = RDSV3)"
| "client_call c = False"

lemma rds_client_log:
  assumes "rds_client E s = (r, t)"
  obtains new where "calls t = calls s @ new" and "list_all (\<lambda>(c, _). client_call c) new"
  using run_respectsD [OF rds_client_uses [of client_call E] assms] by (auto simp: emits_def)

lemma Delete_rds_client:
  "Delete E = go_bind (rds_client E) (\<lambda>rdsapi.
     go_bind (go_get newRds) (\<lambda>r.
     go_then (go_when (status_Autopilot (rds_Status r))
                (go_wrap ''error deleting alarm: '' (DeleteAlarm E (rds_Name r) (rds_Namespace r))))
       (go_wrap ''rds delete failed: '' (rdsDelete E rdsapi))))"
  by (simp add: Delete_def rds_client_def go_bind_assoc)

lemma client_call_spares: "list_all (\<lambda>(c, _). client_call c) cs \<Longrightarrow> seen deleted_instance cs = []"
proof (induction cs)
  case (Cons e cs)
  obtain c ok where e: "e = (c, ok)" by (cases e)
  have "client_call c \<Longrightarrow> deleted_instance c = None" by (cases c rule: client_call.cases) auto
  with Cons e show ?case by simp
qed simp

lemma Delete_tail_without_id:
  assumes "status_Id (rds_Status (newRds u)) = ''''"
    and "go_then (go_when b (go_wrap msg (DeleteAlarm E n ns))) (go_wrap msg' (rdsDelete E client)) u = (r, t)"
  shows "\<exists>new. r \<noteq> Ok () \<and> calls t = calls u @ new \<and> seen deleted_instance new = [] \<and> (b \<or> new = [])"
  using assms(2)
proof (cases rule: go_then_cases)
  case (stop q)
  have sp: "deletes_nothing (go_when b (go_wrap msg (DeleteAlarm E n ns)))"
    by (intro run_intro uses_intro uses_mono [OF DeleteAlarm_uses delete_alarm_call_spares])
  have "go_then (go_when b (go_wrap msg (DeleteAlarm E n ns))) (go_wrap msg' (rdsDelete E client)) u
      \<noteq> (Ok (), t)"
    using stop by (auto simp: go_then_eval split: prod.splits outcome.splits)
  moreover have b using stop by (auto simp: go_when_eval split: if_splits)
  ultimately show ?thesis using silent_run [OF sp stop(1)] assms(2) by metis
next
  case (cont a v)
  have sp: "deletes_nothing (go_when b (go_wrap msg (DeleteAlarm E n ns)))"
    and fr: "run_respects (same_field newRds) (go_when b (go_wrap msg (DeleteAlarm E n ns)))"
    by (intro run_intro uses_intro uses_mono [OF DeleteAlarm_uses delete_alarm_call_spares]; simp)+
  have "newRds v = newRds u" using run_respectsD [OF fr cont(1)] by (simp add: same_field_def)
  with assms(1) cont(2) have "r \<noteq> Ok ()" "t = v"
    by (simp_all add: go_wrap_eval rdsDelete_no_id split: prod.splits) auto
  moreover have "\<not> b \<Longrightarrow> v = u" using cont(1) by (simp add: go_when_eval)
  moreover obtain new where "calls v = calls u @ new" "seen deleted_instance new = []"
    using silent_run [OF sp cont(1)] .
  ultimately show ?thesis by (intro exI [of _ new]) auto
qed

text \<open>A resource whose identifier was never recorded is not deleted: \<open>Delete\<close> fails, and
  unless the autopilot was on it makes no call beyond building its client.\<close>

theorem delete_without_id_fails:
  assumes "status_Id (rds_Status (newRds s)) = ''''" and "Delete E s = (r, t)"
  shows "r \<noteq> Ok () \<and> seen deleted_instance (made s t) = [] \<and>
    (status_Autopilot (rds_Status (newRds s)) \<or> list_all (\<lambda>(c, _). client_call c) (made s t))"
  using assms(2) unfolding Delete_rds_client
proof (cases rule: go_bind_cases)
  case (stop q)
  then have "r \<noteq> Ok ()"
    using assms(2) unfolding Delete_rds_client by (auto simp: go_bind_eval split: outcome.splits)
  with rds_client_log [OF stop(1)] show ?thesis
    by (metis client_call_spares seen_same_calls)
next
  case (cont client u)
  have fr: "run_respects (same_field newRds) (rds_client E)" by (intro uses_intro) simp_all
  have same: "newRds u = newRds s"
    using run_respectsD [OF fr cont(1)] by (simp add: same_field_def)
  obtain first where first: "calls u = calls s @ first" "list_all (\<lambda>(c, _). client_call c) first"
    using rds_client_log [OF cont(1)] .
  have tail: "go_then (go_when (status_Autopilot (rds_Status (newRds u)))
      (go_wrap ''error deleting alarm: '' (DeleteAlarm E (rds_Name (newRds u)) (rds_Namespace (newRds u)))))
      (go_wrap ''rds delete failed: '' (rdsDelete E client)) u = (r, t)"
    using cont(2) by (simp add: go_bind_eval go_get_eval)
  obtain new where "r \<noteq> Ok ()" "calls t = calls u @ new" "seen deleted_instance new = []"
      "status_Autopilot (rds_Status (newRds u)) \<or> new = []"
    using Delete_tail_without_id [OF _ tail] assms(1) same by auto
  with first same show ?thesis
    using client_call_spares [OF first(2)] by (auto simp: seen_same_calls)
qed

theorem delete_without_id_fails_witness:
  "\<exists>r t. Delete demo_ext (demo_sys 1 (demo_rds '''')) = (r, t) \<and> r \<noteq> Ok ()"
proof -
  obtain r t where run: "Delete demo_ext (demo_sys 1 (demo_rds '''')) = (r, t)" by fastforce
  have "status_Id (rds_Status (newRds (demo_sys 1 (demo_rds '''')))) = ''''" by (simp add: demo)
  from delete_without_id_fails [OF this run] run show ?thesis by blast
qed

end
