(* ===== verification/Log_Job.thy ===== *)
theory Log_Job
  imports Status_Update Demo_Cloud
begin

text \<open>
  The log fetch of \<open>pkg/controller/job.go\<close> and of \<open>rdsUpdate\<close> (\<open>resource.go\<close>): a Kubernetes
  job that reads the instance's logs with a fresh token, and the loop that watches it.  What the
  \<open>select\<close> of the loop receives is a list of choices; when the list ends nothing more arrives and
  the goroutine is blocked.  The lemmas show when the token is revoked and when the fetch
  can succeed at all.
\<close>

section \<open>job.go\<close>

definition user :: int where "user = 1000"

definition privledged :: bool where "privledged = False"

definition readonly :: bool where "readonly = True"

definition log_container :: "string \<Rightarrow> string \<Rightarrow> string \<Rightarrow> string \<Rightarrow> string \<Rightarrow> string \<Rightarrow> string \<Rightarrow> Container" where
  "log_container cname flag name namespace endpoint token img =
     \<lparr>ct_Name = cname, ct_Image = img, ct_Command = [''/app/rdslogs'', flag],
      ct_ImagePullPolicy = ''IfNotPresent'',
      ct_SecurityContext = \<lparr>sc_AllowPrivilegeEscalation = privledged, sc_Privileged = privledged,
        sc_ReadOnlyRootFilesystem = readonly, sc_RunAsGroup = user, sc_RunAsUser = user\<rparr>,
      ct_Env = [(''RDS_NAME'', namespace @ ''_'' @ name), (''OS_TOKEN'', token), (''OS_AUTH_URL'', endpoint)]\<rparr>"

definition createJobSpec :: "string \<Rightarrow> string \<Rightarrow> string \<Rightarrow> string \<Rightarrow> string \<Rightarrow> PodTemplateSpec" where
  "createJobSpec name namespace endpoint token img =
     \<lparr>pt_GenerateName = name @ ''-'', pt_Namespace = namespace, pt_Labels = [],
      pt_Containers = [log_container ''errorlog'' ''-errorlog'' name namespace endpoint token img,
        log_container ''slowlog'' ''-slowlog'' name namespace endpoint token img],
      pt_RestartPolicy = ''Never''\<rparr>"

definition createJob :: "Rds \<Rightarrow> string \<Rightarrow> string \<Rightarrow> string \<Rightarrow> Job" where
  "createJob r endpoint token img =
     \<lparr>jb_Name = rds_Name r, jb_Namespace = rds_Namespace r, jb_Labels = [],
      jb_OwnerReferences = [(rds_Name r, rds_MetaRest r, gv_WithKind SchemeGroupVersion RdsKind)],
      jb_Template = createJobSpec (rds_Name r) (rds_Namespace r) endpoint token img\<rparr>"

section \<open>The log fetch\<close>

text \<open>\<open>%v\<close> of an error that may be nil.\<close>

definition errorf_v :: "string \<Rightarrow> gerror option \<Rightarrow> gerror" where
  "errorf_v msg e = new_error (msg @ (case e of None \<Rightarrow> ''<nil>'' | Some e \<Rightarrow> err_text e))"

text \<open>The first condition of the job that ends it: whether it is complete or failed.\<close>

fun job_verdict :: "JobConditionType list \<Rightarrow> bool option" where
  "job_verdict [] = None"
| "job_verdict (JobComplete # cs) = Some True"
| "job_verdict (JobFailed # cs) = Some False"
| "job_verdict (OtherCondition # cs) = job_verdict cs"

definition revoke :: "'w Ext \<Rightarrow> handle \<Rightarrow> string \<Rightarrow> ('w sys, unit) go" where
  "revoke E client token =
     go_ignore (perform_e (IAM (CTokenRevoke token)) (o_TokenRevoke (otc E) client token))"

fun watch_loop :: "'w Ext \<Rightarrow> handle \<Rightarrow> string \<Rightarrow> string \<Rightarrow> gerror option \<Rightarrow> WatchChoice list \<Rightarrow>
    ('w sys, unit) go" where
  "watch_loop E client token name err [] = go_crash Blocked"
| "watch_loop E client token name err (WNoObject # es) =
     go_then (revoke E client token) (go_fail (errorf_v ''error on result channel logfetch job: '' err))"
| "watch_loop E client token name err (WOtherObject # es) =
     go_then (revoke E client token) (go_fail (errorf_v ''error on object logfetch job: '' err))"
| "watch_loop E client token name err (WJob conditions # es) =
     (case job_verdict conditions of
        None \<Rightarrow> watch_loop E client token name err es
      | Some True \<Rightarrow> go_then (revoke E client token) (go_return ())
      | Some False \<Rightarrow> go_then (revoke E client token)
          (go_fail (new_error (''logfetch job for '' @ name @ '' failed''))))"
| "watch_loop E client token name err (WCtxDone # es) =
     go_then (revoke E client token) (go_fail (new_error (''logfetch job '' @ name @ '' cancelled'')))"

definition job_get :: "'w Ext \<Rightarrow> string \<Rightarrow> string \<Rightarrow> ('w sys, unit option \<times> gerror option) go" where
  "job_get E ns n = perform_v (K8S (CJobGet ns n)) (k_JobGet (kube E) ns n)"

text \<open>
  The job is looked up before the loop.  After a lookup with an error the source waits, looks it
  up again and returns an error built from the second result, whatever that was.
\<close>

definition find_job :: "'w Ext \<Rightarrow> string \<Rightarrow> string \<Rightarrow> ('w sys, unit) go" where
  "find_job E ns logInstance =
     go_bind (job_get E ns logInstance) (\<lambda>(logjob, err).
     if logjob = None then go_fail (errorf_v ''error finding logfetch job for watch: '' err)
     else if err \<noteq> None then
       go_then (perform_w (SYS (CSleep 5)) (x_Sleep E 5))
         (go_bind (job_get E ns logInstance) (\<lambda>(logjob2, err2).
            go_fail (errorf_v ''error getting logfetch job for watch: '' err2)))
     else go_return ())"

definition job_image :: "(string \<Rightarrow> string) \<Rightarrow> string" where
  "job_image env =
     (if env ''JOB_IMAGE'' \<noteq> '''' then env ''JOB_IMAGE'' else ''ghcr.io/eumel8/otcrdslogs:latest'')"

text \<open>The handle of the identity client when building it failed: its error is dropped.\<close>

definition nil_handle :: handle where "nil_handle = 0"

definition identity_client :: "'w Ext \<Rightarrow> handle \<Rightarrow> ('w sys, handle) go" where
  "identity_client E provider =
     go_bind (go_try (NewClient E IdentityV3 provider)) (\<lambda>r.
     go_return (case r of Inl _ \<Rightarrow> nil_handle | Inr h \<Rightarrow> h))"

definition token_options :: "AuthOptions \<Rightarrow> string \<Rightarrow> TokenOptions" where
  "token_options opts project =
     \<lparr>to_IdentityEndpoint = ao_IdentityEndpoint opts, to_Username = ao_Username opts,
      to_Password = ao_Password opts, to_ProjectID = project, to_DomainName = ao_DomainName opts\<rparr>"

definition use_project_env :: "('w sys, unit) go" where
  "use_project_env =
     go_modify (\<lambda>s. if osenv s ''OS_PROJECT_ID'' \<noteq> ''''
                    then s\<lparr>projectID := osenv s ''OS_PROJECT_ID''\<rparr> else s)"

text \<open>From the job's creation on: the token exists.\<close>

definition run_log_job :: "'w Ext \<Rightarrow> handle \<Rightarrow> AuthOptions \<Rightarrow> string \<Rightarrow> ('w sys, unit) go" where
  "run_log_job E client opts token =
     go_bind (go_get newRds) (\<lambda>r.
     go_bind (go_get (\<lambda>s. job_image (osenv s))) (\<lambda>img.
     let job = createJob r (ao_IdentityEndpoint opts) token img; ns = rds_Namespace r in
     go_bind (go_try (perform_e (K8S (CJobCreate ns job)) (k_JobCreate (kube E) ns job))) (\<lambda>created.
     case created of
       Inl err \<Rightarrow> if IsAlreadyExists err then go_return ()
                  else go_fail (errorf ''error creating logfetch job: '' err)
     | Inr _ \<Rightarrow>
        let label = ''job-name='' @ rds_Name r in
        go_bind (go_wrap ''error create watcher for logfetch job: ''
                  (perform_e (K8S (CJobWatch ns label)) (k_JobWatch (kube E) ns label))) (\<lambda>events.
        let logInstance = rds_Namespace r @ ''_'' @ rds_Name r in
        go_then (find_job E ns logInstance)
          (watch_loop E client token (rds_Name r) None events)))))"

text \<open>The message of the last error has its two arguments in the wrong order, as in the source.\<close>

definition log_token :: "'w Ext \<Rightarrow> ('w sys, AuthOptions \<times> handle \<times> string) go" where
  "log_token E =
     go_bind (go_get osenv) (\<lambda>env.
     go_bind (go_wrap ''error getting auth from env in logfetch: ''
               (go_lift (o_AuthOptionsFromEnv (otc E) env))) (\<lambda>opts.
     go_bind (go_wrap ''error building auth client: ''
               (perform_e (IAM CAuthenticate) (o_AuthenticatedClient (otc E) opts))) (\<lambda>provider.
     go_bind (identity_client E provider) (\<lambda>client.
     go_then use_project_env
    (go_bind (go_get projectID) (\<lambda>project.
     let authOptions = token_options opts project in
     go_bind (go_try (perform_e (IAM (CTokenCreate authOptions)) (o_TokenCreate (otc E) client authOptions)))
       (\<lambda>res. case res of
          Inl err \<Rightarrow> go_fail (new_error (''error getting token in logfetch in scope '' @ err_text err @ '': '' @ project))
        | Inr token \<Rightarrow> go_return (opts, client, token))))))))"

definition fetch_logs :: "'w Ext \<Rightarrow> ('w sys, unit) go" where
  "fetch_logs E =
     go_then (modify_status (\<lambda>st. st\<lparr>status_Logs := False\<rparr>))
    (go_then (go_wrap ''error update rds status: '' (UpdateStatus E))
    (go_then (Eventf E EventTypeNormal ''Update'' ''This instance fetch logs.'')
    (go_bind (log_token E) (\<lambda>(opts, client, token). run_log_job E client opts token))))"

section \<open>The watch loop\<close>



fun revoked_token :: "call \<Rightarrow> string option" where
  "revoked_token (IAM (CTokenRevoke tok)) = Some tok"
| "revoked_token c = None"








section \<open>A job that is not found\<close>

text \<open>
  The job is created under the resource's name and looked up under the namespace and the name
  joined by an underscore.  Kubernetes refuses names with an underscore, so the lookup is
  answered with an error: then no fetch that created its job returns without an error, and the
  token stays valid.
\<close>

definition lookup_fails :: "'w Ext \<Rightarrow> string \<Rightarrow> string \<Rightarrow> bool" where
  "lookup_fails E ns n \<longleftrightarrow> (\<forall>w. snd (fst (k_JobGet (kube E) ns n w)) \<noteq> None)"

lemma find_job_fails:
  assumes "lookup_fails E ns n"
  shows "\<exists>e. fst (find_job E ns n s) = Fail e"
proof -
  obtain p e w where "k_JobGet (kube E) ns n (world s) = ((p, Some e), w)"
    using assms unfolding lookup_fails_def by (metis option.exhaust prod.collapse)
  then show ?thesis by (simp add: find_job_def job_get_def go_eval split: prod.split)
qed

lemma find_job_uses:
  "(\<And>a b. K (K8S (CJobGet a b))) \<Longrightarrow> (\<And>n. K (SYS (CSleep n))) \<Longrightarrow> uses K (find_job E ns n)"
  unfolding find_job_def job_get_def by (intro run_intro uses_intro)

definition job_created :: "(call \<times> bool) list \<Rightarrow> bool" where
  "job_created cs \<longleftrightarrow> (\<exists>ns job. (K8S (CJobCreate ns job), True) \<in> set cs)"

lemma run_log_job_stuck:
  assumes "lookup_fails E (rds_Namespace (newRds s)) (rds_Namespace (newRds s) @ ''_'' @ rds_Name (newRds s))"
    and "run_log_job E client opts token s = (r, t)"
  shows "\<exists>new. calls t = calls s @ new \<and> seen revoked_token new = [] \<and> (job_created new \<longrightarrow> r \<noteq> Ok ())"
proof -
  let ?ns = "rds_Namespace (newRds s)" and ?n = "rds_Name (newRds s)"
  let ?job = "createJob (newRds s) (ao_IdentityEndpoint opts) token (job_image (osenv s))"
  obtain q w where jc: "k_JobCreate (kube E) ?ns ?job (world s) = (q, w)" by fastforce
  show ?thesis
  proof (cases q)
    case (Inl e)
    with jc assms(2) show ?thesis
      by (auto simp: run_log_job_def go_eval Let_def job_created_def split: if_splits)
  next
    case (Inr u)
    let ?s1 = "log_call (K8S (CJobCreate ?ns ?job)) True w s"
    let ?label = "''job-name='' @ ?n"
    obtain p v where jw: "k_JobWatch (kube E) ?ns ?label w = (p, v)" by fastforce
    show ?thesis
    proof (cases p)
      case (Inl e)
      with jc Inr jw assms(2) show ?thesis
        by (auto simp: run_log_job_def go_eval Let_def)
    next
      case (Inr events)
      let ?s2 = "log_call (K8S (CJobWatch ?ns ?label)) True v ?s1"
      obtain e where e: "fst (find_job E ?ns (?ns @ ''_'' @ ?n) ?s2) = Fail e"
        using find_job_fails [OF assms(1)] by metis
      then obtain s3 where s3: "find_job E ?ns (?ns @ ''_'' @ ?n) ?s2 = (Fail e, s3)"
        by (metis prod.collapse)
      have "uses (\<lambda>c. revoked_token c = None) (find_job E ?ns (?ns @ ''_'' @ ?n))"
        by (rule find_job_uses) simp_all
      from silent_run [OF this s3] obtain new where new: "calls s3 = calls ?s2 @ new" "seen revoked_token new = []" .
      have "r = Fail e \<and> t = s3"
        using jc \<open>q = Inr u\<close> jw Inr s3 assms(2) by (simp add: run_log_job_def go_eval Let_def)
      with new show ?thesis by simp
    qed
  qed
qed

section \<open>The whole fetch\<close>

lemma log_token_frame:
  "(\<And>c ok w s. fld (log_call c ok w s) = fld s) \<Longrightarrow> (\<And>s p. fld (s\<lparr>projectID := p\<rparr>) = fld s) \<Longrightarrow>
     run_respects (same_field fld) (log_token E)"
  unfolding log_token_def identity_client_def use_project_env_def Let_def
  by (intro run_intro uses_intro; simp)

lemma log_token_uses:
  "K (IAM CAuthenticate) \<Longrightarrow> K (IAM (CNewClient IdentityV3)) \<Longrightarrow> (\<And>o1. K (IAM (CTokenCreate o1))) \<Longrightarrow>
     uses K (log_token E)"
  unfolding log_token_def identity_client_def use_project_env_def Let_def
  by (intro run_intro uses_intro; simp)

fun log_call_kind :: "call \<Rightarrow> bool" where
  "log_call_kind (IAM c) = True"
| "log_call_kind (K8S (CJobCreate ns j)) = True"
| "log_call_kind (K8S (CJobWatch ns l)) = True"
| "log_call_kind (K8S (CJobGet ns n)) = True"
| "log_call_kind (K8S (CEvent ns n ty rsn msg)) = (rsn = ''Update'')"
| "log_call_kind (SYS (CSleep n)) = (n = 5)"
| "log_call_kind c = status_call c"

lemma status_call_log: "status_call c \<Longrightarrow> log_call_kind c"
  by (cases c rule: status_call.cases) auto

lemma watch_loop_uses: "uses log_call_kind (watch_loop E client token name err es)"
  by (induction es rule: watch_loop.induct)
    (auto simp: revoke_def intro!: run_intro uses_intro split: option.split bool.split)

lemma watch_loop_frame:
  "(\<And>c ok w s. fld (log_call c ok w s) = fld s) \<Longrightarrow>
     run_respects (same_field fld) (watch_loop E client token name err es)"
  by (induction es rule: watch_loop.induct)
    (auto simp: revoke_def intro!: run_intro uses_intro split: option.split bool.split)

lemma run_log_job_frame:
  "(\<And>c ok w s. fld (log_call c ok w s) = fld s) \<Longrightarrow>
     run_respects (same_field fld) (run_log_job E client opts token)"
  unfolding run_log_job_def find_job_def job_get_def Let_def
  by (intro run_intro uses_intro watch_loop_frame)

lemma run_log_job_uses: 
 "uses log_call_kind (run_log_job E client opts token)"
  unfolding run_log_job_def find_job_def job_get_def Let_def
  by (intro run_intro uses_intro watch_loop_uses) simp_all

lemma fetch_logs_uses: "uses log_call_kind (fetch_logs E)"
  unfolding fetch_logs_def
  by (intro run_intro uses_intro status_write.write_uses_in [OF status_call_log] log_token_uses run_log_job_uses)
    simp_all

fun job_or_revoke :: "call \<Rightarrow> unit option" where
  "job_or_revoke (IAM (CTokenRevoke tok)) = Some ()"
| "job_or_revoke (K8S (CJobCreate ns j)) = Some ()"
| "job_or_revoke c = None"

lemma job_or_revoke_none:
  assumes "seen job_or_revoke cs = []"
  shows "seen revoked_token cs = [] \<and> \<not> job_created cs"
  using assms
proof (induction cs)
  case (Cons e cs)
  obtain c ok where "e = (c, ok)" by (cases e)
  with Cons show ?case
    by (cases c rule: job_or_revoke.cases) (auto simp: job_created_def)
qed (simp add: job_created_def)

lemma status_call_no_job: "status_call c \<Longrightarrow> job_or_revoke c = None"
  by (cases c rule: status_call.cases) auto

definition before_job :: "'w Ext \<Rightarrow> ('w sys, AuthOptions \<times> handle \<times> string) go" where
  "before_job E =
     go_then (modify_status (\<lambda>st. st\<lparr>status_Logs := False\<rparr>))
    (go_then (go_wrap ''error update rds status: '' (UpdateStatus E))
    (go_then (Eventf E EventTypeNormal ''Update'' ''This instance fetch logs.'') (log_token E)))"

lemma fetch_logs_before_job:
  "fetch_logs E = go_bind (before_job E) (\<lambda>(opts, client, token). run_log_job E client opts token)"
  by (simp add: fetch_logs_def before_job_def go_then_def go_bind_assoc)

lemma before_job_silent: "uses (\<lambda>c. job_or_revoke c = None) (before_job E)"
  unfolding before_job_def
  by (intro run_intro uses_intro status_write.write_uses_in [OF status_call_no_job] log_token_uses) simp_all

definition resource_key :: "Rds \<Rightarrow> string \<times> string" where
  "resource_key r = (rds_Namespace r, rds_Name r)"

lemma status_write_key:
  "run_respects (same_field (\<lambda>s. resource_key (newRds s))) (UpdateStatus E)"
  using status_write.write_keeps [of E]
  by (auto simp: run_respects_def same_field_def resource_key_def) (metis prod.collapse)+

lemma before_job_key: "run_respects (same_field (\<lambda>s. resource_key (newRds s))) (before_job E)"
  unfolding before_job_def
  by (intro run_intro uses_intro status_write_key log_token_frame)
    (auto simp: modify_status_def modify_new_def resource_key_def intro!: uses_intro)

text \<open>C28: when Kubernetes answers the lookup of the log job with an error, which the underscore
  in the name it asks for makes certain, a fetch that has created its job returns an error, and
  no fetch revokes the token it has put into the job.\<close>

theorem fetch_logs_never_succeeds:
  assumes "lookup_fails E (rds_Namespace (newRds s)) (rds_Namespace (newRds s) @ ''_'' @ rds_Name (newRds s))"
    and "fetch_logs E s = (r, t)"
  shows "seen revoked_token (made s t) = [] \<and> (job_created (made s t) \<longrightarrow> r \<noteq> Ok ())"
  using assms(2) unfolding fetch_logs_before_job
proof (cases rule: go_bind_cases)
  case (stop q)
  from silent_run [OF before_job_silent stop(1)] show ?thesis
    by (metis job_or_revoke_none seen_same_calls)
next
  case (cont a u)
  obtain opts client token where a: "a = (opts, client, token)" by (cases a)
  obtain pre where pre: "calls u = calls s @ pre" "seen job_or_revoke pre = []"
    using silent_run [OF before_job_silent cont(1)] .
  have "resource_key (newRds u) = resource_key (newRds s)"
    using run_respectsD [OF before_job_key cont(1)] by (simp add: same_field_def)
  with assms(1) have "lookup_fails E (rds_Namespace (newRds u))
      (rds_Namespace (newRds u) @ ''_'' @ rds_Name (newRds u))"
    by (simp add: resource_key_def)
  moreover have "run_log_job E client opts token u = (r, t)" using cont(2) a by simp
  ultimately obtain new where "calls t = calls u @ new" "seen revoked_token new = []"
    "job_created new \<longrightarrow> r \<noteq> Ok ()"
    using run_log_job_stuck by metis
  moreover from job_or_revoke_none [OF pre(2)]
  have "seen revoked_token pre = []" "\<not> job_created pre" by auto
  moreover have "job_created (pre @ new) \<longleftrightarrow> job_created pre \<or> job_created new"
    by (auto simp: job_created_def)
  ultimately show ?thesis using pre(1) by (simp add: seen_same_calls)
qed

lemma demo_fetch_run:
  "\<exists>t. fetch_logs demo_ext (demo_sys 1 (demo_rds ''id1'')) =
       (Fail (new_error ''error getting logfetch job for watch: not found''), t) \<and>
     job_created (made (demo_sys 1 (demo_rds ''id1'')) t)"
  by (simp add: fetch_logs_def log_token_def identity_client_def use_project_env_def run_log_job_def find_job_def job_get_def demo job_created_def errorf_v_def)

theorem fetch_logs_never_succeeds_witness:
  "\<exists>r t. fetch_logs demo_ext (demo_sys 1 (demo_rds ''id1'')) = (r, t) \<and>
     job_created (made (demo_sys 1 (demo_rds ''id1'')) t) \<and> r \<noteq> Ok () \<and>
     seen revoked_token (made (demo_sys 1 (demo_rds ''id1'')) t) = []"
proof -
  let ?s = "demo_sys 1 (demo_rds ''id1'')"
  obtain r t where run: "fetch_logs demo_ext ?s = (r, t)" and made: "job_created (made ?s t)"
    using demo_fetch_run by blast
  have "lookup_fails demo_ext (rds_Namespace (newRds ?s))
      (rds_Namespace (newRds ?s) @ ''_'' @ rds_Name (newRds ?s))"
    by (simp add: lookup_fails_def demo)
  from fetch_logs_never_succeeds [OF this run] run made show ?thesis by blast
qed

end
