(* ===== verification/Sql_User.thy ===== *)
theory Sql_User
  imports Demo_Cloud
begin

text \<open>
  \<open>CreateSqlUser\<close> of \<open>pkg/controller/sql.go\<close>: the database users of the specification are
  created with their privileges, then its databases.  A \<open>defer\<close> inside the loops runs when the
  function is left, so each iteration wraps all that follows it; the loops take the rest of
  the function as an argument.  The two regular expressions of the source are character
  classes over the whole string.
\<close>

definition in_range :: "char \<Rightarrow> char \<Rightarrow> char \<Rightarrow> bool" where
  "in_range lo hi c \<longleftrightarrow> (of_char lo :: nat) \<le> of_char c \<and> (of_char c :: nat) \<le> of_char hi"

definition is_alnum :: "char \<Rightarrow> bool" where
  "is_alnum c \<longleftrightarrow> in_range (CHR ''a'') (CHR ''z'') c \<or> in_range (CHR ''A'') (CHR ''Z'') c \<or>
     in_range (CHR ''0'') (CHR ''9'') c"

definition validGrant :: "string \<Rightarrow> bool" where
  "validGrant pr \<longleftrightarrow> list_all (\<lambda>c. is_alnum c \<or> c \<in> {CHR '' '', CHR 0x27, CHR ''*'', CHR ''.'', CHR ''_'', CHR ''%''}) pr"

definition validSchema :: "string \<Rightarrow> bool" where
  "validSchema ds \<longleftrightarrow> list_all is_alnum ds"

section \<open>The statements\<close>

definition query_user_stmt :: string where
  "query_user_stmt = ''SELECT user FROM user where user = ?''"

definition query_schema_stmt :: string where
  "query_schema_stmt = ''SELECT schema_name FROM information_schema.schemata WHERE schema_name= ?''"

definition sq :: string where
  "sq = [CHR 0x27]"

definition create_user_stmt :: "Users \<Rightarrow> string" where
  "create_user_stmt su = ''CREATE USER IF NOT EXISTS '' @ sq @ user_Name su @ sq @ ''@'' @ sq @ user_Host su @
     sq @ '' IDENTIFIED BY '' @ sq @ user_Password su @ sq"

definition create_database_stmt :: "string \<Rightarrow> string" where
  "create_database_stmt ds = ''CREATE DATABASE IF NOT EXISTS '' @ ds"

definition dsn_for :: "Rds \<Rightarrow> string" where
  "dsn_for r = ''root:'' @ spec_Password (rds_Spec r) @ ''@tcp('' @ status_Ip (rds_Status r) @ '':'' @
     spec_Port (rds_Spec r) @ '')/mysql''"

section \<open>CreateSqlUser\<close>

definition run_query :: "'w Ext \<Rightarrow> handle \<Rightarrow> string \<Rightarrow> ('w sys, unit) go" where
  "run_query E db q = perform_e (DB (CSqlQuery q)) (d_Query (sqldb E) db q)"

text \<open>One privilege: a refused statement and the errors of the queries are logged only.\<close>

definition grant_privilege :: "'w Ext \<Rightarrow> handle \<Rightarrow> string \<Rightarrow> ('w sys, unit) go" where
  "grant_privilege E db pr =
     go_when (validGrant pr)
       (go_then (go_ignore (run_query E db pr)) (go_ignore (run_query E db ''FLUSH PRIVILEGES'')))"

definition create_user :: "'w Ext \<Rightarrow> handle \<Rightarrow> Users \<Rightarrow> ('w sys, unit) go" where
  "create_user E db su =
     go_then (go_wrap ''error execute creating user: '' (run_query E db (create_user_stmt su)))
       (go_each (grant_privilege E db) (slice_elems (user_Privileges su)))"

text \<open>
  The common beginning of an iteration: prepare the query, close the statement when the
  function is left, run the query; then \<open>create\<close> unless a row was found, then the \<open>rest\<close>.
\<close>

definition unless_found :: "'w Ext \<Rightarrow> handle \<Rightarrow> string \<Rightarrow> string \<Rightarrow> string \<Rightarrow> string \<Rightarrow>
    ('w sys, unit) go \<Rightarrow> ('w sys, unit) go \<Rightarrow> ('w sys, unit) go" where
  "unless_found E db q arg prepare_msg query_msg create rest =
     go_bind (go_wrap prepare_msg (perform_e (DB (CSqlPrepare q)) (d_Prepare (sqldb E) db q))) (\<lambda>stmt.
     go_defer (perform_w (DB CSqlStmtClose) (d_StmtClose (sqldb E) stmt))
       (go_bind (go_wrap query_msg
           (perform_e (DB (CSqlStmtQuery q arg)) (d_StmtQuery (sqldb E) stmt arg))) (\<lambda>res.
        go_bind (perform (DB CSqlRowsNext) (d_RowsNext (sqldb E) res)) (\<lambda>row.
        go_then (go_when (\<not> row) create) rest))))"

fun create_users :: "'w Ext \<Rightarrow> handle \<Rightarrow> Users list \<Rightarrow> ('w sys, unit) go \<Rightarrow> ('w sys, unit) go" where
  "create_users E db [] rest = rest"
| "create_users E db (su # us) rest =
     unless_found E db query_user_stmt (user_Name su)
       ''error prepare query user: '' ''error execute query user: ''
       (create_user E db su) (create_users E db us rest)"

fun create_databases :: "'w Ext \<Rightarrow> handle \<Rightarrow> string list \<Rightarrow> ('w sys, unit) go" where
  "create_databases E db [] = go_return ()"
| "create_databases E db (ds # dss) =
     (if validSchema ds then
        unless_found E db query_schema_stmt ds
          ''error prepare query schema: '' ''error execute query schema: ''
          (go_ignore (run_query E db (create_database_stmt ds))) (create_databases E db dss)
      else create_databases E db dss)"

definition CreateSqlUser :: "'w Ext \<Rightarrow> ('w sys, unit) go" where
  "CreateSqlUser E =
     go_bind (go_get newRds) (\<lambda>r.
     if spec_Datastoretype (rds_Spec r) = ''MySQL'' then
       go_bind (go_wrap ''error connecting database: ''
         (perform_e (DB (CSqlOpen ''mysql'' (dsn_for r))) (d_Open (sqldb E) ''mysql'' (dsn_for r)))) (\<lambda>db.
       go_then (go_wrap ''error connecting database as root: ''
         (perform_e (DB CSqlPing) (d_Ping (sqldb E) db)))
      (go_defer (perform_w (DB CSqlClose) (d_Close (sqldb E) db))
        (go_bind (go_deref (spec_Users (rds_Spec r))) (\<lambda>(_, us).
         create_users E db us (create_databases E db (slice_elems (spec_Databases (rds_Spec r))))))))
     else go_fail (new_error ''unsupported database type for user management''))"

section \<open>Which statements are run\<close>

text \<open>
  \<open>statement_of r q\<close>: the statement \<open>q\<close> is one that the resource asks for.  Privileges and
  schema names have passed their regular expression, user names, hosts and passwords none.
\<close>

definition statement_of :: "Rds \<Rightarrow> string \<Rightarrow> bool" where
  "statement_of r q \<longleftrightarrow>
     (\<exists>a us. spec_Users (rds_Spec r) = Some (a, us) \<and>
       (\<exists>su \<in> set us. q = create_user_stmt su \<or>
          (q \<in> set (slice_elems (user_Privileges su)) \<and> validGrant q) \<or> q = ''FLUSH PRIVILEGES'')) \<or>
     (\<exists>ds \<in> set (slice_elems (spec_Databases (rds_Spec r))). validSchema ds \<and> q = create_database_stmt ds)"

fun sql_call :: "(string \<Rightarrow> bool) \<Rightarrow> call \<Rightarrow> bool" where
  "sql_call P (DB (CSqlQuery q)) = P q"
| "sql_call P (DB c) = True"
| "sql_call P c = False"

lemma unless_found_uses:
  assumes "uses (sql_call P) create" and "uses (sql_call P) rest"
  shows "uses (sql_call P) (unless_found E db q a m1 m2 create rest)"
  unfolding unless_found_def by (intro run_intro uses_intro assms) simp_all

lemma create_user_uses:
  assumes "P (create_user_stmt su)" and "P ''FLUSH PRIVILEGES''"
    and "\<And>pr. pr \<in> set (slice_elems (user_Privileges su)) \<Longrightarrow> validGrant pr \<Longrightarrow> P pr"
  shows "uses (sql_call P) (create_user E db su)"
  unfolding create_user_def grant_privilege_def run_query_def
  by (intro run_intro uses_intro) (simp_all add: assms)

lemma create_users_uses:
  assumes "\<And>su. su \<in> set us \<Longrightarrow> uses (sql_call P) (create_user E db su)" and "uses (sql_call P) rest"
  shows "uses (sql_call P) (create_users E db us rest)"
  using assms by (induction us) (auto intro: unless_found_uses)

lemma create_databases_uses:
  assumes "\<And>ds. ds \<in> set dss \<Longrightarrow> validSchema ds \<Longrightarrow> P (create_database_stmt ds)"
  shows "uses (sql_call P) (create_databases E db dss)"
  using assms
proof (induction dss)
  case (Cons ds dss)
  then have "validSchema ds \<Longrightarrow> uses (sql_call P) (go_ignore (run_query E db (create_database_stmt ds)))"
    unfolding run_query_def by (intro run_intro uses_intro) simp
  with Cons show ?case by (auto intro: unless_found_uses)
qed (simp add: log_growth.keep_return)

lemma unless_found_frame:
  assumes "\<And>c ok w s. fld (log_call c ok w s) = fld s"
    and "run_respects (same_field fld) create" and "run_respects (same_field fld) rest"
  shows "run_respects (same_field fld) (unless_found E db q a m1 m2 create rest)"
  unfolding unless_found_def by (intro run_intro uses_intro assms)

lemma create_databases_frame:
  "(\<And>c ok w s. fld (log_call c ok w s) = fld s) \<Longrightarrow>
     run_respects (same_field fld) (create_databases E db dss)"
  by (induction dss) (auto simp: run_query_def intro!: run_intro uses_intro unless_found_frame)

lemma create_users_frame:
  assumes "\<And>c ok w s. fld (log_call c ok w s) = fld s" and "run_respects (same_field fld) rest"
  shows "run_respects (same_field fld) (create_users E db us rest)"
  using assms
  by (induction us)
    (auto simp: create_user_def grant_privilege_def run_query_def intro!: run_intro uses_intro unless_found_frame)

lemma CreateSqlUser_frame:
  "(\<And>c ok w s. fld (log_call c ok w s) = fld s) \<Longrightarrow>
     run_respects (same_field fld) (CreateSqlUser E)"
  unfolding CreateSqlUser_def by (intro run_intro uses_intro create_users_frame create_databases_frame)

text \<open>The body for a fixed resource.\<close>

definition sql_session :: "'w Ext \<Rightarrow> Rds \<Rightarrow> ('w sys, unit) go" where
  "sql_session E r =
     go_bind (go_wrap ''error connecting database: ''
       (perform_e (DB (CSqlOpen ''mysql'' (dsn_for r))) (d_Open (sqldb E) ''mysql'' (dsn_for r)))) (\<lambda>db.
     go_then (go_wrap ''error connecting database as root: ''
       (perform_e (DB CSqlPing) (d_Ping (sqldb E) db)))
    (go_defer (perform_w (DB CSqlClose) (d_Close (sqldb E) db))
      (go_bind (go_deref (spec_Users (rds_Spec r))) (\<lambda>(_, us).
       create_users E db us (create_databases E db (slice_elems (spec_Databases (rds_Spec r))))))))"

lemma CreateSqlUser_session:
  "CreateSqlUser E s = (if spec_Datastoretype (rds_Spec (newRds s)) = ''MySQL''
     then sql_session E (newRds s) s
     else (Fail (new_error ''unsupported database type for user management''), s))"
  by (simp add: CreateSqlUser_def sql_session_def go_bind_eval [of "go_get newRds"] go_get_eval go_fail_eval)

lemma session_body_uses:
  assumes "spec_Users (rds_Spec r) = Some (a, us)"
  shows "uses (sql_call (statement_of r))
    (create_users E db us (create_databases E db (slice_elems (spec_Databases (rds_Spec r)))))"
  by (intro create_users_uses create_user_uses create_databases_uses)
    (auto simp: statement_of_def assms)

lemma sql_session_uses: "uses (sql_call (statement_of r)) (sql_session E r)"
proof (cases "spec_Users (rds_Spec r)")
  case None
  then show ?thesis
    unfolding sql_session_def by (simp add: go_deref_def) (intro run_intro uses_intro; simp)
next
  case (Some p)
  obtain a us where "p = (a, us)" by (cases p)
  with Some show ?thesis
    unfolding sql_session_def
    by (simp add: go_deref_def) (intro run_intro uses_intro session_body_uses; simp)
qed

lemma CreateSqlUser_uses: "uses (sql_call (\<lambda>q. True)) (CreateSqlUser E)"
proof -
  have "sql_call P c \<Longrightarrow> sql_call (\<lambda>q. True) c" for P c
    by (cases "(P, c)" rule: sql_call.cases) auto
  then have all: "uses (sql_call (\<lambda>q. True)) (sql_session E r)" for r
    using uses_mono [OF sql_session_uses] by metis
  show ?thesis
  proof (rule run_respectsI)
    fix s
    show "emits (\<lambda>(c, _). sql_call (\<lambda>q. True) c) s (snd (CreateSqlUser E s))"
      using all [of "newRds s"] by (simp add: CreateSqlUser_session run_respects_def log_growth.step_refl)
  qed
qed


section \<open>What is opened is closed\<close>

definition prepared :: "(call \<times> bool) list \<Rightarrow> nat" where
  "prepared cs = length (filter (\<lambda>(c, ok). ok \<and> (case c of DB (CSqlPrepare q) \<Rightarrow> True | _ \<Rightarrow> False)) cs)"

definition stmts_closed :: "(call \<times> bool) list \<Rightarrow> nat" where
  "stmts_closed cs = length (filter (\<lambda>(c, ok). c = DB CSqlStmtClose) cs)"

text \<open>A handle is acquired by a successful \<open>sql.Open\<close>; the deferred \<open>Close\<close> comes after the ping.\<close>

definition db_opened :: "(call \<times> bool) list \<Rightarrow> nat" where
  "db_opened cs = length (filter (\<lambda>(c, ok). ok \<and> (case c of DB (CSqlOpen drv dsn) \<Rightarrow> True | _ \<Rightarrow> False)) cs)"

definition ping_failed :: "(call \<times> bool) list \<Rightarrow> nat" where
  "ping_failed cs = length (filter (\<lambda>(c, ok). \<not> ok \<and> c = DB CSqlPing) cs)"

definition db_closed :: "(call \<times> bool) list \<Rightarrow> nat" where
  "db_closed cs = length (filter (\<lambda>(c, ok). c = DB CSqlClose) cs)"

lemmas balance_counts = prepared_def stmts_closed_def db_opened_def ping_failed_def db_closed_def

definition balanced :: "(call \<times> bool) list \<Rightarrow> bool" where
  "balanced cs \<longleftrightarrow> prepared cs = stmts_closed cs \<and> db_opened cs = 0 \<and> db_closed cs = 0 \<and> ping_failed cs = 0"

text \<open>The calls of a whole session: at most one handle, which is closed or whose ping has failed.\<close>

definition accounted :: "(call \<times> bool) list \<Rightarrow> bool" where
  "accounted cs \<longleftrightarrow> prepared cs = stmts_closed cs \<and> db_opened cs \<le> 1 \<and>
     db_opened cs = db_closed cs + ping_failed cs"

definition balances :: "'w sys \<Rightarrow> 'w sys \<Rightarrow> bool" where
  "balances s t \<longleftrightarrow> (\<exists>new. calls t = calls s @ new \<and> balanced new)"

interpretation sql_balance: run_relation "balances :: 'w sys \<Rightarrow> 'w sys \<Rightarrow> bool"
proof
  fix s t u :: "'w sys"
  show "balances s s" by (simp add: balances_def balanced_def balance_counts)
  assume "balances s t" and "balances t u"
  then show "balances s u" by (auto simp: balances_def balanced_def balance_counts)
qed

lemma balances_logged:
  "balanced [(c, ok)] \<Longrightarrow> balances s (log_call c ok w s)"
  by (auto simp: balances_def)

lemma run_query_balances: "run_respects balances (run_query E db q)"
  by (auto simp: run_respects_def run_query_def go_eval balanced_def balance_counts
      intro!: balances_logged split: prod.split sum.split)

lemma run_query_no_crash [no_crash_intro]: "no_crash (run_query E db q)"
  unfolding run_query_def by (rule no_crash_perform)

lemma create_user_balances: "run_respects balances (create_user E db su)"
  unfolding create_user_def grant_privilege_def by (intro run_intro run_query_balances)

lemma create_user_no_crash: "no_crash (create_user E db su)"
  unfolding create_user_def grant_privilege_def by (intro no_crash_intro)

lemma defer_runs:
  assumes "m s = (r, u)" and "r \<noteq> Crash ProcessExit" and "r \<noteq> Crash Blocked"
  shows "go_defer (perform_w c f) m s = (r, log_call c True (f (world u)) u)"
  using assms by (simp add: go_eval)

lemma unless_found_no_crash:
  "no_crash create \<Longrightarrow> no_crash rest \<Longrightarrow> no_crash (unless_found E db q a m1 m2 create rest)"
  unfolding unless_found_def by (intro no_crash_intro)

text \<open>A prepared statement and what follows it up to the end of the function.\<close>

lemma unless_found_balances:
  fixes E :: "'w Ext"
  assumes "run_respects balances create" and "run_respects balances rest"
    and "no_crash create" and "no_crash rest"
  shows "run_respects balances (unless_found E db q a m1 m2 create rest)"
proof (rule run_respectsI)
  fix s :: "'w sys"
  let ?prep = "perform_e (DB (CSqlPrepare q)) (d_Prepare (sqldb E) db q)"
  let ?body = "\<lambda>stmt. go_bind (go_wrap m2 (perform_e (DB (CSqlStmtQuery q a)) (d_StmtQuery (sqldb E) stmt a)))
     (\<lambda>res. go_bind (perform (DB CSqlRowsNext) (d_RowsNext (sqldb E) res)) (\<lambda>row. go_then (go_when (\<not> row) create) rest))"
  have leaf: "run_respects balances (perform_e (DB (CSqlStmtQuery q a)) g)"
      "run_respects balances (perform (DB CSqlRowsNext) h)" for g h
    by (auto simp: run_respects_def go_eval balanced_def balance_counts
        intro!: balances_logged split: prod.split sum.split)
  have body: "run_respects balances (?body stmt)" "no_crash (?body stmt)" for stmt
    by (intro run_intro leaf assms) (intro no_crash_intro assms)
  obtain p w where p: "d_Prepare (sqldb E) db q (world s) = (p, w)" by fastforce
  show "balances s (snd (unless_found E db q a m1 m2 create rest s))"
  proof (cases p)
    case (Inl e)
    with p show ?thesis
      by (simp add: unless_found_def go_eval balances_logged balanced_def balance_counts)
  next
    case (Inr stmt)
    let ?u = "log_call (DB (CSqlPrepare q)) True w s"
    obtain r v where v: "?body stmt ?u = (r, v)" by fastforce
    then have nc: "r \<noteq> Crash c" for c using no_crashD [OF body(2)] by metis
    have "snd (unless_found E db q a m1 m2 create rest s) =
        log_call (DB CSqlStmtClose) True (d_StmtClose (sqldb E) stmt (world v)) v"
      unfolding unless_found_def using p Inr defer_runs [where m = "?body stmt", OF v nc nc]
      by (simp add: go_bind_eval [of "go_wrap m1 ?prep"] go_wrap_eval perform_e_eval)
    moreover obtain new where "calls v = calls ?u @ new" "balanced new"
      using run_respectsD [OF body(1) v] by (auto simp: balances_def)
    ultimately show ?thesis
      by (auto simp: balances_def balanced_def balance_counts intro!: exI [of _ "(DB (CSqlPrepare q), True) # new @ [(DB CSqlStmtClose, True)]"])
  qed
qed

lemma create_databases_safe:
  "run_respects balances (create_databases E db dss) \<and> no_crash (create_databases E db dss)"
proof (induction dss)
  case (Cons ds dss)
  have "run_respects balances (go_ignore (run_query E db (create_database_stmt ds)))"
    and "no_crash (go_ignore (run_query E db (create_database_stmt ds)))"
    by (intro run_intro run_query_balances) (intro no_crash_intro)
  with Cons show ?case by (auto intro: unless_found_balances unless_found_no_crash)
qed (simp add: no_crash_leaf sql_balance.keep_return)

lemma create_users_safe:
  assumes "run_respects balances rest" and "no_crash rest"
  shows "run_respects balances (create_users E db us rest) \<and> no_crash (create_users E db us rest)"
proof (induction us)
  case (Cons su us)
  then show ?case
    by (auto intro!: unless_found_balances unless_found_no_crash create_user_balances create_user_no_crash)
qed (simp add: assms)

lemma session_body_balances:
  "\<exists>r u. go_bind (go_deref p) (\<lambda>(_, us). create_users E db us (create_databases E db dss)) s = (r, u) \<and>
     r \<noteq> Crash ProcessExit \<and> r \<noteq> Crash Blocked \<and> balances s u"
proof (cases p)
  case None
  then show ?thesis by (simp add: go_eval sql_balance.step_refl)
next
  case (Some q)
  obtain a us where q: "q = (a, us)" by (cases q)
  let ?m = "create_users E db us (create_databases E db dss)"
  have safe: "run_respects balances ?m" "no_crash ?m"
    using create_users_safe create_databases_safe by blast+
  obtain r u where "?m s = (r, u)" by fastforce
  with Some q run_respectsD [OF safe(1)] no_crashD [OF safe(2)] show ?thesis
    by (auto simp: go_bind_eval go_deref_eval)
qed

lemma sql_session_accounted:
  "\<exists>new. calls (snd (sql_session E r s)) = calls s @ new \<and> accounted new"
proof -
  let ?open = "d_Open (sqldb E) ''mysql'' (dsn_for r) (world s)"
  obtain q w where ow: "?open = (q, w)" by fastforce
  show ?thesis
  proof (cases q)
    case (Inl e)
    with ow show ?thesis
      by (simp add: sql_session_def go_eval accounted_def balance_counts)
  next
    case (Inr db)
    let ?s1 = "log_call (DB (CSqlOpen ''mysql'' (dsn_for r))) True w s"
    obtain p v where pv: "d_Ping (sqldb E) db w = (p, v)" by fastforce
    show ?thesis
    proof (cases p)
      case (Inl e)
      with ow Inr pv show ?thesis
        by (simp add: sql_session_def go_eval accounted_def balance_counts)
    next
      case (Inr u)
      let ?s2 = "log_call (DB CSqlPing) True v ?s1"
      let ?body = "go_bind (go_deref (spec_Users (rds_Spec r))) (\<lambda>(_, us).
        create_users E db us (create_databases E db (slice_elems (spec_Databases (rds_Spec r)))))"
      obtain o2 s3 where body: "?body ?s2 = (o2, s3)" "o2 \<noteq> Crash ProcessExit" "o2 \<noteq> Crash Blocked"
          "balances ?s2 s3"
        using session_body_balances by blast
      have "snd (sql_session E r s) = log_call (DB CSqlClose) True (d_Close (sqldb E) db (world s3)) s3"
        unfolding sql_session_def using ow \<open>q = Inr db\<close> pv Inr defer_runs [where m = ?body, OF body(1-3)]
        by (simp add: go_bind_eval [of "go_wrap _ _"] go_wrap_eval perform_e_eval go_then_eval)
      moreover obtain new where "calls s3 = calls ?s2 @ new" "balanced new"
        using body(4) by (auto simp: balances_def)
      ultimately show ?thesis
        by (auto simp: accounted_def balanced_def balance_counts
            intro!: exI [of _ "(DB (CSqlOpen ''mysql'' (dsn_for r)), True) # (DB CSqlPing, True) # new @
              [(DB CSqlClose, True)]"])
    qed
  qed
qed

text \<open>C25: whatever happens in \<open>CreateSqlUser\<close>, an error return in a loop and the panic of a nil
  \<open>Users\<close> pointer included, each statement that was prepared is closed once; and the database
  handle that was opened is closed once if it answers the ping, and never if it does not: the
  source defers \<open>Close\<close> only after the ping, so a failed ping leaks the handle.\<close>

theorem sql_resources_closed:
  "case CreateSqlUser E s of (r, t) \<Rightarrow>
     prepared (made s t) = stmts_closed (made s t) \<and> db_opened (made s t) \<le> 1 \<and>
     db_opened (made s t) = db_closed (made s t) + ping_failed (made s t)"
proof (cases "spec_Datastoretype (rds_Spec (newRds s)) = ''MySQL''")
  case True
  obtain new where "calls (snd (sql_session E (newRds s) s)) = calls s @ new" "accounted new"
    using sql_session_accounted by blast
  with True show ?thesis
    by (simp add: CreateSqlUser_session split_beta seen_same_calls accounted_def)
next
  case False
  then show ?thesis by (simp add: CreateSqlUser_session balance_counts)
qed

text \<open>A MySQL resource whose \<open>users\<close> field is absent (a nil pointer) never gets its databases:
  once the connection stands, dereferencing the pointer panics.\<close>

theorem sql_nil_users_panics:
  assumes "spec_Users (rds_Spec (newRds s)) = None" and "CreateSqlUser E s = (r, t)"
  shows "(r = Crash NilDeref) = (0 < db_closed (made s t)) \<and> r \<noteq> Ok () \<and>
    list_all (\<lambda>(c, _). c = DB CSqlPing \<or> c = DB CSqlClose \<or>
      c = DB (CSqlOpen ''mysql'' (dsn_for (newRds s)))) (made s t)"
  using assms
  by (auto simp: CreateSqlUser_def go_eval made_def balance_counts
      split: if_splits prod.splits sum.splits outcome.splits)

theorem sql_nil_users_panics_witness:
  "\<exists>t. CreateSqlUser demo_ext (demo_sys 1 (demo_rds ''id1'')) = (Crash NilDeref, t)"
proof -
  let ?s = "demo_sys 1 (demo_rds ''id1'')"
  obtain r t where run: "CreateSqlUser demo_ext ?s = (r, t)" by fastforce
  have "spec_Users (rds_Spec (newRds ?s)) = None" by (simp add: demo demo_spec_def zero_spec_def)
  from sql_nil_users_panics [OF this run]
  have "(r = Crash NilDeref) = (0 < db_closed (made ?s t))" by blast
  moreover have "db_closed (made ?s t) = 1"
    using run by (auto simp: CreateSqlUser_def demo balance_counts demo_spec_def zero_spec_def)
  ultimately show ?thesis using run by simp
qed

text \<open>A privilege that names an account (user, at sign, host), as the GRANT examples of the
  documentation and of the resource definition do, is never sent to the database.\<close>

theorem grant_with_account_refused:
  assumes "CHR ''@'' \<in> set pr"
  shows "grant_privilege E db pr s = (Ok (), s)"
proof -
  have "\<not> validGrant pr"
    using assms
    by (auto simp: validGrant_def list_all_iff is_alnum_def in_range_def intro!: bexI [of _ "CHR ''@''"])
  then show ?thesis by (simp add: grant_privilege_def go_eval)
qed

definition readme_grant :: string where
  "readme_grant = ''GRANT ALL ON project1.* TO '' @ sq @ ''app1'' @ sq @ ''@'' @ sq @ ''10.9.3.%'' @ sq"

theorem grant_with_account_refused_witness:
  "grant_privilege demo_ext 7 readme_grant (demo_sys 1 (demo_rds ''id1'')) = (Ok (), demo_sys 1 (demo_rds ''id1''))"
  by (rule grant_with_account_refused) (simp add: readme_grant_def)

end
