(* ===== verification/Go_Time.thy ===== *)
theory Go_Time
  imports Go_Strings
begin

text \<open>
  \<open>time.Parse\<close> for the layout \<open>time.RFC3339\<close> and \<open>Time.UnixMilli\<close>, from Go's standard library,
  which \<open>rdsUpdate\<close> applies to the restore time of a resource.  The parser is the general one
  of Go 1.21: two digits everywhere but in the hour, which may have one; a fraction of a second
  is accepted although the layout has none; offsets go up to 24 hours and 60 minutes.
  The time is kept as the seconds since 1970 and the nanoseconds, both unbounded here; the
  bounds at the end show that the 64-bit milliseconds do not overflow.
\<close>

section \<open>Reading digits\<close>

definition getnum :: "bool \<Rightarrow> string \<Rightarrow> (nat \<times> string) option" where
  "getnum fixed s = (case s of
      [] \<Rightarrow> None
    | a # rest \<Rightarrow>
        if \<not> is_digit a then None
        else (case rest of
            [] \<Rightarrow> if fixed then None else Some (digit_val a, rest)
          | b # rest' \<Rightarrow>
              if is_digit b then Some (digit_val a * 10 + digit_val b, rest')
              else if fixed then None else Some (digit_val a, rest)))"

definition getyear :: "string \<Rightarrow> (nat \<times> string) option" where
  "getyear s = (case s of
      a # b # c # d # rest \<Rightarrow>
        if is_digit a \<and> is_digit b \<and> is_digit c \<and> is_digit d
        then Some (((digit_val a * 10 + digit_val b) * 10 + digit_val c) * 10 + digit_val d, rest)
        else None
    | _ \<Rightarrow> None)"

definition skip_char :: "char \<Rightarrow> string \<Rightarrow> string option" where
  "skip_char c s = (case s of [] \<Rightarrow> None | a # rest \<Rightarrow> if a = c then Some rest else None)"

text \<open>Only nine digits of a fraction count; missing ones are zeros.\<close>

definition fraction_nanos :: "string \<Rightarrow> nat" where
  "fraction_nanos ds =
     (let d = take 9 ds in foldl (\<lambda>n c. n * 10 + digit_val c) 0 d * 10 ^ (9 - length d))"

definition getfraction :: "string \<Rightarrow> nat \<times> string" where
  "getfraction s = (case s of
      p # d # rest \<Rightarrow>
        if (p = CHR ''.'' \<or> p = CHR '','') \<and> is_digit d
        then (fraction_nanos (takeWhile is_digit (d # rest)), dropWhile is_digit (d # rest))
        else (0, s)
    | _ \<Rightarrow> (0, s))"

text \<open>The offset in seconds east of UTC.\<close>

definition getzone :: "string \<Rightarrow> (int \<times> string) option" where
  "getzone s = (case s of
      [] \<Rightarrow> None
    | c # rest \<Rightarrow>
        if c = CHR ''Z'' then Some (0, rest)
        else (case rest of
            h1 # h2 # colon # m1 # m2 # rest' \<Rightarrow>
              if colon \<noteq> CHR '':'' then None
              else (case (getnum True [h1, h2], getnum True [m1, m2]) of
                  (Some (hr, _), Some (mm, _)) \<Rightarrow>
                    if hr > 24 \<or> mm > 60 then None
                    else if c = CHR ''+'' then Some (int ((hr * 60 + mm) * 60), rest')
                    else if c = CHR ''-'' then Some (- int ((hr * 60 + mm) * 60), rest')
                    else None
                | _ \<Rightarrow> None)
          | _ \<Rightarrow> None))"

section \<open>The calendar\<close>

definition is_leap :: "nat \<Rightarrow> bool" where
  "is_leap y \<longleftrightarrow> y mod 4 = 0 \<and> (y mod 100 \<noteq> 0 \<or> y mod 400 = 0)"

definition days_in :: "nat \<Rightarrow> nat \<Rightarrow> nat" where
  "days_in month y = (if month = 2 then (if is_leap y then 29 else 28)
     else if month \<in> {4, 6, 9, 11} then 30 else 31)"

text \<open>Days from the first of January of year 0.\<close>

fun days_before_year :: "nat \<Rightarrow> nat" where
  "days_before_year y = 365 * y + (y + 3) div 4 - (y + 99) div 100 + (y + 399) div 400"

declare days_before_year.simps [simp del]

definition days_before_month :: "nat \<Rightarrow> nat \<Rightarrow> nat" where
  "days_before_month month y = sum_list (map (\<lambda>m. days_in m y) [1..<month])"

definition unix_days :: "nat \<Rightarrow> nat \<Rightarrow> nat \<Rightarrow> int" where
  "unix_days y month day =
     int (days_before_year y) + int (days_before_month month y) + int day - 1 - int (days_before_year 1970)"

section \<open>time.Parse and UnixMilli\<close>

record Time =
  t_seconds :: int
  t_nanos :: nat

definition check :: "bool \<Rightarrow> unit option" where
  "check b = (if b then Some () else None)"

definition parse_date :: "string \<Rightarrow> (nat \<times> nat \<times> nat \<times> string) option" where
  "parse_date value =
     Option.bind (getyear value) (\<lambda>(year, v1).
     Option.bind (skip_char (CHR ''-'') v1) (\<lambda>v2.
     Option.bind (getnum True v2) (\<lambda>(month, v3).
     Option.bind (check (0 < month \<and> month \<le> 12)) (\<lambda>_.
     Option.bind (skip_char (CHR ''-'') v3) (\<lambda>v4.
     Option.bind (getnum True v4) (\<lambda>(day, v5).
     Some (year, month, day, v5)))))))"

definition parse_clock :: "string \<Rightarrow> (nat \<times> nat \<times> nat \<times> string) option" where
  "parse_clock value =
     Option.bind (getnum False value) (\<lambda>(hour, v1).
     Option.bind (check (hour < 24)) (\<lambda>_.
     Option.bind (skip_char (CHR '':'') v1) (\<lambda>v2.
     Option.bind (getnum True v2) (\<lambda>(minute, v3).
     Option.bind (check (minute < 60)) (\<lambda>_.
     Option.bind (skip_char (CHR '':'') v3) (\<lambda>v4.
     Option.bind (getnum True v4) (\<lambda>(sec, v5).
     Option.bind (check (sec < 60)) (\<lambda>_.
     Some (hour, minute, sec, v5)))))))))"

definition ParseRFC3339 :: "string \<Rightarrow> Time option" where
  "ParseRFC3339 value =
     Option.bind (parse_date value) (\<lambda>(year, month, day, v1).
     Option.bind (skip_char (CHR ''T'') v1) (\<lambda>v2.
     Option.bind (parse_clock v2) (\<lambda>(hour, minute, sec, v3).
     let (nsec, v4) = getfraction v3 in
     Option.bind (getzone v4) (\<lambda>(zone, v5).
     Option.bind (check (v5 = [] \<and> 1 \<le> day \<and> day \<le> days_in month year)) (\<lambda>_.
     Some \<lparr>t_seconds = unix_days year month day * 86400 + int (hour * 3600 + minute * 60 + sec) - zone,
           t_nanos = nsec\<rparr>)))))"

definition UnixMilli :: "Time \<Rightarrow> int" where
  "UnixMilli t = t_seconds t * 1000 + int (t_nanos t) div 1000000"

named_theorems time_eval "the parser's definitions"

lemmas [time_eval] = ParseRFC3339_def parse_date_def parse_clock_def getyear_def getnum_def skip_char_def
  getzone_def getfraction_def fraction_nanos_def check_def is_digit_def digit_val_def unix_days_def
  days_before_year.simps days_before_month_def days_in_def is_leap_def UnixMilli_def upt_rec Let_def

lemma parse_example:
  "ParseRFC3339 ''2020-04-04T22:08:41+00:00'' = Some \<lparr>t_seconds = 1586038121, t_nanos = 0\<rparr>"
  by (simp add: time_eval)

lemma parse_zone_example:
  "map_option UnixMilli (ParseRFC3339 ''2024-02-29T1:30:00.25-02:00'') = Some 1709177400250"
  by (simp add: time_eval)

lemma parse_day_out_of_range: "ParseRFC3339 ''2023-02-29T00:00:00Z'' = None"
  by (simp add: time_eval)

section \<open>The calendar is consistent\<close>

lemma days_before_month_Suc:
  "1 \<le> m \<Longrightarrow> days_before_month (Suc m) y = days_before_month m y + days_in m y"
  by (simp add: days_before_month_def)

lemma round_up_Suc:
  assumes "0 < k"
  shows "Suc (y + (k - 1)) div k = (y + (k - 1)) div k + (if y mod k = 0 then 1 else 0)"
proof -
  have "Suc (y + (k - 1)) = y + k" using assms by simp
  then have "Suc (y + (k - 1)) mod k = y mod k" by simp
  then show ?thesis by (simp add: div_Suc)
qed

lemma days_before_year_Suc:
  "days_before_year (Suc y) = days_before_year y + (if is_leap y then 366 else 365)"
proof -
  let ?a = "(y + 3) div 4" and ?b = "(y + 99) div 100" and ?c = "(y + 399) div 400"
  have steps: "(Suc y + 3) div 4 = ?a + (if y mod 4 = 0 then 1 else 0)"
    "(Suc y + 99) div 100 = ?b + (if y mod 100 = 0 then 1 else 0)"
    "(Suc y + 399) div 400 = ?c + (if y mod 400 = 0 then 1 else 0)"
    using round_up_Suc [of 4 y] round_up_Suc [of 100 y] round_up_Suc [of 400 y] by simp_all
  have sub: "?b \<le> 365 * y + ?a"
    using div_le_dividend [of "y + 99" 100] by (cases "y = 0") simp_all
  have "(100::nat) dvd 400" and "(4::nat) dvd 100" by simp_all
  then have "y mod 400 = 0 \<longrightarrow> y mod 100 = 0" and "y mod 100 = 0 \<longrightarrow> y mod 4 = 0"
    unfolding mod_eq_0_iff_dvd by (meson dvd_trans)+
  then show ?thesis
    unfolding days_before_year.simps steps is_leap_def using sub by (auto simp: ac_simps)
qed

lemma days_of_year: "days_before_month 13 y = (if is_leap y then 366 else 365)"
  by (simp add: days_before_month_def days_in_def upt_rec)

text \<open>The day after the last of a month is the first of the next, and likewise for years.\<close>

lemma unix_days_next_month:
  "1 \<le> m \<Longrightarrow> unix_days y m (days_in m y) + 1 = unix_days y (Suc m) 1"
  by (simp add: unix_days_def days_before_month_Suc)

lemma unix_days_next_year: "unix_days y 12 31 + 1 = unix_days (Suc y) 1 1"
proof -
  have "days_before_month 13 y = days_before_month 12 y + days_in 12 y"
    using days_before_month_Suc [of 12 y] by simp
  then have "days_before_month 12 y + 31 = (if is_leap y then 366 else 365)"
    by (simp add: days_of_year days_in_def)
  then show ?thesis
    unfolding unix_days_def days_before_year_Suc by (simp add: days_before_month_def split: if_splits)
qed

section \<open>Bounds\<close>

lemma digit_val_le: "is_digit c \<Longrightarrow> digit_val c \<le> 9"
  unfolding is_digit_def digit_val_def by linarith

lemma getyear_bound: "getyear s = Some (y, r) \<Longrightarrow> y < 10000"
  by (auto simp: getyear_def split: list.splits if_splits dest!: digit_val_le)

lemma parse_date_bound: "parse_date s = Some (y, m, d, r) \<Longrightarrow> y < 10000 \<and> 1 \<le> m \<and> m \<le> 12"
  using getyear_bound [of s y] by (auto simp: parse_date_def check_def split: bind_splits if_splits)

lemma parse_clock_bound:
  "parse_clock s = Some (h, m, sec, r) \<Longrightarrow> h < 24 \<and> m < 60 \<and> sec < 60"
  by (auto simp: parse_clock_def check_def split: bind_splits if_splits)

lemma getzone_bound: "getzone s = Some (z, r) \<Longrightarrow> \<bar>z\<bar> \<le> 90000"
  by (auto simp: getzone_def split: list.splits if_splits option.splits)

lemma fraction_bound:
  assumes "list_all is_digit ds"
  shows "fraction_nanos ds < 10 ^ 9"
proof -
  have read: "foldl (\<lambda>n c. n * 10 + digit_val c) 0 d < 10 ^ length d" if "list_all is_digit d" for d
    using that
  proof (induction d rule: rev_induct)
    case (snoc c d)
    then have "foldl (\<lambda>n c. n * 10 + digit_val c) 0 d < 10 ^ length d" "digit_val c \<le> 9"
      by (auto intro: digit_val_le)
    then show ?case by simp
  qed simp
  let ?d = "take 9 ds"
  have "list_all is_digit ?d" using assms by (metis append_take_drop_id list_all_append)
  from read [OF this] have "fraction_nanos ds < 10 ^ length ?d * 10 ^ (9 - length ?d)"
    by (simp add: fraction_nanos_def Let_def)
  also have "\<dots> = 10 ^ 9" by (simp flip: power_add)
  finally show ?thesis .
qed

lemma getfraction_bound: "getfraction s = (n, r) \<Longrightarrow> n < 10 ^ 9"
  using fraction_bound
  by (auto simp: getfraction_def list_all_iff dest: set_takeWhileD split: list.splits if_splits)
    (metis list.set_intros(1) set_ConsD set_takeWhileD)+

lemma days_in_le: "days_in m y \<le> 31"
  by (simp add: days_in_def)

lemma days_before_month_bound: "m \<le> 12 \<Longrightarrow> days_before_month m y \<le> 31 * 12"
proof -
  assume "m \<le> 12"
  have "sum_list (map (\<lambda>m. days_in m y) ms) \<le> 31 * length ms" for ms
  proof (induction ms)
    case (Cons a ms)
    then show ?case using days_in_le [of a y] by simp
  qed simp
  from this [of "[1..<m]"] \<open>m \<le> 12\<close> show ?thesis by (simp add: days_before_month_def)
qed

lemma unix_days_bound:
  assumes "y < 10000" and "m \<le> 12" and "d \<le> 31"
  shows "\<bar>unix_days y m d\<bar> \<le> 4000000"
proof -
  have "days_before_year y \<le> 3700000" using assms(1) by (simp add: days_before_year.simps)
  with days_before_month_bound [OF assms(2), of y] assms(3) show ?thesis
    by (simp add: unix_days_def days_before_year.simps [of 1970])
qed

lemma restore_seconds_bound:
  assumes "ParseRFC3339 value = Some t"
  shows "\<bar>t_seconds t\<bar> \<le> 400000000000 \<and> t_nanos t < 10 ^ 9"
proof -
  from assms obtain y m d v1 v2 h mi sec v3 nsec v4 z v5 where
    parts: "parse_date value = Some (y, m, d, v1)" "parse_clock v2 = Some (h, mi, sec, v3)"
      "getfraction v3 = (nsec, v4)" "getzone v4 = Some (z, v5)" "d \<le> days_in m y"
    and t: "t_seconds t = unix_days y m d * 86400 + int (h * 3600 + mi * 60 + sec) - z" "t_nanos t = nsec"
    by (auto simp: ParseRFC3339_def check_def Let_def split: bind_splits if_splits prod.splits)
  have "days_in m y \<le> 31" by (rule days_in_le)
  with parts have "\<bar>unix_days y m d\<bar> \<le> 4000000"
    using parse_date_bound [OF parts(1)] by (intro unix_days_bound) auto
  moreover have "h < 24 \<and> mi < 60 \<and> sec < 60" by (rule parse_clock_bound [OF parts(2)])
  moreover have "\<bar>z\<bar> \<le> 90000" by (rule getzone_bound [OF parts(4)])
  moreover have "int (h * 3600 + mi * 60 + sec) = int h * 3600 + int mi * 60 + int sec" by simp
  ultimately have "\<bar>t_seconds t\<bar> \<le> 400000000000" unfolding t(1) by linarith
  with getfraction_bound [OF parts(3)] t(2) show ?thesis by simp
qed

text \<open>The milliseconds of a time that is accepted are in the range of \<open>int64\<close>, so \<open>UnixMilli\<close> does
  not wrap around.\<close>

lemma UnixMilli_bound:
  assumes "ParseRFC3339 value = Some t"
  shows "- (2 ^ 63) \<le> UnixMilli t" and "UnixMilli t < 2 ^ 63"
proof -
  have "int (t_nanos t) div 1000000 \<le> int (t_nanos t)" by simp
  with restore_seconds_bound [OF assms] have "- (2 ^ 63) \<le> UnixMilli t \<and> UnixMilli t < 2 ^ 63"
    by (simp add: UnixMilli_def) linarith
  then show "- (2 ^ 63) \<le> UnixMilli t" and "UnixMilli t < 2 ^ 63" by simp_all
qed

end
