(* ===== verification/Rds_Update.thy ===== *)
theory Rds_Update
  imports Alarm Rds_Create Log_Job Sql_User Go_Time Trace_Logic
begin

text \<open>
  \<open>rdsUpdate\<close> and \<open>Update\<close> of \<open>pkg/controller/resource.go\<close>.  The source is one function of
  eight phases; here each phase is a definition, and \<open>rdsUpdate\<close> composes them in the order of
  the source.  The first two compare the specification with the instance the cloud lists, which
  the source writes into \<open>oldRds\<close>.  The lemmas give the calls and the frame of each phase and from
  them what an update may ask of the cloud, and that a reboot and a restore are asked for once.
\<close>

section \<open>The common end of a phase\<close>

text \<open>Read the instance, copy its state, write the status.\<close>

definition refresh_status :: "'w Ext \<Rightarrow> handle \<Rightarrow> ('w sys, unit) go" where
  "refresh_status E client =
     go_bind (go_get newRds) (\<lambda>r.
     go_bind (go_wrap ''error getting rds by id: '' (rdsGetById E client (status_Id (rds_Status r)))) (\<lambda>p.
     go_bind (go_deref p) (\<lambda>rdsInstance.
     go_then (modify_status (\<lambda>st. st\<lparr>status_Status := inst_Status rdsInstance\<rparr>))
       (go_wrap ''error update rds status: '' (UpdateStatus E)))))"

section \<open>The phases\<close>

definition enlarge_volume :: "'w Ext \<Rightarrow> handle \<Rightarrow> ('w sys, unit) go" where
  "enlarge_volume E client =
     go_bind (go_get oldRds) (\<lambda>old.
     go_bind (go_get newRds) (\<lambda>r.
     go_when (spec_Volumesize (rds_Spec old) <s spec_Volumesize (rds_Spec r))
       (let size = spec_Volumesize (rds_Spec r); i = status_Id (rds_Status r) in
        go_then (Eventf E EventTypeNormal ''Update'' (''This instance is enlarging to '' @ Itoa64 size))
       (go_bind (perform_res (RDS (CRdsEnlarge size i)) (o_EnlargeVolume (otc E) client size i)) (\<lambda>enlargeResult.
        case res_Err enlargeResult of
          Some e \<Rightarrow> go_fail (errorf ''error rds api for enlarge: '' e)
        | None \<Rightarrow>
            go_then (go_wrap ''error enlarge rds: '' (go_lift (o_ExtractEnlarge (otc E) enlargeResult)))
           (go_bind (go_wrap ''error creating rds enlarge job: '' (go_lift (o_ExtractJob (otc E) enlargeResult)))
              (\<lambda>jobID.
            go_then (go_wrap ''error getting rds enlarge job: '' (WaitForJobCompleted E client jobID))
              (refresh_status E client))))))))"

definition change_flavor :: "'w Ext \<Rightarrow> handle \<Rightarrow> ('w sys, unit) go" where
  "change_flavor E client =
     go_bind (go_get oldRds) (\<lambda>old.
     go_bind (go_get newRds) (\<lambda>r.
     go_when (spec_Flavorref (rds_Spec old) \<noteq> spec_Flavorref (rds_Spec r))
       (let flavor = spec_Flavorref (rds_Spec r); i = status_Id (rds_Status r) in
        go_then (Eventf E EventTypeNormal ''Update'' (''This instance is scaling to '' @ flavor))
       (go_bind (perform_res (RDS (CRdsResize flavor i)) (o_Resize (otc E) client flavor i)) (\<lambda>resizeResult.
        case res_Err resizeResult of
          Some e \<Rightarrow> go_fail (errorf ''error rds api for resize: '' e)
        | None \<Rightarrow>
            go_then (go_wrap ''error resizing rds: '' (go_lift (o_ExtractResize (otc E) resizeResult)))
           (go_bind (go_wrap ''error creating rds resize job: '' (go_lift (o_ExtractJob (otc E) resizeResult)))
              (\<lambda>jobID.
            go_then (go_wrap ''error getting rds resize job: '' (WaitForJobCompleted E client jobID))
              (refresh_status E client))))))))"

definition restart_instance :: "'w Ext \<Rightarrow> handle \<Rightarrow> ('w sys, unit) go" where
  "restart_instance E client =
     go_bind (go_get newRds) (\<lambda>r.
     go_when (status_Reboot (rds_Status r))
       (go_then (modify_status (\<lambda>st. st\<lparr>status_Reboot := False\<rparr>))
       (go_then (go_wrap ''error update rds status: '' (UpdateStatus E))
       (go_then (Eventf E EventTypeNormal ''Update'' ''This instance is rebooting.'')
       (let i = status_Id (rds_Status r) in
        go_bind (perform_res (RDS (CRdsRestart i)) (o_Restart (otc E) client i)) (\<lambda>res.
        go_bind (go_wrap ''error rebooting rds: '' (go_lift (o_ExtractRestart (otc E) res))) (\<lambda>jobID.
        go_then (go_wrap ''error getting rds restart job: '' (WaitForJobCompleted E client jobID))
          (refresh_status E client))))))))"

text \<open>The error of \<open>time.Parse\<close> quotes the value; its further text is left out.\<close>

definition parse_error :: "string \<Rightarrow> gerror" where
  "parse_error v = new_error (''parsing time '' @ v)"

definition restore_opts :: "Rds \<Rightarrow> Time \<Rightarrow> RestorePITROpts" where
  "restore_opts r date =
     \<lparr>ro_SourceInstanceID = status_Id (rds_Status r), ro_RestoreTime = UnixMilli date,
      ro_Type = ''timestamp'', ro_TargetInstanceID = status_Id (rds_Status r)\<rparr>"

text \<open>The part of the phase behind the parsing.\<close>

definition restore_to :: "'w Ext \<Rightarrow> handle \<Rightarrow> RestorePITROpts \<Rightarrow> ('w sys, unit) go" where
  "restore_to E client opts =
     go_then (modify_new (\<lambda>r. r\<lparr>rds_Spec := (rds_Spec r)\<lparr>spec_Backuprestoretime := ''''\<rparr>\<rparr>))
    (go_then (go_wrap ''error update rds status: '' (UpdateStatus E))
    (go_bind (perform_res (RDS (CRestorePITR opts)) (o_RestorePITR (otc E) client opts)) (\<lambda>restoreResult.
       case res_Err restoreResult of
         Some e \<Rightarrow> go_fail (errorf ''rds restore failed: '' e)
       | None \<Rightarrow>
           go_then (refresh_status E client)
          (go_bind (go_wrap ''can't get rds restore job: '' (go_lift (o_ExtractJob (otc E) restoreResult)))
             (\<lambda>jobID.
           go_then (go_wrap ''error rds restore job: '' (WaitForJobCompleted E client jobID))
             (refresh_status E client))))))"

definition restore_backup :: "'w Ext \<Rightarrow> handle \<Rightarrow> ('w sys, unit) go" where
  "restore_backup E client =
     go_bind (go_get newRds) (\<lambda>r.
     go_when (spec_Backuprestoretime (rds_Spec r) \<noteq> [])
       (let v = spec_Backuprestoretime (rds_Spec r) in
        go_then (Eventf E EventTypeNormal ''Update'' (''This instance is restoring to '' @ v))
       (case ParseRFC3339 v of
          None \<Rightarrow> go_fail (errorf ''can't parse rds restore time: '' (parse_error v))
        | Some rdsRestoredate \<Rightarrow> restore_to E client (restore_opts r rdsRestoredate))))"

definition sync_sql_users :: "'w Ext \<Rightarrow> ('w sys, unit) go" where
  "sync_sql_users E =
     go_bind (go_get oldRds) (\<lambda>old.
     go_bind (go_get newRds) (\<lambda>r.
     go_when (slice_len (spec_Databases (rds_Spec old)) \<noteq> slice_len (spec_Databases (rds_Spec r)) \<or>
              users_ptr_neq (spec_Users (rds_Spec old)) (spec_Users (rds_Spec r)))
       (go_wrap ''error CreateSqlUser: '' (CreateSqlUser E))))"

definition set_autopilot :: "'w Ext \<Rightarrow> handle \<Rightarrow> ('w sys, unit) go" where
  "set_autopilot E client =
     go_bind (go_get newRds) (\<lambda>r.
     go_when (spec_Endpoint (rds_Spec r) \<noteq> '''' \<and> \<not> status_Autopilot (rds_Status r))
       (go_then (Eventf E EventTypeNormal ''Update'' ''This instance set autopilot.'')
       (go_then (modify_status (\<lambda>st. st\<lparr>status_Autopilot := True\<rparr>))
       (go_then (go_wrap ''error update rds status for autopilot: '' (UpdateStatus E))
       (go_bind (go_wrap ''error getting rds by id: '' (rdsGetById E client (status_Id (rds_Status r)))) (\<lambda>p.
        go_bind (go_deref p) (\<lambda>rdsInstance.
        go_bind (go_index (inst_Nodes rdsInstance) 0) (\<lambda>node.
        go_wrap ''error creating alarm: ''
          (CreateAlarm E node (spec_Endpoint (rds_Spec r)) (rds_Name r) (rds_Namespace r))))))))))"

section \<open>rdsUpdate and Update\<close>

text \<open>What the cloud lists for the resource replaces the old size and flavor.\<close>

definition recheck_spec :: "'w Ext \<Rightarrow> handle \<Rightarrow> ('w sys, unit) go" where
  "recheck_spec E client =
     go_bind (go_get newRds) (\<lambda>r.
     go_bind (go_wrap ''error getting rdsGetByName: ''
               (rdsGetByName E client (rds_Name r) (rds_Namespace r))) (\<lambda>p.
     go_bind (go_deref p) (\<lambda>rdsInstance.
     go_modify (\<lambda>s. s\<lparr>oldRds := (oldRds s)\<lparr>rds_Spec := (rds_Spec (oldRds s))
       \<lparr>spec_Volumesize := inst_VolumeSize rdsInstance, spec_Flavorref := inst_FlavorRef rdsInstance\<rparr>\<rparr>\<rparr>))))"

text \<open>The log fetch returns from the function; only without it are the last two phases reached.\<close>

definition update_rest :: "'w Ext \<Rightarrow> handle \<Rightarrow> ('w sys, unit) go" where
  "update_rest E client =
     go_bind (go_get newRds) (\<lambda>r.
     if status_Logs (rds_Status r) then fetch_logs E
     else go_then (sync_sql_users E) (set_autopilot E client))"

definition rdsUpdate :: "'w Ext \<Rightarrow> handle \<Rightarrow> ('w sys, unit) go" where
  "rdsUpdate E client =
     go_bind (go_get newRds) (\<lambda>r.
     if status_Id (rds_Status r) = ''''
     then go_fail (new_error ''rdsUpdate failed, Rds.Status.Id is empty'')
     else go_then (recheck_spec E client)
         (go_then (enlarge_volume E client)
         (go_then (change_flavor E client)
         (go_then (restart_instance E client)
         (go_then (restore_backup E client)
           (update_rest E client))))))"

definition Update :: "'w Ext \<Rightarrow> ('w sys, unit) go" where
  "Update E =
     go_bind (go_wrap ''unable to initialize provider: '' (GetProvider E)) (\<lambda>provider.
     go_bind (go_wrap ''unable to initialize rds client: '' (NewClient E RDSV3 provider)) (\<lambda>rdsapi.
     go_wrap ''rds update failed: '' (rdsUpdate E rdsapi)))"

section \<open>What the phases leave alone\<close>

text \<open>
  \<open>upd_view\<close>: what decides the cloud requests of an update.  The address, the state and the
  two flags of the last phases are left out; every piece of a phase but the two assignments
  that clear a request keeps the view.
\<close>

definition update_core :: "Rds \<Rightarrow> Rds" where
  "update_core r = r\<lparr>rds_Status := (rds_Status r)\<lparr>status_Ip := '''', status_Status := '''',
     status_Logs := False, status_Autopilot := False\<rparr>\<rparr>"

definition upd_view :: "'w sys \<Rightarrow> (go_int \<times> string) \<times> Rds" where
  "upd_view s = ((spec_Volumesize (rds_Spec (oldRds s)), spec_Flavorref (rds_Spec (oldRds s))),
     update_core (newRds s))"

lemma upd_view_log [simp]: "upd_view (log_call c ok w s) = upd_view s"
  by (simp add: upd_view_def)

lemma update_core_resource_core: "update_core (resource_core r) = update_core r"
  by (simp add: update_core_def resource_core_def)

lemma UpdateStatus_view [uses_intro]: "run_respects (same_field upd_view) (UpdateStatus E)"
proof (rule run_respectsI)
  fix s
  obtain r t where run: "UpdateStatus E s = (r, t)" by fastforce
  have "resource_core (newRds t) = resource_core (newRds s)"
    by (rule status_write.write_core_eq [OF run])
  then have "update_core (newRds t) = update_core (newRds s)"
    by (metis update_core_resource_core)
  moreover have "oldRds t = oldRds s" by (rule status_write.write_keeps_old [OF run])
  ultimately show "same_field upd_view s (snd (UpdateStatus E s))"
    using run by (simp add: same_field_def upd_view_def)
qed

lemma modify_status_view [uses_intro]:
  assumes "\<And>st. (f st)\<lparr>status_Ip := '''', status_Status := '''', status_Logs := False, status_Autopilot := False\<rparr>
     = st\<lparr>status_Ip := '''', status_Status := '''', status_Logs := False, status_Autopilot := False\<rparr>"
  shows "run_respects (same_field upd_view) (modify_status f)"
  by (simp add: run_respects_def same_field_def modify_status_def modify_new_def go_eval
      upd_view_def update_core_def assms)

lemma refresh_status_view: "run_respects (same_field upd_view) (refresh_status E client)"
  unfolding refresh_status_def by (intro run_intro uses_intro) simp_all

section \<open>Which calls the phases make\<close>

text \<open>The requests that change something in the RDS service.\<close>

fun mutation :: "call \<Rightarrow> RdsCall option" where
  "mutation (RDS (CRdsList o1)) = None"
| "mutation (RDS (CWaitJob n j)) = None"
| "mutation (RDS (CWaitBackup i b)) = None"
| "mutation (RDS (CFlavorList a b)) = None"
| "mutation (RDS c) = Some c"
| "mutation c = None"

lemma status_call_harmless: "status_call c \<Longrightarrow> mutation c = None"
  by (cases c rule: status_call.cases) auto

lemma log_call_harmless: "log_call_kind c \<Longrightarrow> mutation c = None"
  by (cases c rule: log_call_kind.cases) (auto dest: status_call_harmless)

lemma sql_call_harmless: "sql_call P c \<Longrightarrow> mutation c = None"
  by (cases "(P, c)" rule: sql_call.cases) auto

lemma alarm_call_harmless: "create_alarm_call c \<Longrightarrow> mutation c = None"
  by (cases c rule: create_alarm_call.cases) auto

lemmas harmless_parts = status_write.write_uses_in [OF status_call_harmless]
  uses_mono [OF fetch_logs_uses log_call_harmless]
  uses_mono [OF CreateSqlUser_uses sql_call_harmless]
  uses_mono [OF CreateAlarm_uses alarm_call_harmless]

lemma refresh_status_harmless: "uses (\<lambda>c. mutation c = None) (refresh_status E client)"
  unfolding refresh_status_def by (intro run_intro uses_intro harmless_parts) simp_all

lemma update_rest_harmless: "uses (\<lambda>c. mutation c = None) (update_rest E client)"
  unfolding update_rest_def sync_sql_users_def set_autopilot_def
  by (intro run_intro uses_intro harmless_parts) simp_all

lemma wait_job_parts [uses_intro]:
  "K (RDS (CWaitJob 1800 j)) \<Longrightarrow> uses K (WaitForJobCompleted E client j)"
  "(\<And>c ok w s. fld (log_call c ok w s) = fld s) \<Longrightarrow>
     run_respects (same_field fld) (WaitForJobCompleted E client j)"
  unfolding WaitForJobCompleted_def by (intro uses_intro; simp)+

section \<open>The plan of an update\<close>

definition enlarge_plan :: "(go_int \<times> string) \<times> Rds \<Rightarrow> RdsCall list" where
  "enlarge_plan = (\<lambda>((vol, flav), r).
     if vol <s spec_Volumesize (rds_Spec r)
     then [CRdsEnlarge (spec_Volumesize (rds_Spec r)) (status_Id (rds_Status r))] else [])"

definition resize_plan :: "(go_int \<times> string) \<times> Rds \<Rightarrow> RdsCall list" where
  "resize_plan = (\<lambda>((vol, flav), r).
     if flav \<noteq> spec_Flavorref (rds_Spec r)
     then [CRdsResize (spec_Flavorref (rds_Spec r)) (status_Id (rds_Status r))] else [])"

definition restart_plan :: "Rds \<Rightarrow> RdsCall list" where
  "restart_plan r = (if status_Reboot (rds_Status r) then [CRdsRestart (status_Id (rds_Status r))] else [])"

definition restore_plan :: "Rds \<Rightarrow> RdsCall list" where
  "restore_plan r =
     (if spec_Backuprestoretime (rds_Spec r) \<noteq> ''''
      then (case ParseRFC3339 (spec_Backuprestoretime (rds_Spec r)) of
              None \<Rightarrow> [] | Some d \<Rightarrow> [CRestorePITR (restore_opts r d)])
      else [])"

definition update_plan :: "RdsInstanceResponse \<Rightarrow> Rds \<Rightarrow> RdsCall list" where
  "update_plan inst r =
     (let v = ((inst_VolumeSize inst, inst_FlavorRef inst), r)
      in enlarge_plan v @ resize_plan v @ restart_plan r @ restore_plan r)"

abbreviation view_is :: "(go_int \<times> string) \<times> Rds \<Rightarrow> 'w sys \<Rightarrow> bool" where
  "view_is v s \<equiv> upd_view s = v"

lemma quiet:
  "uses (\<lambda>c. mutation c = None) m \<Longrightarrow> run_respects (same_field upd_view) m \<Longrightarrow>
     traces mutation (view_is v) m [] (\<lambda>_. view_is v)"
  by (rule traces_silent_frame [where g = upd_view])

lemma one_request:
  assumes "mutation c = Some x"
    and "uses (\<lambda>c. mutation c = None) pre" and "run_respects (same_field upd_view) pre"
    and "\<And>res. uses (\<lambda>c. mutation c = None) (tail res)" and "\<And>res. run_respects (same_field upd_view) (tail res)"
  shows "traces mutation (view_is v) (go_then pre (go_bind (perform_res c h) tail)) [x] (\<lambda>_. view_is v)"
proof -
  have call: "traces mutation (view_is v) (perform_res c h) [x] (\<lambda>_. view_is v)"
    by (rule traces_call) (simp_all add: assms(1))
  have "traces mutation (view_is v) (go_bind (perform_res c h) tail) ([x] @ []) (\<lambda>_. view_is v)"
    by (rule traces_bind [OF call]) (rule quiet [OF assms(4,5)])
  from traces_then [OF quiet [OF assms(2,3)] this] show ?thesis by simp
qed

lemma view_fields:
  assumes "upd_view s = ((vol, flav), r)"
  shows "spec_Volumesize (rds_Spec (oldRds s)) = vol" and "spec_Flavorref (rds_Spec (oldRds s)) = flav"
    and "rds_Spec (newRds s) = rds_Spec r" and "status_Id (rds_Status (newRds s)) = status_Id (rds_Status r)"
    and "status_Reboot (rds_Status (newRds s)) = status_Reboot (rds_Status r)"
  using assms by (auto simp: upd_view_def update_core_def)

lemma enlarge_traces:
  "traces mutation (view_is v) (enlarge_volume E client) (enlarge_plan v) (\<lambda>_. view_is v)"
proof -
  obtain vol flav r where v: "v = ((vol, flav), r)" by (metis prod.collapse)
  show ?thesis
    unfolding enlarge_volume_def enlarge_plan_def v prod.case
    apply (rule traces_get)
    apply (rule traces_get)
    subgoal for s0 s1
      apply (simp only: view_fields [of s0] view_fields [of s1] Let_def)
      apply (rule traces_when)
       apply (rule one_request)
           apply simp
          apply (intro run_intro uses_intro; simp)
         apply (intro run_intro uses_intro; simp)
        apply (intro run_intro uses_intro refresh_status_harmless; simp)
       apply (intro run_intro uses_intro refresh_status_view; simp)
      apply simp
      done
    done
qed

lemma resize_traces:
  "traces mutation (view_is v) (change_flavor E client) (resize_plan v) (\<lambda>_. view_is v)"
proof -
  obtain vol flav r where v: "v = ((vol, flav), r)" by (metis prod.collapse)
  show ?thesis
    unfolding change_flavor_def resize_plan_def v prod.case
    apply (rule traces_get)
    apply (rule traces_get)
    subgoal for s0 s1
      apply (simp only: view_fields [of s0] view_fields [of s1] Let_def)
      apply (rule traces_when)
       apply (rule one_request)
           apply simp
          apply (intro run_intro uses_intro; simp)
         apply (intro run_intro uses_intro; simp)
        apply (intro run_intro uses_intro refresh_status_harmless; simp)
       apply (intro run_intro uses_intro refresh_status_view; simp)
      apply simp
      done
    done
qed

definition no_reboot :: "Rds \<Rightarrow> Rds" where
  "no_reboot r = r\<lparr>rds_Status := (rds_Status r)\<lparr>status_Reboot := False\<rparr>\<rparr>"

lemma no_reboot_same: "\<not> status_Reboot (rds_Status r) \<Longrightarrow> no_reboot r = r"
  by (simp add: no_reboot_def)

lemma clear_reboot_traces:
  "traces mutation (view_is (w, r)) (modify_status (\<lambda>st. st\<lparr>status_Reboot := False\<rparr>)) []
     (\<lambda>_. view_is (w, no_reboot r))"
proof (rule traces_silent)
  show "uses (\<lambda>c. mutation c = None) (modify_status (\<lambda>st. st\<lparr>status_Reboot := False\<rparr>))"
    by (intro uses_intro)
qed (auto simp: modify_status_def modify_new_def go_eval upd_view_def update_core_def no_reboot_def)

lemma update_status_traces:
  "traces mutation (view_is v) (go_wrap msg (UpdateStatus E)) [] (\<lambda>_. view_is v)"
  by (intro quiet run_intro uses_intro harmless_parts)

lemma restart_traces:
  "traces mutation (view_is (w, r)) (restart_instance E client) (restart_plan r)
     (\<lambda>_. view_is (w, no_reboot r))"
proof -
  obtain vol flav where w: "w = (vol, flav)" by (metis prod.collapse)
  let ?i = "status_Id (rds_Status r)"
  let ?tail = "\<lambda>res. go_bind (go_wrap ''error rebooting rds: '' (go_lift (o_ExtractRestart (otc E) res))) (\<lambda>jobID.
        go_then (go_wrap ''error getting rds restart job: '' (WaitForJobCompleted E client jobID))
          (refresh_status E client))"
  let ?body = "go_then (Eventf E EventTypeNormal ''Update'' ''This instance is rebooting.'')
    (go_bind (perform_res (RDS (CRdsRestart ?i)) (o_Restart (otc E) client ?i)) ?tail)"
  have body: "traces mutation (view_is v) ?body [CRdsRestart ?i] (\<lambda>_. view_is v)" for v
    by (rule one_request) (simp | intro run_intro uses_intro refresh_status_harmless refresh_status_view; simp)+
  have all: "traces mutation (view_is (w, r)) (go_then (modify_status (\<lambda>st. st\<lparr>status_Reboot := False\<rparr>))
     (go_then (go_wrap ''error update rds status: '' (UpdateStatus E)) ?body)) ([] @ [] @ [CRdsRestart ?i])
     (\<lambda>_. view_is (w, no_reboot r))"
    by (rule traces_then [OF clear_reboot_traces traces_then [OF update_status_traces body]])
  show ?thesis
    unfolding restart_instance_def restart_plan_def
    apply (rule traces_get)
    subgoal for s0
      apply (simp only: view_fields [of s0 vol flav r] w Let_def)
      apply (rule traces_when)
       apply (use all w in simp)
      apply (simp add: no_reboot_same)
      done
    done
qed

definition no_restore :: "Rds \<Rightarrow> Rds" where
  "no_restore r = r\<lparr>rds_Spec := (rds_Spec r)\<lparr>spec_Backuprestoretime := ''''\<rparr>\<rparr>"

lemma clear_restore_traces:
  "traces mutation (view_is (w, r))
     (modify_new (\<lambda>r. r\<lparr>rds_Spec := (rds_Spec r)\<lparr>spec_Backuprestoretime := ''''\<rparr>\<rparr>)) []
     (\<lambda>_. view_is (w, no_restore r))"
proof (rule traces_silent)
  show "uses (\<lambda>c. mutation c = None)
     (modify_new (\<lambda>r. r\<lparr>rds_Spec := (rds_Spec r)\<lparr>spec_Backuprestoretime := ''''\<rparr>\<rparr>))"
    by (intro uses_intro)
qed (auto simp: modify_new_def go_eval upd_view_def update_core_def no_restore_def)

lemma restore_to_traces:
  "traces mutation (view_is (w, r)) (restore_to E client opts) [CRestorePITR opts]
     (\<lambda>_. view_is (w, no_restore r))"
proof -
  have "traces mutation (view_is v) (go_then (go_wrap ''error update rds status: '' (UpdateStatus E))
    (go_bind (perform_res (RDS (CRestorePITR opts)) (o_RestorePITR (otc E) client opts)) (\<lambda>restoreResult.
       case res_Err restoreResult of
         Some e \<Rightarrow> go_fail (errorf ''rds restore failed: '' e)
       | None \<Rightarrow>
           go_then (refresh_status E client)
          (go_bind (go_wrap ''can't get rds restore job: '' (go_lift (o_ExtractJob (otc E) restoreResult)))
             (\<lambda>jobID.
           go_then (go_wrap ''error rds restore job: '' (WaitForJobCompleted E client jobID))
             (refresh_status E client)))))) [CRestorePITR opts] (\<lambda>_. view_is v)" for v
    by (rule one_request)
      (simp | intro run_intro uses_intro harmless_parts refresh_status_harmless refresh_status_view; simp)+
  from traces_then [OF clear_restore_traces this] show ?thesis
    by (simp add: restore_to_def)
qed

lemma restore_opts_id:
  "status_Id (rds_Status r') = status_Id (rds_Status r) \<Longrightarrow> restore_opts r' d = restore_opts r d"
  by (simp add: restore_opts_def)

lemma restore_traces:
  "traces mutation (view_is (w, r)) (restore_backup E client) (restore_plan r) (\<lambda>_ _. True)"
proof -
  obtain vol flav where w: "w = (vol, flav)" by (metis prod.collapse)
  let ?v = "spec_Backuprestoretime (rds_Spec r)"
  have ev: "traces mutation (view_is (w, r)) (Eventf E EventTypeNormal ''Update'' msg) [] (\<lambda>_. view_is (w, r))" for msg
    by (intro quiet uses_intro) simp_all
  have body: "traces mutation (view_is (w, r)) (go_then (Eventf E EventTypeNormal ''Update'' msg)
      (case ParseRFC3339 ?v of None \<Rightarrow> go_fail e | Some d \<Rightarrow> restore_to E client (restore_opts r d)))
      (case ParseRFC3339 ?v of None \<Rightarrow> [] | Some d \<Rightarrow> [CRestorePITR (restore_opts r d)]) (\<lambda>_ _. True)" for msg e
  proof (cases "ParseRFC3339 ?v")
    case None
    have "traces mutation (view_is (w, r)) (go_fail e) [] (\<lambda>_ _. True)" by (rule traces_fail)
    from traces_then [OF ev this] None show ?thesis by simp
  next
    case (Some d)
    have "traces mutation (view_is (w, r)) (restore_to E client (restore_opts r d))
        [CRestorePITR (restore_opts r d)] (\<lambda>_ _. True)"
      by (rule traces_weaken [OF restore_to_traces]) simp_all
    from traces_then [OF ev this] Some show ?thesis by simp
  qed
  show ?thesis
    unfolding restore_backup_def restore_plan_def Let_def
    apply (rule traces_get)
    subgoal for s0
      apply (simp only: view_fields [of s0 vol flav r] w restore_opts_id [of "newRds s0" r])
      apply (rule traces_when)
       apply (use body w in simp)
      apply simp
      done
    done
qed

section \<open>The whole update\<close>

lemma update_phases_traces:
  "traces mutation (view_is v)
     (go_then (enlarge_volume E client)
     (go_then (change_flavor E client)
     (go_then (restart_instance E client)
     (go_then (restore_backup E client)
       (update_rest E client)))))
     (enlarge_plan v @ resize_plan v @ restart_plan (snd v) @ restore_plan (snd v)) (\<lambda>_ _. True)"
proof -
  obtain w r where v: "v = (w, r)" by (cases v)
  have rest: "traces mutation (\<lambda>s. True) (update_rest E client) [] (\<lambda>_ _. True)"
    by (rule traces_silent [OF update_rest_harmless]) simp
  have keep: "restore_plan (no_reboot r) = restore_plan r"
    by (simp add: restore_plan_def no_reboot_def restore_opts_def split: option.split)
  have "traces mutation (view_is v)
     (go_then (enlarge_volume E client)
     (go_then (change_flavor E client)
     (go_then (restart_instance E client)
     (go_then (restore_backup E client)
       (update_rest E client)))))
     (enlarge_plan v @ resize_plan v @ restart_plan r @ restore_plan (no_reboot r) @ []) (\<lambda>_ _. True)"
    unfolding v
    by (rule traces_then [OF enlarge_traces traces_then [OF resize_traces
        traces_then [OF restart_traces traces_then [OF restore_traces rest]]]])
  then show ?thesis by (simp add: keep v)
qed

text \<open>What the cloud lists for the resource of \<open>s\<close>, when the update gets that far.\<close>

definition listed :: "'w Ext \<Rightarrow> handle \<Rightarrow> 'w sys \<Rightarrow> RdsInstanceResponse option" where
  "listed E client s =
     (if status_Id (rds_Status (newRds s)) = '''' then None
      else (case fst (rds_answer E client
                (by_name_opts (rds_Name (newRds s)) (rds_Namespace (newRds s))) (world s)) of
              Inl _ \<Rightarrow> None | Inr p \<Rightarrow> p))"

definition rechecked :: "RdsInstanceResponse \<Rightarrow> 'w sys \<Rightarrow> 'w sys" where
  "rechecked inst s = s\<lparr>oldRds := (oldRds s)\<lparr>rds_Spec := (rds_Spec (oldRds s))
     \<lparr>spec_Volumesize := inst_VolumeSize inst, spec_Flavorref := inst_FlavorRef inst\<rparr>\<rparr>\<rparr>"

lemma recheck_spec_eval:
  "recheck_spec E client s =
     (let opts = by_name_opts (rds_Name (newRds s)) (rds_Namespace (newRds s));
          answer = rds_answer E client opts (world s);
          u = log_call (RDS (CRdsList opts)) (rds_answered E client opts (world s)) (snd answer) s
      in case fst answer of
           Inl e \<Rightarrow> (Fail (errorf ''error getting rdsGetByName: '' e), u)
         | Inr None \<Rightarrow> (Crash NilDeref, u)
         | Inr (Some inst) \<Rightarrow> (Ok (), rechecked inst u))"
proof -
  obtain q w where a: "rds_answer E client (by_name_opts (rds_Name (newRds s)) (rds_Namespace (newRds s))) (world s) = (q, w)"
    by fastforce
  show ?thesis
  proof (cases q)
    case (Inr p)
    with a show ?thesis
      by (cases p) (simp_all add: recheck_spec_def rechecked_def go_eval Let_def)
  qed (use a in \<open>simp add: recheck_spec_def go_eval Let_def\<close>)
qed

lemma recheck_spec_listed:
  assumes "listed E client s = Some inst"
  obtains ok w where "recheck_spec E client s = (Ok (), rechecked inst (log_call (RDS (CRdsList
      (by_name_opts (rds_Name (newRds s)) (rds_Namespace (newRds s))))) ok w s))"
  using assms
  by (auto simp: listed_def recheck_spec_eval Let_def split: if_splits sum.splits)

lemma recheck_spec_unlisted:
  assumes "listed E client s = None" and "status_Id (rds_Status (newRds s)) \<noteq> ''''"
  obtains r ok w where "recheck_spec E client s = (r, log_call (RDS (CRdsList
      (by_name_opts (rds_Name (newRds s)) (rds_Namespace (newRds s))))) ok w s)" and "\<And>u. r \<noteq> Ok u"
  using assms
  by (auto simp: listed_def recheck_spec_eval Let_def split: if_splits sum.splits option.splits)

lemma update_plan_view:
  "update_plan inst (update_core r) = update_plan inst r"
  by (simp add: update_plan_def enlarge_plan_def resize_plan_def restart_plan_def restore_plan_def
      update_core_def restore_opts_def Let_def split: option.split)

text \<open>\<open>asked s t plan r\<close>: a run that ended with \<open>r\<close> asked for the first requests of the plan, or for all.\<close>

definition asked :: "'w sys \<Rightarrow> 'w sys \<Rightarrow> RdsCall list \<Rightarrow> unit outcome \<Rightarrow> bool" where
  "asked s t plan r \<longleftrightarrow>
     (if r = Ok () then seen mutation (made s t) = plan else prefix (seen mutation (made s t)) plan)"

lemma asked_nothing: "asked s t [] r \<longleftrightarrow> seen mutation (made s t) = []"
  by (simp add: asked_def)

lemma rdsUpdate_asks:
  assumes "listed E client s = Some inst" and "rdsUpdate E client s = (r, t)"
  shows "asked s t (update_plan inst (newRds s)) r"
proof -
  let ?c = "RDS (CRdsList (by_name_opts (rds_Name (newRds s)) (rds_Namespace (newRds s))))"
  obtain ok w where rc: "recheck_spec E client s = (Ok (), rechecked inst (log_call ?c ok w s))"
    using recheck_spec_listed [OF assms(1)] by blast
  let ?u = "rechecked inst (log_call ?c ok w s)"
  let ?v = "((inst_VolumeSize inst, inst_FlavorRef inst), update_core (newRds s))"
  have "status_Id (rds_Status (newRds s)) \<noteq> ''''"
    using assms(1) by (auto simp: listed_def split: if_splits)
  with assms(2) rc have rest: "go_then (enlarge_volume E client) (go_then (change_flavor E client)
     (go_then (restart_instance E client) (go_then (restore_backup E client) (update_rest E client)))) ?u
     = (r, t)"
    by (simp add: rdsUpdate_def go_bind_eval go_get_eval go_then_eval [of "recheck_spec E client"])
  have view: "upd_view ?u = ?v" by (simp add: upd_view_def rechecked_def)
  have plan: "enlarge_plan ?v @ resize_plan ?v @ restart_plan (snd ?v) @ restore_plan (snd ?v)
      = update_plan inst (newRds s)"
    using update_plan_view [of inst "newRds s"] by (simp add: update_plan_def Let_def)
  obtain new where new: "calls t = calls ?u @ new" "prefix (seen mutation new) (update_plan inst (newRds s))"
      "\<And>a. r = Ok a \<Longrightarrow> seen mutation new = update_plan inst (newRds s)"
    using tracesE [OF update_phases_traces view rest] unfolding plan by metis
  have "calls t = calls s @ (?c, ok) # new"
    using new(1) by (simp add: rechecked_def)
  from seen_same_calls [OF this] have "seen mutation (made s t) = seen mutation new"
    by simp
  with new(2,3) show ?thesis by (simp add: asked_def)
qed

text \<open>C3: the requests by which \<open>rdsUpdate\<close> changes the database instance are the first of a
  fixed plan, and all of it when no error is returned: one enlargement if and only if the
  specification asks for more than the instance has (never a shrinking), one resize if the
  flavor differs, one restart if the reboot flag is set, one restore if a restore time is given
  and parses; each for the resource's own instance, in this order, each at most once.\<close>

theorem update_follows_plan:
  assumes "listed E client s = Some inst" and "rdsUpdate E client s = (r, t)"
  shows "prefix (seen mutation (made s t)) (update_plan inst (newRds s)) \<and>
    (r = Ok () \<longrightarrow> seen mutation (made s t) = update_plan inst (newRds s))"
  using rdsUpdate_asks [OF assms] by (auto simp: asked_def split: if_splits)

text \<open>An update of a resource without an instance identifier, or whose instance the cloud does
  not list, asks nothing of the cloud but that listing, and never succeeds; in the second case
  a listing without an error ends in a nil dereference.\<close>

theorem update_unlisted:
  assumes "listed E client s = None" and "rdsUpdate E client s = (r, t)"
  shows "r \<noteq> Ok () \<and> (made s t = [] \<or> (\<exists>opts ok. made s t = [(RDS (CRdsList opts), ok)])) \<and>
    (r = Crash NilDeref) = (status_Id (rds_Status (newRds s)) \<noteq> '''' \<and>
       (\<exists>w. rds_answer E client (by_name_opts (rds_Name (newRds s)) (rds_Namespace (newRds s))) (world s)
          = (Inr None, w)))"
proof (cases "status_Id (rds_Status (newRds s)) = ''''")
  case True
  with assms(2) show ?thesis by (auto simp: rdsUpdate_def go_eval)
next
  case False
  obtain a w where a: "rds_answer E client (by_name_opts (rds_Name (newRds s)) (rds_Namespace (newRds s)))
      (world s) = (a, w)" by fastforce
  have run: "(r, t) = (case recheck_spec E client s of (Ok u, v) \<Rightarrow>
      go_then (enlarge_volume E client) (go_then (change_flavor E client)
        (go_then (restart_instance E client) (go_then (restore_backup E client) (update_rest E client)))) v
      | (Fail e, v) \<Rightarrow> (Fail e, v) | (Crash c, v) \<Rightarrow> (Crash c, v))"
    using assms(2) False
    by (simp add: rdsUpdate_def go_bind_eval go_get_eval go_then_eval [of "recheck_spec E client"])
  show ?thesis
  proof (cases a)
    case (Inl e)
    with run a False show ?thesis by (simp add: recheck_spec_eval Let_def made_def)
  next
    case (Inr p)
    then have "p = None" using assms(1) a False by (simp add: listed_def)
    with run a Inr False show ?thesis by (simp add: recheck_spec_eval Let_def made_def)
  qed
qed

section \<open>Nothing to do\<close>

definition up_to_date :: "RdsInstanceResponse \<Rightarrow> Rds \<Rightarrow> Rds \<Rightarrow> bool" where
  "up_to_date inst old r \<longleftrightarrow>
     \<not> inst_VolumeSize inst <s spec_Volumesize (rds_Spec r) \<and>
     inst_FlavorRef inst = spec_Flavorref (rds_Spec r) \<and>
     \<not> status_Reboot (rds_Status r) \<and> \<not> status_Logs (rds_Status r) \<and>
     spec_Backuprestoretime (rds_Spec r) = '''' \<and>
     slice_len (spec_Databases (rds_Spec old)) = slice_len (spec_Databases (rds_Spec r)) \<and>
     \<not> users_ptr_neq (spec_Users (rds_Spec old)) (spec_Users (rds_Spec r)) \<and>
     (spec_Endpoint (rds_Spec r) = '''' \<or> status_Autopilot (rds_Status r))"

text \<open>An update with nothing to do succeeds with the one listing call and leaves the resource
  as it was.\<close>

theorem update_nothing_to_do:
  assumes "listed E client s = Some inst" and "up_to_date inst (oldRds s) (newRds s)"
  shows "\<exists>t ok. rdsUpdate E client s = (Ok (), t) \<and> newRds t = newRds s \<and>
    made s t = [(RDS (CRdsList (by_name_opts (rds_Name (newRds s)) (rds_Namespace (newRds s)))), ok)]"
proof -
  let ?c = "RDS (CRdsList (by_name_opts (rds_Name (newRds s)) (rds_Namespace (newRds s))))"
  obtain ok w where rc: "recheck_spec E client s = (Ok (), rechecked inst (log_call ?c ok w s))"
    using recheck_spec_listed [OF assms(1)] by blast
  have "status_Id (rds_Status (newRds s)) \<noteq> ''''"
    using assms(1) by (auto simp: listed_def split: if_splits)
  with rc assms(2) have "rdsUpdate E client s = (Ok (), rechecked inst (log_call ?c ok w s))"
    by (auto simp: rdsUpdate_def up_to_date_def enlarge_volume_def change_flavor_def
        restart_instance_def restore_backup_def update_rest_def sync_sql_users_def set_autopilot_def
        go_eval rechecked_def users_ptr_neq_def)
  then show ?thesis by (simp add: rechecked_def made_def)
qed

section \<open>A reboot is asked for once\<close>

fun restarted :: "call \<Rightarrow> string option" where
  "restarted (RDS (CRdsRestart i)) = Some i"
| "restarted c = None"

abbreviation reboot_flag :: "'w sys \<Rightarrow> bool" where
  "reboot_flag s \<equiv> status_Reboot (rds_Status (newRds s))"

definition reboot_consumed :: "'w sys \<Rightarrow> 'w sys \<Rightarrow> bool" where
  "reboot_consumed s t \<longleftrightarrow> (\<exists>new. calls t = calls s @ new \<and>
     (reboot_flag s \<or> (\<not> reboot_flag t \<and> seen restarted new = [])) \<and>
     (reboot_flag t \<longrightarrow> seen restarted new = []))"

interpretation reboot: run_relation "reboot_consumed :: 'w sys \<Rightarrow> 'w sys \<Rightarrow> bool"
proof
  fix s t u :: "'w sys"
  show "reboot_consumed s s" by (simp add: reboot_consumed_def)
  assume "reboot_consumed s t" and "reboot_consumed t u"
  then show "reboot_consumed s u"
    unfolding reboot_consumed_def by (elim exE conjE) (rule exI, auto)
qed

lemma reboot_quiet:
  assumes "uses (\<lambda>c. restarted c = None) m" and "run_respects (same_field reboot_flag) m"
  shows "run_respects reboot_consumed m"
proof (rule run_respectsI)
  fix s
  obtain r t where run: "m s = (r, t)" by fastforce
  from silent_run [OF assms(1) run] run_respectsD [OF assms(2) run] run
  show "reboot_consumed s (snd (m s))"
    unfolding reboot_consumed_def same_field_def by (metis snd_conv)
qed

lemma reboot_flag_writes [uses_intro]:
  "run_respects (same_field reboot_flag) (UpdateStatus E)"
  "(\<And>st. status_Reboot (f st) = status_Reboot st) \<Longrightarrow>
     run_respects (same_field reboot_flag) (modify_status f)"
  "(\<And>r. status_Reboot (rds_Status (g r)) = status_Reboot (rds_Status r)) \<Longrightarrow>
     run_respects (same_field reboot_flag) (modify_new g)"
  using status_write.write_keeps(7) [of E]
  by (auto simp: run_respects_def same_field_def modify_status_def modify_new_def go_eval)
    (metis prod.collapse)+

lemma status_call_restarts_nothing: "status_call c \<Longrightarrow> restarted c = None"
  by (cases c rule: status_call.cases) auto

lemma log_call_restarts_nothing: "log_call_kind c \<Longrightarrow> restarted c = None"
  by (cases c rule: log_call_kind.cases) (auto dest: status_call_restarts_nothing)

lemma sql_call_restarts_nothing: "sql_call P c \<Longrightarrow> restarted c = None"
  by (cases "(P, c)" rule: sql_call.cases) auto

lemma alarm_call_restarts_nothing: "create_alarm_call c \<Longrightarrow> restarted c = None"
  by (cases c rule: create_alarm_call.cases) auto

lemmas restarts_nothing = status_write.write_uses_in [OF status_call_restarts_nothing]
  uses_mono [OF fetch_logs_uses log_call_restarts_nothing]
  uses_mono [OF CreateSqlUser_uses sql_call_restarts_nothing]
  uses_mono [OF CreateAlarm_uses alarm_call_restarts_nothing]

lemma refresh_status_reboot:
  "uses (\<lambda>c. restarted c = None) (refresh_status E client)"
  "run_respects (same_field reboot_flag) (refresh_status E client)"
  unfolding refresh_status_def by (intro run_intro uses_intro restarts_nothing; simp)+

lemma fetch_logs_reboot: "run_respects (same_field reboot_flag) (fetch_logs E)"
  unfolding fetch_logs_def
  by (intro run_intro uses_intro log_token_frame run_log_job_frame; simp)

lemma quiet_phases_reboot:
  "run_respects reboot_consumed (recheck_spec E client)"
  "run_respects reboot_consumed (enlarge_volume E client)"
  "run_respects reboot_consumed (change_flavor E client)"
  "run_respects reboot_consumed (restore_backup E client)"
  "run_respects reboot_consumed (update_rest E client)"
proof -
  show "run_respects reboot_consumed (recheck_spec E client)"
    unfolding recheck_spec_def
    by (rule reboot_quiet; intro run_intro uses_intro; simp)
  show "run_respects reboot_consumed (enlarge_volume E client)"
    unfolding enlarge_volume_def Let_def
    by (rule reboot_quiet; intro run_intro uses_intro refresh_status_reboot; simp)
  show "run_respects reboot_consumed (change_flavor E client)"
    unfolding change_flavor_def Let_def
    by (rule reboot_quiet; intro run_intro uses_intro refresh_status_reboot; simp)
  show "run_respects reboot_consumed (restore_backup E client)"
    unfolding restore_backup_def restore_to_def Let_def
    by (rule reboot_quiet; intro run_intro uses_intro refresh_status_reboot restarts_nothing; simp)
  show "run_respects reboot_consumed (update_rest E client)"
    unfolding update_rest_def sync_sql_users_def set_autopilot_def
    by (rule reboot_quiet; intro run_intro uses_intro restarts_nothing fetch_logs_reboot CreateSqlUser_frame; simp)
qed

text \<open>The flag is cleared first, and nothing behind sets it again.\<close>

lemma clear_flag_then:
  fixes X :: "Rds \<Rightarrow> ('w sys, unit) go"
  assumes keep: "\<And>r. run_respects (same_field reboot_flag) (X r)" and any: "\<And>r. uses (\<lambda>c. True) (X r)"
  shows "run_respects reboot_consumed (go_bind (go_get newRds) (\<lambda>r.
     go_when (status_Reboot (rds_Status r)) (go_then (modify_status (\<lambda>st. st\<lparr>status_Reboot := False\<rparr>)) (X r))))"
    (is "run_respects _ ?m")
proof (rule run_respectsI)
  fix s :: "'w sys"
  let ?clear = "modify_status (\<lambda>st. st\<lparr>status_Reboot := False\<rparr>)"
  obtain u where u: "?clear s = (Ok (), u)" "calls u = calls s" "\<not> reboot_flag u"
    by (simp add: modify_status_def modify_new_def go_eval)
  obtain r t where rt: "X (newRds s) u = (r, t)" by fastforce
  have t: "\<not> reboot_flag t"
    using run_respectsD [OF keep rt] u(3) by (simp add: same_field_def)
  obtain new where new: "calls t = calls s @ new"
    using run_respectsD [OF any rt] u(2) by (auto simp: emits_def)
  have "snd (?m s) = (if reboot_flag s then t else s)"
    using u(1) rt by (simp add: go_bind_eval go_get_eval go_when_eval go_then_eval)
  with t new show "reboot_consumed s (snd (?m s))"
    by (simp add: reboot_consumed_def)
qed

lemma restart_reboot: "run_respects reboot_consumed (restart_instance E client)"
proof -
  have any: "uses (\<lambda>c. True) (refresh_status E client)" "uses (\<lambda>c. True) (UpdateStatus E)"
    by (rule uses_mono [OF refresh_status_reboot(1)] status_write.write_uses_in, simp)+
  show ?thesis
    unfolding restart_instance_def Let_def
    by (rule clear_flag_then; intro run_intro uses_intro refresh_status_reboot any; simp)
qed

lemma rdsUpdate_reboot: "run_respects reboot_consumed (rdsUpdate E client)"
  unfolding rdsUpdate_def by (intro run_intro quiet_phases_reboot restart_reboot)

text \<open>C16: a reboot is carried out for a set flag only and consumes it: after any update, however it
  ends, that has asked the cloud for a restart, the reboot flag of the resource is cleared, and
  an update never sets it.\<close>

theorem reboot_flag_consumed:
  "case rdsUpdate E client s of (r, t) \<Rightarrow>
     (if reboot_flag t then reboot_flag s \<and> seen restarted (made s t) = []
      else reboot_flag s \<or> seen restarted (made s t) = [])"
proof -
  obtain r t where run: "rdsUpdate E client s = (r, t)" by fastforce
  from run_respectsD [OF rdsUpdate_reboot run] run show ?thesis
    by (auto simp: reboot_consumed_def made_def)
qed

section \<open>A restore is asked for once\<close>

fun pitr :: "RdsCall \<Rightarrow> RestorePITROpts option" where
  "pitr (CRestorePITR o1) = Some o1"
| "pitr c = None"

definition restored :: "call \<Rightarrow> RestorePITROpts option" where
  "restored c = Option.bind (mutation c) pitr"

lemma seen_restored: "seen restored cs = List.map_filter pitr (seen mutation cs)"
  by (induction cs) (auto simp: restored_def List.map_filter_def split: option.splits)

lemma restored_mutation: "mutation c = None \<Longrightarrow> restored c = None"
  by (simp add: restored_def)

abbreviation restore_time :: "'w sys \<Rightarrow> string" where
  "restore_time s \<equiv> spec_Backuprestoretime (rds_Spec (newRds s))"

definition restore_spent :: "'w sys \<Rightarrow> 'w sys \<Rightarrow> bool" where
  "restore_spent s t \<longleftrightarrow> (\<exists>new. calls t = calls s @ new \<and>
     (restore_time t = restore_time s \<and> seen restored new = [] \<or> restore_time t = ''''))"

lemma restore_time_writes [uses_intro]:
  "run_respects (same_field restore_time) (UpdateStatus E)"
  "run_respects (same_field restore_time) (modify_status f)"
  "(\<And>r. spec_Backuprestoretime (rds_Spec (g r)) = spec_Backuprestoretime (rds_Spec r)) \<Longrightarrow>
     run_respects (same_field restore_time) (modify_new g)"
  using status_write.write_keeps(1) [of E]
  by (auto simp: run_respects_def same_field_def modify_status_def modify_new_def go_eval)
    (metis prod.collapse)+

lemma refresh_status_restore_time: "run_respects (same_field restore_time) (refresh_status E client)"
  unfolding refresh_status_def by (intro run_intro uses_intro; simp)

lemma phases_restore_time:
  "run_respects (same_field restore_time) (recheck_spec E client)"
  "run_respects (same_field restore_time) (enlarge_volume E client)"
  "run_respects (same_field restore_time) (change_flavor E client)"
  "run_respects (same_field restore_time) (restart_instance E client)"
  unfolding recheck_spec_def enlarge_volume_def change_flavor_def restart_instance_def Let_def
  by (intro run_intro uses_intro refresh_status_restore_time; simp)+

lemma update_rest_restore_time: "run_respects (same_field restore_time) (update_rest E client)"
  unfolding update_rest_def sync_sql_users_def set_autopilot_def fetch_logs_def
  by (intro run_intro uses_intro log_token_frame run_log_job_frame CreateSqlUser_frame; simp)

interpretation restore: run_relation "restore_spent :: 'w sys \<Rightarrow> 'w sys \<Rightarrow> bool"
proof
  fix s t u :: "'w sys"
  show "restore_spent s s" by (simp add: restore_spent_def)
  assume "restore_spent s t" and "restore_spent t u"
  then show "restore_spent s u"
    unfolding restore_spent_def by (elim exE conjE) (rule exI, auto)
qed

lemma restore_quiet:
  assumes "uses (\<lambda>c. restored c = None) m" and "run_respects (same_field restore_time) m"
  shows "run_respects restore_spent m"
proof (rule run_respectsI)
  fix s
  obtain r t where run: "m s = (r, t)" by fastforce
  from silent_run [OF assms(1) run] run_respectsD [OF assms(2) run] run
  show "restore_spent s (snd (m s))"
    unfolding restore_spent_def same_field_def by (metis snd_conv)
qed

lemmas restores_nothing = uses_mono [OF refresh_status_harmless restored_mutation]
  uses_mono [OF update_rest_harmless restored_mutation]
  status_write.write_uses_in [OF restored_mutation [OF status_call_harmless]]

lemma quiet_phases_restore:
  "run_respects restore_spent (recheck_spec E client)"
  "run_respects restore_spent (enlarge_volume E client)"
  "run_respects restore_spent (change_flavor E client)"
  "run_respects restore_spent (restart_instance E client)"
  "run_respects restore_spent (update_rest E client)"
proof -
  have "uses (\<lambda>c. restored c = None) (recheck_spec E client)"
      "uses (\<lambda>c. restored c = None) (enlarge_volume E client)"
      "uses (\<lambda>c. restored c = None) (change_flavor E client)"
      "uses (\<lambda>c. restored c = None) (restart_instance E client)"
    unfolding recheck_spec_def enlarge_volume_def change_flavor_def restart_instance_def Let_def
    by (intro run_intro uses_intro restores_nothing; simp add: restored_def)+
  then show "run_respects restore_spent (recheck_spec E client)"
      "run_respects restore_spent (enlarge_volume E client)"
      "run_respects restore_spent (change_flavor E client)"
      "run_respects restore_spent (restart_instance E client)"
      "run_respects restore_spent (update_rest E client)"
    using restore_quiet [OF restores_nothing(2) update_rest_restore_time]
    by (blast intro: restore_quiet phases_restore_time)+
qed

text \<open>The restore time is cleared first, and nothing behind sets it again.\<close>

lemma clear_time_then:
  fixes X :: "('w sys, unit) go"
  assumes keep: "run_respects (same_field restore_time) X" and any: "uses (\<lambda>c. True) X"
  shows "run_respects restore_spent (go_then
    (modify_new (\<lambda>r. r\<lparr>rds_Spec := (rds_Spec r)\<lparr>spec_Backuprestoretime := ''''\<rparr>\<rparr>)) X)" (is "run_respects _ ?m")
proof (rule run_respectsI)
  fix s :: "'w sys"
  obtain u where u: "modify_new (\<lambda>r. r\<lparr>rds_Spec := (rds_Spec r)\<lparr>spec_Backuprestoretime := ''''\<rparr>\<rparr>) s = (Ok (), u)"
      "calls u = calls s" "restore_time u = ''''"
    by (simp add: modify_new_def go_eval)
  obtain r t where rt: "X u = (r, t)" by fastforce
  obtain new where "calls t = calls s @ new"
    using run_respectsD [OF any rt] u(2) by (auto simp: emits_def)
  with rt u run_respectsD [OF keep rt] show "restore_spent s (snd (?m s))"
    by (simp add: restore_spent_def same_field_def go_then_eval)
qed

lemma restore_to_spent: "run_respects restore_spent (restore_to E client opts)"
proof -
  have any: "uses (\<lambda>c. True) (refresh_status E client)" "uses (\<lambda>c. True) (UpdateStatus E)"
    by (rule uses_mono [OF refresh_status_harmless] status_write.write_uses_in, simp)+
  show ?thesis
    unfolding restore_to_def
    by (rule clear_time_then; intro run_intro uses_intro refresh_status_restore_time any; simp)
qed

lemma restore_backup_spent: "run_respects restore_spent (restore_backup E client)"
proof -
  have "run_respects restore_spent (Eventf E EventTypeNormal ''Update'' msg)" for msg
    by (rule restore_quiet; intro run_intro uses_intro; simp add: restored_def)
  then show ?thesis
    unfolding restore_backup_def Let_def by (intro run_intro restore_to_spent) (auto intro: run_intro restore_to_spent split: option.split)
qed

lemma rdsUpdate_restore: "run_respects restore_spent (rdsUpdate E client)"
  unfolding rdsUpdate_def by (intro run_intro quiet_phases_restore restore_backup_spent)

text \<open>A restore time that does not parse fails the update.\<close>

lemma restore_backup_unparsed:
  assumes "restore_time s \<noteq> ''''" and "ParseRFC3339 (restore_time s) = None"
  shows "fst (restore_backup E client s) \<noteq> Ok ()"
  using assms by (auto simp: restore_backup_def Let_def go_eval split: prod.split outcome.split)

lemma rdsUpdate_unparsed:
  assumes "restore_time s \<noteq> ''''" and "ParseRFC3339 (restore_time s) = None"
  shows "fst (rdsUpdate E client s) \<noteq> Ok ()"
proof
  assume "fst (rdsUpdate E client s) = Ok ()"
  then obtain t1 t2 t3 t4 t5 where run: "recheck_spec E client s = (Ok (), t1)"
      "enlarge_volume E client t1 = (Ok (), t2)" "change_flavor E client t2 = (Ok (), t3)"
      "restart_instance E client t3 = (Ok (), t4)" "restore_backup E client t4 = (Ok (), t5)"
    by (auto simp: rdsUpdate_def go_bind_eval [of "go_get _"] go_get_eval go_fail_eval go_then_eval
        split: if_splits prod.splits outcome.splits)
  have "restore_time t4 = restore_time s"
    using phases_restore_time [THEN run_respectsD] run(1-4) unfolding same_field_def by metis
  with restore_backup_unparsed [of t4 E client] assms run(5) show False by simp
qed

lemma pitr_plans:
  "List.map_filter pitr (enlarge_plan v) = []" "List.map_filter pitr (resize_plan v) = []"
  "List.map_filter pitr (restart_plan r) = []"
  by (cases v; cases "fst v"; simp add: enlarge_plan_def resize_plan_def restart_plan_def map_filter_simps)+

lemma map_filter_append: "List.map_filter f (xs @ ys) = List.map_filter f xs @ List.map_filter f ys"
  by (simp add: List.map_filter_def)

lemma pitr_update_plan:
  "List.map_filter pitr (update_plan inst r) =
     (case ParseRFC3339 (spec_Backuprestoretime (rds_Spec r)) of
        None \<Rightarrow> []
      | Some d \<Rightarrow> if spec_Backuprestoretime (rds_Spec r) = '''' then [] else [restore_opts r d])"
  by (cases "ParseRFC3339 (spec_Backuprestoretime (rds_Spec r))")
    (simp_all add: update_plan_def Let_def map_filter_append pitr_plans restore_plan_def map_filter_simps)

lemma rdsUpdate_restores:
  assumes "rdsUpdate E client s = (r, t)"
  obtains "r \<noteq> Ok ()" and "seen restored (made s t) = []"
  | inst where "seen restored (made s t) = List.map_filter pitr (update_plan inst (newRds s))"
proof (cases "listed E client s")
  case None
  from update_unlisted [OF this assms] have "r \<noteq> Ok ()" "seen restored (made s t) = []"
    by (auto simp: restored_def)
  then show ?thesis by (rule that(1))
next
  case (Some inst)
  have prefix_filter: "List.map_filter pitr xs = [] \<or> List.map_filter pitr xs = List.map_filter pitr (update_plan inst (newRds s))"
    if "prefix xs (update_plan inst (newRds s))" for xs
  proof -
    obtain ys where ys: "update_plan inst (newRds s) = xs @ ys" using \<open>prefix xs _\<close> by (rule prefixE)
    from pitr_update_plan [of inst "newRds s"] show ?thesis
      unfolding ys by (auto simp: List.map_filter_def Cons_eq_append_conv append_eq_Cons_conv split: option.splits if_splits)
  qed
  from rdsUpdate_asks [OF Some assms] that prefix_filter [of "seen mutation (made s t)"] show ?thesis
    by (cases "r = Ok ()") (auto simp: asked_def seen_restored)
qed

text \<open>C39: an update restores its own instance, to the moment that the specification names and
  only if it names one: it asks for at most one restore, with the milliseconds since 1970 of the parsed
  time, which do not overflow \<open>int64\<close>, and with the resource's instance as source and target; it asks for one
  if it succeeds.  The restore time is then cleared in the resource, whatever becomes of the
  restore.  A time that does not parse fails the update, without a restore.\<close>

theorem restore_request_time:
  "case rdsUpdate E client s of (r, t) \<Rightarrow>
     (let i = status_Id (rds_Status (newRds s)); asks = seen restored (made s t) in
      if restore_time s = '''' then asks = []
      else case ParseRFC3339 (restore_time s) of
             None \<Rightarrow> asks = [] \<and> r \<noteq> Ok ()
           | Some d \<Rightarrow> - (2 ^ 63) \<le> UnixMilli d \<and> UnixMilli d < 2 ^ 63 \<and>
               (asks = [] \<and> r \<noteq> Ok () \<or>
                asks = [\<lparr>ro_SourceInstanceID = i, ro_RestoreTime = UnixMilli d, ro_Type = ''timestamp'',
                         ro_TargetInstanceID = i\<rparr>] \<and> restore_time t = ''''))"
proof -
  obtain r t where run: "rdsUpdate E client s = (r, t)" by fastforce
  have spent: "restore_time t = ''''" if "seen restored (made s t) \<noteq> []"
    using run_respectsD [OF rdsUpdate_restore run] that by (auto simp: restore_spent_def made_def)
  note bound = UnixMilli_bound [of "restore_time s"]
  from run show ?thesis
  proof (cases rule: rdsUpdate_restores)
    case 1
    then show ?thesis using run bound by (simp split: option.split)
  next
    case (2 inst)
    then show ?thesis
      using run bound spent rdsUpdate_unparsed [of s E client]
      by (auto simp: pitr_update_plan restore_opts_def split: option.split)
  qed
qed

section \<open>A log fetch pre-empts the later phases\<close>

fun late_call :: "call \<Rightarrow> unit option" where
  "late_call (DB c) = Some ()"
| "late_call (MON c) = Some ()"
| "late_call c = None"

abbreviation logs_flag :: "'w sys \<Rightarrow> bool" where
  "logs_flag s \<equiv> status_Logs (rds_Status (newRds s))"

lemma status_call_not_late: "status_call c \<Longrightarrow> late_call c = None"
  by (cases c rule: status_call.cases) auto

lemma log_call_not_late: "log_call_kind c \<Longrightarrow> late_call c = None"
  by (cases c rule: log_call_kind.cases) (auto dest: status_call_not_late)

lemma fetch_logs_not_late: "uses (\<lambda>c. late_call c = None) (fetch_logs E)"
  by (rule uses_mono [OF fetch_logs_uses log_call_not_late])

lemmas not_late = status_write.write_uses_in [OF status_call_not_late]

lemma logs_flag_writes [uses_intro]:
  "run_respects (same_field logs_flag) (UpdateStatus E)"
  "(\<And>st. status_Logs (f st) = status_Logs st) \<Longrightarrow>
     run_respects (same_field logs_flag) (modify_status f)"
  "(\<And>r. status_Logs (rds_Status (g r)) = status_Logs (rds_Status r)) \<Longrightarrow>
     run_respects (same_field logs_flag) (modify_new g)"
  using status_write.write_keeps(6) [of E]
  by (auto simp: run_respects_def same_field_def modify_status_def modify_new_def go_eval)
    (metis prod.collapse)+

lemma refresh_status_early:
  "uses (\<lambda>c. late_call c = None) (refresh_status E client)"
  "run_respects (same_field logs_flag) (refresh_status E client)"
  unfolding refresh_status_def by (intro run_intro uses_intro not_late; simp)+

lemmas early_phase_defs = enlarge_volume_def change_flavor_def restart_instance_def
  restore_backup_def restore_to_def recheck_spec_def Let_def

text \<open>The phases before the log fetch.\<close>

definition early_phases :: "'w Ext \<Rightarrow> handle \<Rightarrow> ('w sys, unit) go" where
  "early_phases E client =
     go_then (recheck_spec E client)
    (go_then (enlarge_volume E client)
    (go_then (change_flavor E client)
    (go_then (restart_instance E client) (restore_backup E client))))"

lemma early_parts_not_late:
  "uses (\<lambda>c. late_call c = None) (recheck_spec E client)"
  "uses (\<lambda>c. late_call c = None) (enlarge_volume E client)"
  "uses (\<lambda>c. late_call c = None) (change_flavor E client)"
  "uses (\<lambda>c. late_call c = None) (restart_instance E client)"
  "uses (\<lambda>c. late_call c = None) (restore_backup E client)"
  unfolding early_phase_defs
  by (intro run_intro uses_intro not_late refresh_status_early; simp)+

lemma early_parts_keep_logs:
  "run_respects (same_field logs_flag) (recheck_spec E client)"
  "run_respects (same_field logs_flag) (enlarge_volume E client)"
  "run_respects (same_field logs_flag) (change_flavor E client)"
  "run_respects (same_field logs_flag) (restart_instance E client)"
  "run_respects (same_field logs_flag) (restore_backup E client)"
  unfolding early_phase_defs
  by (intro run_intro uses_intro refresh_status_early; simp)+

lemma early_phases_safe:
  "uses (\<lambda>c. late_call c = None) (early_phases E client)"
  "run_respects (same_field logs_flag) (early_phases E client)"
  unfolding early_phases_def by (intro run_intro early_parts_not_late early_parts_keep_logs)+

lemma rdsUpdate_early:
  assumes "status_Id (rds_Status (newRds s)) \<noteq> ''''"
  shows "rdsUpdate E client s = go_then (early_phases E client) (update_rest E client) s"
proof -
  have assoc: "go_then a (go_then b c) = go_then (go_then a b) c" for a b c :: "('a sys, unit) go"
    by (simp add: go_then_def go_bind_assoc)
  show ?thesis
    using assms by (simp add: rdsUpdate_def early_phases_def go_bind_eval [of "go_get newRds"] go_get_eval assoc)
qed

text \<open>C29: an update that fetches logs makes no call to the database and none to the alarm and
  topic services: a change of users, databases or of the autopilot that comes with the logs
  flag is not carried out by that update.\<close>

theorem logs_preempt_sql_and_autopilot:
  assumes "status_Logs (rds_Status (newRds s))" and "rdsUpdate E client s = (r, t)"
  shows "list_all (\<lambda>(c, _). \<not> is_DB c \<and> \<not> is_MON c) (made s t)"
proof (cases "status_Id (rds_Status (newRds s)) = ''''")
  case True
  with assms(2) show ?thesis by (simp add: rdsUpdate_def go_eval)
next
  case False
  have "\<exists>new. calls t = calls s @ new \<and> seen late_call new = []"
    using assms(2) unfolding rdsUpdate_early [OF False]
  proof (cases rule: go_then_cases)
    case (stop q)
    from silent_run [OF early_phases_safe(1) stop(1)] show ?thesis by metis
  next
    case (cont a u)
    obtain pre where pre: "calls u = calls s @ pre" "seen late_call pre = []"
      using silent_run [OF early_phases_safe(1) cont(1)] .
    have "logs_flag u"
      using run_respectsD [OF early_phases_safe(2) cont(1)] assms(1) by (simp add: same_field_def)
    with cont(2) have "fetch_logs E u = (r, t)"
      by (simp add: update_rest_def go_bind_eval go_get_eval)
    from silent_run [OF fetch_logs_not_late this] pre show ?thesis by (metis append.assoc append_Nil seen_append)
  qed
  then have "seen late_call (made s t) = []" using seen_same_calls by metis
  moreover have "late_call c \<noteq> None" if "is_DB c \<or> is_MON c" for c
    using that by (cases c) auto
  ultimately show ?thesis
    unfolding list_all_iff by (metis (mono_tags, lifting) case_prodI2 empty_iff empty_set not_None_eq seen_set)
qed

section \<open>The properties on a concrete cloud\<close>

definition demo_grow :: Rds where
  "demo_grow = (demo_rds ''id1'')\<lparr>rds_Spec := demo_spec\<lparr>spec_Volumesize := 50\<rparr>\<rparr>"

lemma demo_listed: "listed demo_ext 2 (demo_sys 1 r) = (if status_Id (rds_Status r) = '''' then None else Some demo_instance)"
  by (simp add: listed_def demo)

lemma demo_grow_sel [demo]:
  "rds_Name demo_grow = ''db''" "rds_Namespace demo_grow = ''ns''"
  "rds_Status demo_grow = zero_status\<lparr>status_Id := ''id1''\<rparr>"
  "rds_Spec demo_grow = demo_spec\<lparr>spec_Volumesize := 50\<rparr>"
  by (simp_all add: demo_grow_def demo)

lemma demo_spec_sel [demo]:
  "spec_Volumesize demo_spec = 40" "spec_Flavorref demo_spec = ''rds.c2''"
  "spec_Backuprestoretime demo_spec = ''''" "spec_Endpoint demo_spec = ''''"
  "spec_Users demo_spec = None" "spec_Databases demo_spec = None"
  by (simp_all add: demo_spec_def zero_spec_def)

lemma demo_grow_plan: "update_plan demo_instance demo_grow = [CRdsEnlarge 50 ''id1'']"
  by (simp add: update_plan_def enlarge_plan_def resize_plan_def restart_plan_def restore_plan_def demo)

lemma demo_grow_run:
  "\<exists>t. rdsUpdate demo_ext 2 (demo_sys 1 demo_grow) = (Ok (), t)"
  by (simp add: rdsUpdate_def recheck_spec_eval rechecked_def enlarge_volume_def refresh_status_def
      change_flavor_def restart_instance_def restore_backup_def update_rest_def sync_sql_users_def
      set_autopilot_def WaitForJobCompleted_def users_ptr_neq_def demo)

theorem update_follows_plan_witness:
  "\<exists>t. rdsUpdate demo_ext 2 (demo_sys 1 demo_grow) = (Ok (), t) \<and>
     seen mutation (made (demo_sys 1 demo_grow) t) = [CRdsEnlarge 50 ''id1'']"
proof -
  obtain t where run: "rdsUpdate demo_ext 2 (demo_sys 1 demo_grow) = (Ok (), t)"
    using demo_grow_run by blast
  have "listed demo_ext 2 (demo_sys 1 demo_grow) = Some demo_instance"
    unfolding demo_listed by (simp add: demo)
  from update_follows_plan [OF this run] have
    "seen mutation (made (demo_sys 1 demo_grow) t) = update_plan demo_instance (newRds (demo_sys 1 demo_grow))"
    by blast
  with run show ?thesis by (simp add: demo_grow_plan demo_sys_sel del: made_def)
qed

theorem update_unlisted_witness:
  "\<exists>t. rdsUpdate demo_ext 2 (demo_sys 0 demo_grow) = (Crash NilDeref, t)"
proof -
  let ?s = "demo_sys 0 demo_grow"
  have none: "rds_answer demo_ext 2 o1 (world ?s) = (Inr None, 0)" for o1
    by (simp add: rds_answer_def demo)
  then have "listed demo_ext 2 ?s = None" by (simp add: listed_def)
  moreover obtain r t where run: "rdsUpdate demo_ext 2 ?s = (r, t)" by fastforce
  ultimately have "(r = Crash NilDeref) = (status_Id (rds_Status (newRds ?s)) \<noteq> '''' \<and>
      (\<exists>w. rds_answer demo_ext 2 (by_name_opts (rds_Name (newRds ?s)) (rds_Namespace (newRds ?s))) (world ?s)
         = (Inr None, w)))"
    using update_unlisted by blast
  with none run show ?thesis by (simp add: demo_sys_sel demo_grow_sel zero_status_def)
qed

theorem update_nothing_to_do_witness:
  "\<exists>t. rdsUpdate demo_ext 2 (demo_sys 1 (demo_rds ''id1'')) = (Ok (), t) \<and> newRds t = demo_rds ''id1''"
proof -
  let ?s = "demo_sys 1 (demo_rds ''id1'')"
  have "listed demo_ext 2 ?s = Some demo_instance" unfolding demo_listed by (simp add: demo)
  moreover have "up_to_date demo_instance (oldRds ?s) (newRds ?s)"
    by (simp add: up_to_date_def users_ptr_neq_def demo)
  ultimately show ?thesis using update_nothing_to_do [of demo_ext 2 ?s] by (auto simp: demo_sys_sel)
qed

definition demo_logs :: Rds where
  "demo_logs = (demo_rds ''id1'')\<lparr>rds_Status := zero_status\<lparr>status_Id := ''id1'', status_Logs := True\<rparr>\<rparr>"

theorem logs_preempt_sql_and_autopilot_witness:
  "\<exists>r t. rdsUpdate demo_ext 2 (demo_sys 1 demo_logs) = (r, t) \<and>
     list_all (\<lambda>(c, _). \<not> is_DB c \<and> \<not> is_MON c) (made (demo_sys 1 demo_logs) t)"
proof -
  obtain r t where run: "rdsUpdate demo_ext 2 (demo_sys 1 demo_logs) = (r, t)" by fastforce
  have "status_Logs (rds_Status (newRds (demo_sys 1 demo_logs)))"
    by (simp add: demo_logs_def demo_sys_sel)
  from logs_preempt_sql_and_autopilot [OF this run] run show ?thesis by blast
qed

end
