(* ===== verification/Worker.thy ===== *)
theory Worker
  imports Work_Queue Rds_Delete Rds_Update
begin

text \<open>
  \<open>pkg/controller/worker.go\<close>: a worker takes events from the queue, runs the handler of their
  kind on the objects they point to, and requeues an event whose handler failed, up to a bound.

  The state is the controller (queue and memory of the events) beside the state of a call, and
  the list of the events that the workers are handling.  The handlers of an event run on its
  objects, which are loaded from the memory and written back, since they mutate them through the
  pointers.  Any number of workers run at once: a worker takes an event off the queue in one step and
  handles it in a later one, and between the two the informer, other workers, the queue's own
  timers and the rest of the world act.
\<close>

record ('q, 'w) op =
  op_ctl :: "'q Controller"
  op_sys :: "'w sys"
  op_busy :: "event list"

definition maxRetries :: nat where
  "maxRetries = 300"

section \<open>Handling an event\<close>

definition processAddRds :: "'w Ext \<Rightarrow> ('w sys, unit) go" where
  "processAddRds E = Create E"

definition processDelRds :: "'w Ext \<Rightarrow> ('w sys, unit) go" where
  "processDelRds E = Delete E"

text \<open>A call on copies of the two objects: what it writes to them is gone afterwards.\<close>

definition on_copies :: "('w sys, 'a) go \<Rightarrow> ('w sys, 'a) go" where
  "on_copies m = (\<lambda>s. case m (s\<lparr>oldRds := Rds_DeepCopyInto (oldRds s), newRds := Rds_DeepCopyInto (newRds s)\<rparr>) of
     (r, t) \<Rightarrow> (r, t\<lparr>oldRds := oldRds s, newRds := newRds s\<rparr>))"

definition not_active :: "Rds \<Rightarrow> gerror" where
  "not_active r = new_error (''rds '' @ rds_Name r @ '' not in ACTIVE state'')"

definition processUpdateRds :: "'w Ext \<Rightarrow> ('w sys, unit) go" where
  "processUpdateRds E =
     go_then (go_wrap ''error update rds status from worker: '' (UpdateStatus E))
    (go_bind (go_get (\<lambda>s. HasChanged (oldRds s) (newRds s))) (\<lambda>changed.
     if \<not> changed then go_return ()
     else go_bind (go_get newRds) (\<lambda>newObj.
       if status_Status (rds_Status newObj) \<noteq> ''ACTIVE''
       then go_then (perform_w (SYS (CSleep 30)) (x_Sleep E 30)) (go_fail (not_active newObj))
       else on_copies (Update E))))"

definition write_back :: "addr option \<Rightarrow> addr \<Rightarrow> 'w sys \<Rightarrow> (addr \<Rightarrow> Rds option) \<Rightarrow> addr \<Rightarrow> Rds option" where
  "write_back old new y h =
     (case old of None \<Rightarrow> h | Some p \<Rightarrow> h(p \<mapsto> oldRds y))(new \<mapsto> newRds y)"

definition on_objects :: "addr option \<Rightarrow> addr \<Rightarrow> ('w sys, 'a) go \<Rightarrow> (('q, 'w) op, 'a) go" where
  "on_objects old new m = (\<lambda>s.
     let h = c_heap (op_ctl s) in
     case (case old of None \<Rightarrow> Some (oldRds (op_sys s)) | Some p \<Rightarrow> h p, h new) of
       (Some ob, Some nb) \<Rightarrow>
         (case m ((op_sys s)\<lparr>oldRds := ob, newRds := nb\<rparr>) of
            (r, y) \<Rightarrow> (r, s\<lparr>op_sys := y, op_ctl := (op_ctl s)\<lparr>c_heap := write_back old new y h\<rparr>\<rparr>))
     | _ \<Rightarrow> (Crash NilDeref, s))"

text \<open>The type assertion on the old object of an update panics when there is none.\<close>

definition processEvent :: "'w Ext \<Rightarrow> event \<Rightarrow> (('q, 'w) op, unit) go" where
  "processEvent E ev =
     (if ev_eventType ev = addRds_type then on_objects None (ev_newObj ev) (processAddRds E)
      else if ev_eventType ev = delRds_type then on_objects None (ev_newObj ev) (processDelRds E)
      else if ev_eventType ev = updateRds_type then
        (case ev_oldObj ev of
           None \<Rightarrow> go_crash ExplicitPanic
         | Some p \<Rightarrow> on_objects (Some p) (ev_newObj ev) (processUpdateRds E))
      else go_return ())"

section \<open>The worker\<close>

definition on_queue :: "('q \<Rightarrow> 'q) \<Rightarrow> (('q, 'w) op, unit) go" where
  "on_queue f = go_modify (\<lambda>s. s\<lparr>op_ctl := (op_ctl s)\<lparr>c_queue := f (c_queue (op_ctl s))\<rparr>\<rparr>)"

definition settle :: "'q QueueApi \<Rightarrow> event \<Rightarrow> gerror + unit \<Rightarrow> (('q, 'w) op, unit) go" where
  "settle Q obj r =
     (case r of
        Inr _ \<Rightarrow> on_queue (q_Forget Q obj)
      | Inl err \<Rightarrow> go_bind (go_get (\<lambda>s. q_NumRequeues Q obj (c_queue (op_ctl s)))) (\<lambda>n.
          if n < maxRetries then on_queue (q_AddRateLimited Q obj)
          else on_queue (q_Forget Q obj)))"

definition queue_Get :: "'q QueueApi \<Rightarrow> (('q, 'w) op, event option) go" where
  "queue_Get Q = (\<lambda>s. case q_Get Q (c_queue (op_ctl s)) of
     (item, q) \<Rightarrow> (Ok item, s\<lparr>op_ctl := (op_ctl s)\<lparr>c_queue := q\<rparr>\<rparr>))"

definition process_item :: "'q QueueApi \<Rightarrow> 'w Ext \<Rightarrow> event \<Rightarrow> (('q, 'w) op, bool) go" where
  "process_item Q E obj =
     go_defer (on_queue (q_Done Q obj))
       (go_bind (go_try (processEvent E obj)) (\<lambda>err.
        go_then (settle Q obj err) (go_return True)))"

definition processNextItem :: "'q QueueApi \<Rightarrow> 'w Ext \<Rightarrow> (('q, 'w) op, bool) go" where
  "processNextItem Q E =
     go_bind (queue_Get Q) (\<lambda>item. case item of
       None \<Rightarrow> go_return False
     | Some obj \<Rightarrow> process_item Q E obj)"

partial_function (option) runWorker ::
    "'q QueueApi \<Rightarrow> 'w Ext \<Rightarrow> ('q, 'w) op \<Rightarrow> (unit outcome \<times> ('q, 'w) op) option" where
  "runWorker Q E s =
     (case processNextItem Q E s of
        (Ok again, t) \<Rightarrow> (if again then runWorker Q E t else Some (Ok (), t))
      | (Fail e, t) \<Rightarrow> Some (Fail e, t)
      | (Crash c, t) \<Rightarrow> Some (Crash c, t))"

text \<open>\<open>MetaNamespaceKeyFunc\<close> and the indexer are client-go's.\<close>

definition resourceExists :: "(kube_object \<Rightarrow> gerror + string) \<Rightarrow> (string \<Rightarrow> bool \<times> gerror option) \<Rightarrow>
    kube_object \<Rightarrow> bool \<times> gerror option" where
  "resourceExists key get obj =
     (case key obj of
        Inl err \<Rightarrow> (False, Some (errorf ''error getting key '' err))
      | Inr k \<Rightarrow> get k)"

section \<open>Evaluation\<close>

lemma on_queue_eval [go_eval]:
  "on_queue f s = (Ok (), s\<lparr>op_ctl := (op_ctl s)\<lparr>c_queue := f (c_queue (op_ctl s))\<rparr>\<rparr>)"
  by (simp add: on_queue_def go_eval)

lemma settle_eval:
  "settle Q obj r s = (Ok (), s\<lparr>op_ctl := (op_ctl s)\<lparr>c_queue :=
     (if (\<exists>e. r = Inl e) \<and> q_NumRequeues Q obj (c_queue (op_ctl s)) < maxRetries
      then q_AddRateLimited Q obj else q_Forget Q obj) (c_queue (op_ctl s))\<rparr>\<rparr>)"
  by (cases r) (simp_all add: settle_def go_eval)

lemma processEvent_queue:
  assumes "processEvent E ev s = (r, t)"
  shows "c_queue (op_ctl t) = c_queue (op_ctl s)"
  using assms unfolding processEvent_def on_objects_def
  by (auto simp: go_eval Let_def split: if_splits option.splits prod.splits)

text \<open>An item by itself: what its handling leaves of the queue.\<close>

lemma process_item_queue:
  assumes "process_item Q E obj s = (Ok b, t)"
  defines "q \<equiv> c_queue (op_ctl s)"
  shows "b \<and> (c_queue (op_ctl t) = q_Done Q obj (q_Forget Q obj q) \<or>
    c_queue (op_ctl t) = q_Done Q obj (q_AddRateLimited Q obj q) \<and> q_NumRequeues Q obj q < maxRetries)"
proof -
  obtain p v where pe: "processEvent E obj s = (p, v)" by fastforce
  then have "c_queue (op_ctl v) = q" unfolding q_def by (rule processEvent_queue)
  with assms(1) pe show ?thesis
    by (auto simp: process_item_def go_eval settle_eval split: outcome.splits if_splits)
qed

lemma queue_Get_run:
  "q_Get Q (c_queue (op_ctl s)) = (item, q) \<Longrightarrow>
     queue_Get Q s = (Ok item, s\<lparr>op_ctl := (op_ctl s)\<lparr>c_queue := q\<rparr>\<rparr>)"
  by (simp add: queue_Get_def)

lemma processNextItem_run:
  "q_Get Q (c_queue (op_ctl s)) = (item, q) \<Longrightarrow> processNextItem Q E s =
     (case item of None \<Rightarrow> (Ok False, s\<lparr>op_ctl := (op_ctl s)\<lparr>c_queue := q\<rparr>\<rparr>)
      | Some obj \<Rightarrow> process_item Q E obj (s\<lparr>op_ctl := (op_ctl s)\<lparr>c_queue := q\<rparr>\<rparr>))"
  by (simp add: processNextItem_def go_bind_eval queue_Get_run go_return_eval split: option.split)

lemma processNextItem_queue:
  assumes "processNextItem Q E s = (Ok b, t)" and "q_Get Q (c_queue (op_ctl s)) = (item, q)"
  shows "case item of
      None \<Rightarrow> \<not> b \<and> c_queue (op_ctl t) = q
    | Some obj \<Rightarrow> b \<and> (c_queue (op_ctl t) = q_Done Q obj (q_Forget Q obj q) \<or>
        c_queue (op_ctl t) = q_Done Q obj (q_AddRateLimited Q obj q) \<and> q_NumRequeues Q obj q < maxRetries)"
proof (cases item)
  case (Some obj)
  with assms have "process_item Q E obj (s\<lparr>op_ctl := (op_ctl s)\<lparr>c_queue := q\<rparr>\<rparr>) = (Ok b, t)"
    by (simp add: processNextItem_run)
  from process_item_queue [OF this] Some show ?thesis by simp
qed (use assms in \<open>auto simp: processNextItem_run\<close>)

section \<open>What the handlers keep of the objects\<close>

text \<open>The resource as its author wrote it: everything but the status.\<close>

definition desired :: "Rds \<Rightarrow> Rds" where
  "desired r = r\<lparr>rds_Status := zero_status\<rparr>"

definition keeps_desired :: "'w sys \<Rightarrow> 'w sys \<Rightarrow> bool" where
  "keeps_desired s t \<longleftrightarrow> desired (newRds t) = desired (newRds s) \<and> oldRds t = oldRds s"

interpretation kept: run_relation keeps_desired
  by unfold_locales (simp_all add: keeps_desired_def)

lemma same_field_desired:
  assumes "run_respects (same_field newRds) m" and "run_respects (same_field oldRds) m"
  shows "run_respects keeps_desired m"
  using assms by (auto simp: run_respects_def same_field_def keeps_desired_def)

lemma desired_core: "desired (resource_core r) = desired r"
  by (simp add: desired_def resource_core_def)

lemma status_write_kept: "run_respects keeps_desired (UpdateStatus E)"
proof (rule run_respectsI)
  fix s :: "'a sys"
  obtain r t where run: "UpdateStatus E s = (r, t)" by fastforce
  show "keeps_desired s (snd (UpdateStatus E s))"
    using status_write.write_core_eq [OF run] status_write.write_keeps_old [OF run] run
    by (metis desired_core keeps_desired_def snd_conv)
qed

lemma modify_status_kept: "run_respects keeps_desired (modify_status f)"
  by (simp add: run_respects_def keeps_desired_def modify_status_def modify_new_def go_eval desired_def)

text \<open>Code that does not write the objects at all.\<close>

lemma kept_parts:
  "run_respects keeps_desired (GetProvider E)"
  "run_respects keeps_desired (NewClient E svc p)"
  "run_respects keeps_desired (secgroupGet E h n)"
  "run_respects keeps_desired (subnetGet E h n)"
  "run_respects keeps_desired (vpcGet E h n)"
  "run_respects keeps_desired (rdsGetByName E h n ns)"
  "run_respects keeps_desired (rdsGetById E h i)"
  "run_respects keeps_desired (Eventf E ty rsn msg)"
  "run_respects keeps_desired (perform_res c f)"
  "run_respects keeps_desired (perform_e c g)"
  "run_respects keeps_desired (perform_w c h1)"
  "run_respects keeps_desired (Delete E)"
  by (rule same_field_desired; intro run_intro uses_intro Delete_frame secgroup.lookup_frame
      subnet.lookup_frame vpc.lookup_frame; simp)+

lemma Create_kept: "run_respects keeps_desired (Create E)"
  unfolding Create_def rdsCreate_def create_for_def finish_create_def WaitForJobCompleted_def Let_def
  by (intro run_intro kept_parts status_write_kept modify_status_kept)

lemma on_copies_kept: "run_respects keeps_desired (on_copies m)"
  by (auto simp: run_respects_def on_copies_def keeps_desired_def split: prod.split)

lemma processUpdateRds_kept: "run_respects keeps_desired (processUpdateRds E)"
  unfolding processUpdateRds_def
  by (intro run_intro kept_parts status_write_kept on_copies_kept)

section \<open>The memory of the events\<close>

text \<open>The objects that exist keep what their author wrote, new ones come behind them.\<close>

definition memory_kept :: "('q, 'w) op \<Rightarrow> ('q, 'w) op \<Rightarrow> bool" where
  "memory_kept s t \<longleftrightarrow> c_next (op_ctl s) \<le> c_next (op_ctl t) \<and>
     (\<forall>x < c_next (op_ctl s). map_option desired (c_heap (op_ctl t) x) = map_option desired (c_heap (op_ctl s) x))"

interpretation memory: run_relation memory_kept
  by unfold_locales (auto simp: memory_kept_def)

lemma on_objects_memory:
  fixes m :: "('w sys, 'a) go"
  assumes "run_respects keeps_desired m"
  shows "run_respects memory_kept (on_objects old new m)"
proof (rule run_respectsI)
  fix s :: "('q, 'w) op"
  let ?h = "c_heap (op_ctl s)"
  show "memory_kept s (snd (on_objects old new m s))"
  proof (cases "(case old of None \<Rightarrow> Some (oldRds (op_sys s)) | Some p \<Rightarrow> ?h p, ?h new)")
    case (Pair a b)
    show ?thesis
    proof (cases "a = None \<or> b = None")
      case True
      with Pair show ?thesis
        by (auto simp: on_objects_def Let_def memory.step_refl split: option.split)
    next
      case False
      then obtain ob nb where some: "a = Some ob" "b = Some nb" by auto
      let ?y0 = "(op_sys s)\<lparr>oldRds := ob, newRds := nb\<rparr>"
      obtain r y where m: "m ?y0 = (r, y)" by fastforce
      have "desired (newRds y) = desired nb" "oldRds y = ob"
        using run_respectsD [OF assms m] by (simp_all add: keeps_desired_def)
      then have "map_option desired (write_back old new y ?h x) = map_option desired (?h x)" for x
        using Pair some by (auto simp: write_back_def split: option.splits)
      moreover have "snd (on_objects old new m s) =
          s\<lparr>op_sys := y, op_ctl := (op_ctl s)\<lparr>c_heap := write_back old new y ?h\<rparr>\<rparr>"
        using Pair some by (simp add: on_objects_def Let_def m)
      ultimately show ?thesis by (simp add: memory_kept_def)
    qed
  qed
qed

lemma processEvent_memory: "run_respects memory_kept (processEvent E ev)"
  unfolding processEvent_def processAddRds_def processDelRds_def
  by (intro run_intro on_objects_memory Create_kept processUpdateRds_kept kept_parts)

lemma queue_memory:
  "run_respects memory_kept (on_queue f)" "run_respects memory_kept (queue_Get Q)"
  by (auto simp: run_respects_def on_queue_eval queue_Get_def memory_kept_def split: prod.split)

lemma process_item_memory: "run_respects memory_kept (process_item Q E ev)"
  unfolding process_item_def settle_def
  by (intro run_intro queue_memory processEvent_memory)

lemma dispatch_memory: "memory_kept s (s\<lparr>op_ctl := dispatch Q n (op_ctl s)\<rparr>)"
proof -
  have "c_next c \<le> c_next (dispatch Q n c)" for c :: "'a Controller"
    by (auto simp: notifications.handle_eq split: option.split)
  then show ?thesis
    by (simp add: memory_kept_def notifications.keeps_memory)
qed

section \<open>The operator as a step relation\<close>

text \<open>
  A notification of the informer; a worker takes an event or handles the one it took; the queue
  moves; the rest of the world changes.

  While a worker handles its event, other workers and the rest of the world go on.  What they do
  reaches the worker through the answers to its calls only, since the objects of an event
  belong to it.  So an event is handled under an outside \<open>E\<close> of its own, any one at all: it
  stands for the outside with whatever the others do between two calls of the worker.
\<close>

inductive op_step :: "'q QueueApi \<Rightarrow> ('q, 'w) op \<Rightarrow> ('q, 'w) op \<Rightarrow> bool"
  for Q :: "'q QueueApi" where
  informer: "op_step Q s (s\<lparr>op_ctl := dispatch Q n (op_ctl s)\<rparr>)"
| take_event: "queue_Get Q s = (Ok (Some ev), t) \<Longrightarrow> op_step Q s (t\<lparr>op_busy := op_busy s @ [ev]\<rparr>)"
| handle_event: "ev \<in> set (op_busy s) \<Longrightarrow> process_item Q E ev s = (Ok b, t) \<Longrightarrow>
    op_step Q s (t\<lparr>op_busy := remove1 ev (op_busy s)\<rparr>)"
| queue: "q_moves Q (c_queue (op_ctl s)) q \<Longrightarrow>
    op_step Q s (s\<lparr>op_ctl := (op_ctl s)\<lparr>c_queue := q\<rparr>\<rparr>)"
| environment: "op_step Q s (s\<lparr>op_sys := (op_sys s)\<lparr>world := w\<rparr>\<rparr>)"

inductive_cases op_stepE: "op_step Q s t"

abbreviation op_steps :: "'q QueueApi \<Rightarrow> ('q, 'w) op \<Rightarrow> ('q, 'w) op \<Rightarrow> bool" where
  "op_steps Q \<equiv> (op_step Q)\<^sup>*\<^sup>*"

lemma memory_kept_busy [simp]: "memory_kept s (t\<lparr>op_busy := es\<rparr>) \<longleftrightarrow> memory_kept s t"
  by (simp add: memory_kept_def)

lemma op_step_memory:
  assumes "op_step Q s t"
  shows "memory_kept s t"
  using assms
proof (cases rule: op_step.cases)
  case (informer n)
  then show ?thesis by (simp only: dispatch_memory)
next
  case (take_event ev u)
  then show ?thesis using run_respectsD [OF queue_memory(2) take_event(2)] by simp
next
  case (handle_event ev E b u)
  then show ?thesis using run_respectsD [OF process_item_memory handle_event(3)] by simp
qed (simp_all add: memory_kept_def)

lemma op_steps_memory: "op_steps Q s t \<Longrightarrow> memory_kept s t"
  by (induction rule: rtranclp_induct) (blast intro: memory.step_refl memory.step_trans op_step_memory)+

text \<open>A worker by itself: one iteration of its loop takes an event and handles it.\<close>

definition set_busy :: "event list \<Rightarrow> ('q, 'w) op \<Rightarrow> ('q, 'w) op" where
  "set_busy es s = s\<lparr>op_busy := es\<rparr>"

lemma set_busy_sel [simp]:
  "op_ctl (set_busy es s) = op_ctl s" "op_sys (set_busy es s) = op_sys s" "op_busy (set_busy es s) = es"
  "(set_busy es s)\<lparr>op_ctl := c\<rparr> = set_busy es (s\<lparr>op_ctl := c\<rparr>)"
  "(set_busy es s)\<lparr>op_sys := y\<rparr> = set_busy es (s\<lparr>op_sys := y\<rparr>)"
  "set_busy es (set_busy fs s) = set_busy es s"
  by (simp_all add: set_busy_def)

lemma processEvent_busy:
  "processEvent E ev (set_busy es s) = map_prod id (set_busy es) (processEvent E ev s)"
  by (simp add: processEvent_def on_objects_def Let_def go_eval split: option.split prod.split)

lemma process_item_busy:
  "process_item Q E ev (set_busy es s) = map_prod id (set_busy es) (process_item Q E ev s)"
proof -
  obtain r u where "processEvent E ev s = (r, u)" by fastforce
  then show ?thesis
    by (cases r) (simp_all add: process_item_def go_eval settle_eval processEvent_busy)
qed

lemma processNextItem_steps:
  assumes "processNextItem Q E s = (Ok True, t)"
  shows "op_steps Q (set_busy [] s) (set_busy [] t)"
proof -
  obtain item q where g: "q_Get Q (c_queue (op_ctl s)) = (item, q)" by fastforce
  let ?u = "s\<lparr>op_ctl := (op_ctl s)\<lparr>c_queue := q\<rparr>\<rparr>"
  obtain ev where ev: "item = Some ev" "process_item Q E ev ?u = (Ok True, t)"
    using assms g by (auto simp: processNextItem_run split: option.splits)
  have "op_step Q (set_busy [] s) ((set_busy [] ?u)\<lparr>op_busy := op_busy (set_busy [] s) @ [ev]\<rparr>)"
    by (rule op_step.take_event) (simp add: queue_Get_def g ev(1))
  moreover have "process_item Q E ev (set_busy [ev] ?u) = (Ok True, set_busy [ev] t)"
    using ev(2) by (simp add: process_item_busy)
  then have "op_step Q (set_busy [ev] ?u) ((set_busy [ev] t)\<lparr>op_busy := remove1 ev (op_busy (set_busy [ev] ?u))\<rparr>)"
    by (intro op_step.handle_event) simp_all
  ultimately show ?thesis
    by (simp add: set_busy_def)
qed

lemma op_step_requeues:
  assumes "counts_requeues Q" and "op_step Q s t"
    and "\<And>e. q_NumRequeues Q e (c_queue (op_ctl s)) \<le> maxRetries"
  shows "q_NumRequeues Q e (c_queue (op_ctl t)) \<le> maxRetries"
  using assms(2)
proof (cases rule: op_step.cases)
  case (informer n)
  then show ?thesis
    using assms(3) by (simp add: notifications.handle_eq enqueue_def counts_requeuesD [OF assms(1)] split: option.split)
next
  case (take_event ev u)
  obtain got q where g: "q_Get Q (c_queue (op_ctl s)) = (got, q)" by fastforce
  with take_event have "c_queue (op_ctl t) = q" by (auto simp: queue_Get_run)
  then show ?thesis using assms(3) [of e] counts_requeuesD(5) [OF assms(1) g] by simp
next
  case (handle_event ev E b u)
  then show ?thesis
    using process_item_queue [OF handle_event(3)] assms(3) [of e]
    by (auto simp: counts_requeuesD(1-4) [OF assms(1)])
next
  case (queue q)
  then show ?thesis using assms(3) [of e] by (simp add: counts_requeuesD(6) [OF assms(1)])
qed (use assms(3) in auto)

section \<open>The worker's loop\<close>

lemma processNextItem_no_error: "fst (processNextItem Q E s) \<noteq> Fail e"
  by (auto simp: processNextItem_def process_item_def queue_Get_def go_eval settle_eval
      split: option.split prod.splits outcome.splits)

text \<open>A run of the loop with the events that it takes out, the last of which may crash in its handler.\<close>

inductive worker_run :: "'q QueueApi \<Rightarrow> 'w Ext \<Rightarrow> ('q, 'w) op \<Rightarrow> event list \<Rightarrow> unit outcome \<Rightarrow> ('q, 'w) op \<Rightarrow> bool"
  for Q :: "'q QueueApi" and E :: "'w Ext" where
  stop: "q_Get Q (c_queue (op_ctl s)) = (None, q) \<Longrightarrow> processNextItem Q E s = (Ok False, t) \<Longrightarrow>
     worker_run Q E s [] (Ok ()) t"
| handled: "q_Get Q (c_queue (op_ctl s)) = (Some e, q) \<Longrightarrow> processNextItem Q E s = (Ok True, t) \<Longrightarrow>
     worker_run Q E t es r u \<Longrightarrow> worker_run Q E s (e # es) r u"
| crashed: "q_Get Q (c_queue (op_ctl s)) = (Some e, q) \<Longrightarrow> processNextItem Q E s = (Crash c, t) \<Longrightarrow>
     worker_run Q E s [e] (Crash c) t"

lemma processNextItem_cases:
  fixes s :: "('q, 'w) op"
  obtains (none) q t where "q_Get Q (c_queue (op_ctl s)) = (None, q)" "processNextItem Q E s = (Ok False, t)"
      "c_queue (op_ctl t) = q"
  | (ok) e q t where "q_Get Q (c_queue (op_ctl s)) = (Some e, q)" "processNextItem Q E s = (Ok True, t)"
      "c_queue (op_ctl t) = q_Done Q e (q_Forget Q e q) \<or> c_queue (op_ctl t) = q_Done Q e (q_AddRateLimited Q e q)"
  | (crash) e q c t and v :: "('q, 'w) op" where "q_Get Q (c_queue (op_ctl s)) = (Some e, q)" "processNextItem Q E s = (Crash c, t)"
      "fst (processEvent E e v) = Crash c"
proof -
  obtain got q where g: "q_Get Q (c_queue (op_ctl s)) = (got, q)" by fastforce
  obtain r t where run: "processNextItem Q E s = (r, t)" by fastforce
  show thesis
  proof (cases got)
    case None
    with g run show thesis
      by (intro none [of q t]) (auto simp: processNextItem_def queue_Get_def go_eval)
  next
    case (Some e)
    let ?v = "s\<lparr>op_ctl := (op_ctl s)\<lparr>c_queue := q\<rparr>\<rparr>"
    have item: "process_item Q E e ?v = (r, t)"
      using g run Some by (simp add: processNextItem_def queue_Get_def go_eval)
    show thesis
    proof (cases r)
      case (Ok b)
      have "case got of None \<Rightarrow> \<not> b \<and> c_queue (op_ctl t) = q
        | Some obj \<Rightarrow> b \<and> (c_queue (op_ctl t) = q_Done Q obj (q_Forget Q obj q) \<or>
            c_queue (op_ctl t) = q_Done Q obj (q_AddRateLimited Q obj q) \<and> q_NumRequeues Q obj q < maxRetries)"
        using processNextItem_queue [OF _ g] run Ok by simp
      with Ok Some g run show thesis by (intro ok [of e q t]) auto
    next
      case (Fail x)
      then show thesis using run processNextItem_no_error [of Q E s x] by simp
    next
      case (Crash c)
      obtain p y where pe: "processEvent E e ?v = (p, y)" by fastforce
      have "p = Crash c"
      proof (rule ccontr)
        assume "p \<noteq> Crash c"
        with pe have "fst (process_item Q E e ?v) \<noteq> Crash c"
          by (cases p) (simp_all add: process_item_def go_defer_eval go_bind_eval go_try_eval go_then_eval
              settle_eval go_return_eval on_queue_eval split: outcome.split crash.split)
        with item Crash show False by simp
      qed
      with pe have "fst (processEvent E e ?v) = Crash c" by simp
      with Crash Some g run show thesis by (intro crash [of e q c t ?v]) simp_all
    qed
  qed
qed

lemma worker_ends:
  assumes "drains Q down left" and "down (c_queue (op_ctl s))"
  shows "\<exists>evs r u. runWorker Q E s = Some (r, u) \<and> worker_run Q E s evs r u"
  using assms(2)
proof (induction "left (c_queue (op_ctl s))" arbitrary: s rule: less_induct)
  case less
  show ?case
  proof (cases rule: processNextItem_cases [of Q s E])
    case (none q t)
    then show ?thesis using worker_run.stop [OF none(1,2)] by (subst runWorker.simps) auto
  next
    case (ok e q t)
    have q: "down q" "left q < left (c_queue (op_ctl s))"
      using drains_get [OF assms(1) less.prems ok(1)] by simp_all
    have "down (c_queue (op_ctl t))" "left (c_queue (op_ctl t)) < left (c_queue (op_ctl s))"
      using ok(3) drains_settle [OF assms(1) q(1)] q(2) by (metis le_less_trans)+
    from less.hyps [OF this(2,1)] obtain evs r u where
      "runWorker Q E t = Some (r, u)" "worker_run Q E t evs r u" by blast
    then show ?thesis
      using ok(2) worker_run.handled [OF ok(1,2)] by (subst runWorker.simps) auto
  next
    case (crash e q c t v)
    then show ?thesis using worker_run.crashed [OF crash(1,2)] by (subst runWorker.simps) auto
  qed
qed

lemma worker_run_drains:
  fixes s :: "('q, 'w) op"
  assumes "worker_run Q E s evs r u" and "drains_in_order Q down waiting" and "down (c_queue (op_ctl s))"
  shows "case r of
      Ok _ \<Rightarrow> prefix (waiting (c_queue (op_ctl s))) evs \<and> waiting (c_queue (op_ctl u)) = []
    | Crash c \<Rightarrow> evs \<noteq> [] \<and> (\<exists>v :: ('q, 'w) op. fst (processEvent E (last evs) v) = Crash c)
    | Fail e \<Rightarrow> False"
  using assms(1,3)
proof (induction rule: worker_run.induct)
  case (stop s q t)
  then show ?case
    using drains_in_order_get(1) [OF assms(2) stop.prems stop.hyps(1)]
    by (cases rule: processNextItem_cases [of Q s E]) auto
next
  case (handled s e q t es r u)
  have q: "down q" "waiting (c_queue (op_ctl s)) = e # waiting q"
    using drains_in_order_get(2) [OF assms(2) handled.prems handled.hyps(1)] by simp_all
  have "c_queue (op_ctl t) = q_Done Q e (q_Forget Q e q) \<or> c_queue (op_ctl t) = q_Done Q e (q_AddRateLimited Q e q)"
    using handled.hyps(1,2) by (cases rule: processNextItem_cases [of Q s E]) simp_all
  from drains_in_order_settle [OF assms(2) q(1) this]
  have t: "down (c_queue (op_ctl t)) \<and> prefix (waiting q) (waiting (c_queue (op_ctl t)))" .
  have "es \<noteq> [] \<Longrightarrow> last (e # es) = last es" by simp
  with handled.IH t q show ?case
    by (auto split: outcome.splits intro: prefix_order.trans)
next
  case (crashed s e q c t)
  then show ?case by (cases rule: processNextItem_cases [of Q s E]) auto
qed

lemma worker_run_no_error: "worker_run Q E s evs r u \<Longrightarrow> r \<noteq> Fail e"
  by (induction rule: worker_run.induct) simp_all

section \<open>Properties\<close>

text \<open>C7: in every state that the operator reaches, no event has been requeued more than 300 times:
  an event whose handler keeps failing is handled 301 times and then dropped.\<close>

theorem requeue_bounded:
  assumes "counts_requeues Q" and "op_steps Q s t"
    and "\<And>e. q_NumRequeues Q e (c_queue (op_ctl s)) = 0"
  shows "q_NumRequeues Q e (c_queue (op_ctl t)) \<le> maxRetries"
  using assms(2)
proof (induction arbitrary: e rule: rtranclp_induct)
  case base
  then show ?case using assms(3) by simp
next
  case (step t u)
  show ?case by (rule op_step_requeues [OF assms(1) step.hyps(2) step.IH])
qed

text \<open>C17: what the author of a resource wrote, its names and its specification, is never changed in
  the objects of an event, by however many steps and retries: only their status is written.\<close>

theorem event_objects_kept:
  assumes "op_steps Q s t" and "x < c_next (op_ctl s)"
  shows "map_option desired (c_heap (op_ctl t) x) = map_option desired (c_heap (op_ctl s) x)"
  using op_steps_memory [OF assms(1)] assms(2) by (simp add: memory_kept_def)

text \<open>C19: once the queue is shut down, a worker returns after it has drained it, or crashes; its
  loop does not run forever and never ends with an error.\<close>

theorem worker_returns:
  assumes "drains Q down left" and "down (c_queue (op_ctl s))"
  shows "\<exists>r t. runWorker Q E s = Some (r, t) \<and> (case r of Fail e \<Rightarrow> False | _ \<Rightarrow> True)"
  using worker_ends [OF assms, of E] worker_run_no_error by (fastforce split: outcome.splits)

text \<open>C12: an update whose status write leaves both the specification and the status different from
  the old object's is skipped with success, so the change is lost: \<open>HasChanged\<close> holds when one
  of the two is equal.\<close>

theorem update_lost:
  assumes "UpdateStatus E s = (Ok (), u)"
    and "\<not> spec_DeepEqual (rds_Spec (oldRds u)) (rds_Spec (newRds u))"
    and "rds_Status (oldRds u) \<noteq> rds_Status (newRds u)"
  shows "processUpdateRds E s = (Ok (), u) \<and> list_all (\<lambda>(c, _). status_call c) (made s u)"
proof -
  have "\<not> HasChanged (oldRds u) (newRds u)" by (rule not_HasChangedI [OF assms(2,3)])
  then have "processUpdateRds E s = (Ok (), u)"
    by (simp add: processUpdateRds_def go_then_eval go_bind_eval [of "go_get _"] go_wrap_eval go_get_eval
        go_return_eval assms(1))
  with run_respectsD [OF status_write.write_uses assms(1)] show ?thesis by (simp add: emits_made)
qed

definition demo_bigger :: "nat sys" where
  "demo_bigger = (demo_sys 1 (demo_rds ''id1''))\<lparr>oldRds := (demo_rds ''id1'')\<lparr>rds_Spec := zero_spec\<rparr>\<rparr>"

theorem update_lost_witness:
  "\<exists>u. processUpdateRds demo_ext demo_bigger = (Ok (), u) \<and>
     spec_Volumesize (rds_Spec (newRds u)) = 40 \<and> spec_Volumesize (rds_Spec (oldRds u)) = 0"
proof -
  have run: "UpdateStatus demo_ext demo_bigger = (Ok (), demo_updated demo_bigger)"
    by (rule demo_UpdateStatus) (simp_all add: demo_bigger_def demo)
  have "\<not> spec_DeepEqual (rds_Spec (oldRds (demo_updated demo_bigger))) (rds_Spec (newRds (demo_updated demo_bigger)))"
    by (simp add: demo demo_bigger_def spec_DeepEqual_def spec_value_def demo_spec_def zero_spec_def)
  moreover have "rds_Status (oldRds (demo_updated demo_bigger)) \<noteq> rds_Status (newRds (demo_updated demo_bigger))"
    by (simp add: demo demo_bigger_def demo_pushed_def)
  ultimately show ?thesis
    using update_lost [OF run] by (auto simp: demo demo_bigger_def demo_spec_def zero_spec_def)
qed

text \<open>An update that gets past \<open>HasChanged\<close> and the state is \<open>Update\<close> on copies of the objects.\<close>

lemma processUpdateRds_passed:
  assumes "UpdateStatus E s = (Ok (), u)" and "HasChanged (oldRds u) (newRds u)"
    and "status_Status (rds_Status (newRds u)) = ''ACTIVE''"
  shows "processUpdateRds E s =
    (fst (Update E u), (snd (Update E u))\<lparr>oldRds := oldRds u, newRds := newRds u\<rparr>)"
  using assms
  by (simp add: processUpdateRds_def go_then_eval go_wrap_eval go_bind_eval [of "go_get _"] go_get_eval
      on_copies_def split_beta)

lemma processUpdateRds_core:
  assumes "processUpdateRds E s = (r, t)"
  shows "resource_core (newRds t) = resource_core (newRds s)" and "oldRds t = oldRds s"
proof -
  obtain q u where run: "UpdateStatus E s = (q, u)" by fastforce
  have "newRds t = newRds u \<and> oldRds t = oldRds u"
    using assms
    by (cases q) (auto simp: run processUpdateRds_def go_then_eval go_wrap_eval go_bind_eval [of "go_get _"]
      go_get_eval go_return_eval go_fail_eval perform_w_eval on_copies_def split_beta split: if_splits)
  with status_write.write_core_eq [OF run] status_write.write_keeps_old [OF run]
  show "resource_core (newRds t) = resource_core (newRds s)" and "oldRds t = oldRds s" by simp_all
qed

text \<open>C11: an update reaches the cloud, beyond the status write and a pause, only for a resource that
  the status write found active and whose \<open>HasChanged\<close> holds; and whatever the update does to
  its copies of the objects, the event's own carry the status write only, so that a retry starts
  from the same flags and the same specification.\<close>

theorem update_gate:
  "case processUpdateRds E s of (r, t) \<Rightarrow>
     resource_core (newRds t) = resource_core (newRds s) \<and> oldRds t = oldRds s \<and>
     (case UpdateStatus E s of (q, u) \<Rightarrow>
        if q = Ok () \<and> HasChanged (oldRds u) (newRds u) \<and> status_Status (rds_Status (newRds u)) = ''ACTIVE''
        then newRds t = newRds u \<and> r = fst (Update E u)
        else list_all (\<lambda>(c, _). status_call c \<or> c = SYS (CSleep 30)) (made s t) \<and>
          (r = Ok () \<longleftrightarrow> q = Ok () \<and> \<not> HasChanged (oldRds u) (newRds u)))"
proof -
  obtain q u where run: "UpdateStatus E s = (q, u)" by fastforce
  have u: "resource_core (newRds u) = resource_core (newRds s)" "oldRds u = oldRds s"
    using status_write.write_core_eq [OF run] status_write.write_keeps_old [OF run] by simp_all
  obtain new where new: "calls u = calls s @ new" "list_all (\<lambda>(c, _). status_call c) new"
    using run_respectsD [OF status_write.write_uses run] by (auto simp: emits_def)
  then have quiet: "list_all (\<lambda>(c, _). status_call c \<or> c = SYS (CSleep 30)) (made s u)"
    by (auto simp: seen_same_calls list_all_iff)
  have slept: "list_all (\<lambda>(c, _). status_call c \<or> c = SYS (CSleep 30)) (made s (log_call (SYS (CSleep 30)) True w u))" for w
    using new by (auto simp: made_def list_all_iff)
  show ?thesis
    using u quiet slept
    by (cases q; cases "HasChanged (oldRds u) (newRds u)";
        cases "status_Status (rds_Status (newRds u)) = ''ACTIVE''")
      (simp_all add: run processUpdateRds_def go_then_eval go_wrap_eval go_bind_eval [of "go_get _"]
        go_get_eval go_return_eval go_fail_eval perform_w_eval on_copies_def split_beta)
qed

section \<open>A concrete operator\<close>

definition demo_op :: "(item_queue, nat) op" where
  "demo_op = \<lparr>op_ctl = new_controller ''ns'' ''ns other'' 10 empty_queue,
     op_sys = demo_sys 1 (demo_rds ''id1''), op_busy = []\<rparr>"

text \<open>The deletion of a resource without identifier: it fails and is requeued.\<close>

definition demo_event :: event where
  "demo_event = \<lparr>ev_eventType = delRds_type, ev_oldObj = None, ev_newObj = 0\<rparr>"

definition demo_notified :: "(item_queue, nat) op" where
  "demo_notified = demo_op\<lparr>op_ctl := dispatch demo_queue (OnDelete (RdsObject (demo_rds ''''))) (op_ctl demo_op)\<rparr>"

lemma demo_watched: "watched ''ns other'' (demo_rds i)"
  by (simp add: watched_def Fields_def is_space_def demo)

lemma demo_notified_eq:
  "op_ctl demo_notified = (op_ctl demo_op)\<lparr>c_queue := iq_add demo_event empty_queue,
     c_heap := (c_heap (op_ctl demo_op))(0 \<mapsto> demo_rds ''''), c_next := 1\<rparr>"
  "op_sys demo_notified = op_sys demo_op"
  by (simp_all add: demo_notified_def demo_op_def new_controller_def dispatch_def delRds_def as_Rds_def
      demo_watched store_rds_def queue_Add_def demo_queue_def demo_event_def)

lemma demo_delete_fails: "\<exists>e t. Delete demo_ext ((demo_sys 1 r)\<lparr>newRds := demo_rds ''''\<rparr>) = (Fail e, t)"
  by (simp add: Delete_def rdsDelete_def demo)

lemma demo_item:
  "\<exists>t. processNextItem demo_queue demo_ext demo_notified = (Ok True, t) \<and>
     q_NumRequeues demo_queue demo_event (c_queue (op_ctl t)) = 1 \<and> c_heap (op_ctl t) 0 = Some (demo_rds '''')"
proof -
  let ?s = "(op_sys demo_op)\<lparr>oldRds := demo_rds ''id1'', newRds := demo_rds ''''\<rparr>"
  obtain e t where d: "Delete demo_ext ?s = (Fail e, t)"
    using demo_delete_fails [of "demo_rds ''id1''"] by (auto simp: demo_op_def demo_sys_def)
  moreover have "newRds t = demo_rds ''''"
    using Delete_keeps_resource [of demo_ext ?s] d by simp
  ultimately show ?thesis
    by (simp add: processNextItem_def process_item_def queue_Get_def demo_notified_eq demo_queue_defs
        empty_queue_def demo_op_def new_controller_def go_eval settle_eval processEvent_def demo_event_def
        addRds_type_def delRds_type_def on_objects_def processDelRds_def write_back_def maxRetries_def demo_sys_def)
qed

lemma demo_notified_step: "op_step demo_queue demo_op demo_notified"
  unfolding demo_notified_def by (rule op_step.informer)

lemma demo_steps:
  obtains t where "op_steps demo_queue demo_notified t"
    and "q_NumRequeues demo_queue demo_event (c_queue (op_ctl t)) = 1" and "c_heap (op_ctl t) 0 = Some (demo_rds '''')"
proof -
  obtain t where "processNextItem demo_queue demo_ext demo_notified = (Ok True, t)"
      "q_NumRequeues demo_queue demo_event (c_queue (op_ctl t)) = 1" "c_heap (op_ctl t) 0 = Some (demo_rds '''')"
    using demo_item by blast
  moreover have "set_busy [] demo_notified = demo_notified"
    by (simp add: set_busy_def demo_notified_def demo_op_def)
  ultimately show thesis
    using processNextItem_steps [of demo_queue demo_ext demo_notified t] that [of "set_busy [] t"] by simp
qed

theorem requeue_bounded_witness:
  "\<exists>t. op_steps demo_queue demo_op t \<and>
     q_NumRequeues demo_queue demo_event (c_queue (op_ctl t)) = 1 \<and> 1 \<le> maxRetries"
proof -
  obtain t where st: "op_steps demo_queue demo_notified t"
      and n: "q_NumRequeues demo_queue demo_event (c_queue (op_ctl t)) = 1"
    by (rule demo_steps)
  have t: "op_steps demo_queue demo_op t"
    by (rule converse_rtranclp_into_rtranclp [OF demo_notified_step st])
  have "q_NumRequeues demo_queue e (c_queue (op_ctl demo_op)) = 0" for e
    by (simp add: demo_queue_def demo_op_def new_controller_def empty_queue_def)
  from requeue_bounded [OF demo_queue_counts t this, of demo_event] t n show ?thesis by auto
qed

theorem event_objects_kept_witness:
  "\<exists>t. op_step demo_queue demo_op demo_notified \<and> op_steps demo_queue demo_notified t \<and>
     map_option desired (c_heap (op_ctl t) 0) = Some (desired (demo_rds ''''))"
proof -
  obtain t where st: "op_steps demo_queue demo_notified t" by (rule demo_steps)
  moreover have "(0 :: addr) < c_next (op_ctl demo_notified)" by (simp add: demo_notified_eq)
  ultimately show ?thesis
    using event_objects_kept [OF st] demo_notified_step by (auto simp: demo_notified_eq)
qed

theorem worker_returns_witness:
  "\<exists>r t. runWorker demo_queue demo_ext (demo_notified\<lparr>op_ctl := (op_ctl demo_notified)\<lparr>c_queue :=
      q_ShutDown demo_queue (c_queue (op_ctl demo_notified))\<rparr>\<rparr>) = Some (r, t)"
proof -
  let ?s = "demo_notified\<lparr>op_ctl := (op_ctl demo_notified)\<lparr>c_queue :=
      q_ShutDown demo_queue (c_queue (op_ctl demo_notified))\<rparr>\<rparr>"
  have "iq_down (c_queue (op_ctl ?s))" by (simp add: demo_queue_def)
  from worker_returns [OF demo_queue_drains this, of demo_ext] show ?thesis by blast
qed

end
