(* ===== verification/Flavor_Lookup.thy ===== *)
theory Flavor_Lookup
  imports Demo_Cloud "HOL-Library.Multiset"
begin

text \<open>
  \<open>RdsFlavorLookup\<close> of \<open>pkg/controller/resource.go\<close>: the next flavor for an alarm on the CPU or
  the memory.  The source walks the availability zones of every flavor in two nested loops
  over a Go map, appends a candidate for each hit and sorts them with \<open>uniq.Slice\<close>, a parameter
  of the model (\<open>o_UniqSlice\<close>) with its documented contract as \<open>uniq_contract\<close>.  The lemmas
  give the candidates without the loops, whatever the order of the map, and what is chosen.
\<close>

section \<open>String comparison\<close>

text \<open>Go's \<open><\<close> on strings compares bytes from the left.\<close>

fun str_less :: "string \<Rightarrow> string \<Rightarrow> bool" where
  "str_less [] ys = (ys \<noteq> [])"
| "str_less (x # xs) [] = False"
| "str_less (x # xs) (y # ys) = ((of_char x :: nat) < of_char y \<or> x = y \<and> str_less xs ys)"

lemma str_less_irrefl [simp]: "\<not> str_less xs xs"
  by (induction xs) auto

section \<open>The lookup\<close>

definition zones_of :: "string \<Rightarrow> string \<times> string" where
  "zones_of availabilityzone =
     (let azs = Split availabilityzone CHR '','' in (azs ! 0, if 1 < length azs then azs ! 1 else ''''))"

definition current_size :: "string \<Rightarrow> Flavor list \<Rightarrow> string \<times> int" where
  "current_size flavorref rdsFlavors =
     fold (\<lambda>rds cur. if fl_SpecCode rds = flavorref then (fl_VCPUs rds, fl_RAM rds) else cur)
       rdsFlavors (''0'', 0)"

definition posflavor_of :: "Flavor \<Rightarrow> Posflavor" where
  "posflavor_of rds =
     \<lparr>pf_VCPUs = fst (Atoi (fl_VCPUs rds)), pf_RAM = fl_RAM rds, pf_Spec = fl_SpecCode rds\<rparr>"

text \<open>The body of the inner loop: a cluster flavor for a cluster, a single one for a single.\<close>

definition append_candidate :: "string \<Rightarrow> (Flavor \<Rightarrow> bool) \<Rightarrow> Flavor \<Rightarrow> Posflavor list \<Rightarrow> Posflavor list" where
  "append_candidate flavorref bigger rds pos =
     (let pos' = (if HasSuffix flavorref ''.ha'' \<and> HasSuffix (fl_SpecCode rds) ''.ha'' \<and> bigger rds
                  then pos @ [posflavor_of rds] else pos)
      in if \<not> HasSuffix flavorref ''.ha'' \<and> \<not> HasSuffix (fl_SpecCode rds) ''.rr'' \<and>
            \<not> HasSuffix (fl_SpecCode rds) ''.ha'' \<and> bigger rds
         then pos' @ [posflavor_of rds] else pos')"

definition zone_loop :: "string \<Rightarrow> string \<Rightarrow> string \<Rightarrow> (Flavor \<Rightarrow> bool) \<Rightarrow> Flavor \<Rightarrow>
    Posflavor list \<Rightarrow> Posflavor list" where
  "zone_loop az1 az2 flavorref bigger rds =
     fold (\<lambda>(n, az) pos. if n = az1 \<and> az = ''normal''
             then fold (\<lambda>(l, az) pos. if az2 = '''' \<or> l = az2 \<and> az = ''normal''
                          then append_candidate flavorref bigger rds pos else pos)
                    (fl_AzStatus rds) pos
             else pos)
       (fl_AzStatus rds)"

definition posflavors :: "RdsSpec \<Rightarrow> (Flavor \<Rightarrow> bool) \<Rightarrow> Flavor list \<Rightarrow> Posflavor list" where
  "posflavors sp bigger rdsFlavors =
     (case zones_of (spec_Availabilityzone sp) of (az1, az2) \<Rightarrow>
        fold (zone_loop az1 az2 (spec_Flavorref sp) bigger) rdsFlavors [])"

text \<open>\<open>posflavor[:uniq.Slice(posflavor, less)]\<close> and its first element.\<close>

definition smallest :: "'w Ext \<Rightarrow> (Posflavor \<Rightarrow> Posflavor \<Rightarrow> bool) \<Rightarrow> Posflavor list \<Rightarrow> gerror + string" where
  "smallest E smaller pos =
     (case o_UniqSlice (otc E) smaller pos of (kept, n) \<Rightarrow>
        (case take n kept of [] \<Rightarrow> Inl (new_error ''no flavor found'') | p # _ \<Rightarrow> Inr (pf_Spec p)))"

definition pick_flavor :: "'w Ext \<Rightarrow> string \<Rightarrow> RdsSpec \<Rightarrow> Flavor list \<Rightarrow> gerror + string" where
  "pick_flavor E raisetype sp rdsFlavors =
     (case current_size (spec_Flavorref sp) rdsFlavors of (curCpu, curMem) \<Rightarrow>
        if raisetype = ''cpu''
        then smallest E (\<lambda>a b. pf_VCPUs a < pf_VCPUs b)
               (posflavors sp (\<lambda>rds. str_less curCpu (fl_VCPUs rds)) rdsFlavors)
        else if raisetype = ''mem''
        then smallest E (\<lambda>a b. pf_RAM a < pf_RAM b)
               (posflavors sp (\<lambda>rds. curMem < fl_RAM rds) rdsFlavors)
        else Inl (new_error ''no flavor found''))"

text \<open>\<open>klog.Exitf\<close> in the error branch: the process ends.\<close>

definition or_exit :: "('s, 'a) go \<Rightarrow> ('s, 'a) go" where
  "or_exit m = go_bind (go_try m) (\<lambda>r. case r of Inl e \<Rightarrow> go_crash ProcessExit | Inr a \<Rightarrow> go_return a)"

definition RdsFlavorLookup :: "'w Ext \<Rightarrow> Rds \<Rightarrow> string \<Rightarrow> ('w sys, string) go" where
  "RdsFlavorLookup E rds raisetype =
     (let sp = rds_Spec rds; version = spec_Datastoreversion sp; kind = spec_Datastoretype sp in
      go_bind (GetProvider E) (\<lambda>provider.
      go_bind (NewClient E RDSV3 provider) (\<lambda>client.
      go_bind (or_exit (perform_e (RDS (CFlavorList version kind))
                 (o_FlavorPages (otc E) client version kind))) (\<lambda>allFlavorPages.
      go_bind (or_exit (go_lift (o_ExtractDbFlavors (otc E) allFlavorPages))) (\<lambda>rdsFlavors.
      go_lift (pick_flavor E raisetype sp rdsFlavors))))))"

section \<open>The candidates without the loops\<close>

definition right_mode :: "string \<Rightarrow> Flavor \<Rightarrow> bool" where
  "right_mode flavorref rds \<longleftrightarrow>
     (if HasSuffix flavorref ''.ha'' then HasSuffix (fl_SpecCode rds) ''.ha''
      else \<not> HasSuffix (fl_SpecCode rds) ''.rr'' \<and> \<not> HasSuffix (fl_SpecCode rds) ''.ha'')"

definition hits :: "(string \<times> string \<Rightarrow> bool) \<Rightarrow> Flavor \<Rightarrow> nat" where
  "hits p rds = length (filter p (fl_AzStatus rds))"

definition in_first :: "string \<Rightarrow> string \<times> string \<Rightarrow> bool" where
  "in_first az1 e \<longleftrightarrow> e = (az1, ''normal'')"

definition in_second :: "string \<Rightarrow> string \<times> string \<Rightarrow> bool" where
  "in_second az2 e \<longleftrightarrow> az2 = '''' \<or> e = (az2, ''normal'')"

definition copies :: "string \<Rightarrow> string \<Rightarrow> string \<Rightarrow> (Flavor \<Rightarrow> bool) \<Rightarrow> Flavor \<Rightarrow> Posflavor list" where
  "copies az1 az2 flavorref bigger rds =
     (if right_mode flavorref rds \<and> bigger rds
      then replicate (hits (in_first az1) rds * hits (in_second az2) rds) (posflavor_of rds) else [])"

lemma append_candidate_eq:
  "append_candidate fr bigger rds pos =
     pos @ (if right_mode fr rds \<and> bigger rds then [posflavor_of rds] else [])"
  by (simp add: append_candidate_def right_mode_def Let_def)

lemma concat_replicate_replicate:
  "concat (replicate m (replicate n x)) = replicate (m * n) x"
  by (induction m) (simp_all add: replicate_add)

lemma concat_replicate_Nil [simp]: "concat (replicate m []) = []"
  by (induction m) simp_all

lemma concat_replicate_single [simp]: "concat (replicate m [x]) = replicate m x"
  by (induction m) simp_all

lemma inner_zone_loop:
  "fold (\<lambda>(l, az) pos. if az2 = '''' \<or> l = az2 \<and> az = ''normal''
        then append_candidate fr bigger rds pos else pos) xs pos =
     pos @ (if right_mode fr rds \<and> bigger rds
       then replicate (length (filter (in_second az2) xs)) (posflavor_of rds) else [])"
  by (induction xs arbitrary: pos) (auto simp: append_candidate_eq in_second_def split: if_splits)

lemma zone_loop_eq: "zone_loop az1 az2 fr bigger rds pos = pos @ copies az1 az2 fr bigger rds"
proof -
  have "fold (\<lambda>(n, az) pos. if n = az1 \<and> az = ''normal'' then pos @ ys else pos) xs pos =
      pos @ concat (replicate (length (filter (in_first az1) xs)) ys)" for xs ys
    by (induction xs arbitrary: pos) (auto simp: in_first_def split: if_splits)
  then show ?thesis
    unfolding zone_loop_def inner_zone_loop hits_def [symmetric]
    by (simp add: copies_def concat_replicate_replicate hits_def)
qed

lemma posflavors_eq:
  "posflavors sp bigger fls =
     (case zones_of (spec_Availabilityzone sp) of (az1, az2) \<Rightarrow>
        concat (map (copies az1 az2 (spec_Flavorref sp) bigger) fls))"
proof -
  have "fold (zone_loop az1 az2 fr bigger) fls pos = pos @ concat (map (copies az1 az2 fr bigger) fls)"
    for az1 az2 fr pos
    by (induction fls arbitrary: pos) (simp_all add: zone_loop_eq)
  then show ?thesis by (simp add: posflavors_def split: prod.split)
qed

section \<open>The specification of a choice\<close>

definition suitable :: "RdsSpec \<Rightarrow> Flavor \<Rightarrow> bool" where
  "suitable sp rds \<longleftrightarrow> (case zones_of (spec_Availabilityzone sp) of (az1, az2) \<Rightarrow>
     right_mode (spec_Flavorref sp) rds \<and> (az1, ''normal'') \<in> set (fl_AzStatus rds) \<and>
     (az2 = '''' \<or> (az2, ''normal'') \<in> set (fl_AzStatus rds)))"

definition upgrades :: "RdsSpec \<Rightarrow> (Flavor \<Rightarrow> bool) \<Rightarrow> Flavor list \<Rightarrow> Flavor list" where
  "upgrades sp bigger rdsFlavors = filter (\<lambda>f. suitable sp f \<and> bigger f) rdsFlavors"

text \<open>An upgrade of least size, or an error when there is none.\<close>

definition least_upgrade :: "RdsSpec \<Rightarrow> (Flavor \<Rightarrow> bool) \<Rightarrow> (Flavor \<Rightarrow> int) \<Rightarrow> Flavor list \<Rightarrow>
    gerror + string \<Rightarrow> bool" where
  "least_upgrade sp bigger sz rdsFlavors r \<longleftrightarrow>
     (case r of
        Inl e \<Rightarrow> upgrades sp bigger rdsFlavors = []
      | Inr code \<Rightarrow> list_ex (\<lambda>f. fl_SpecCode f = code \<and>
          list_all (\<lambda>g. sz f \<le> sz g) (upgrades sp bigger rdsFlavors)) (upgrades sp bigger rdsFlavors))"

text \<open>
  The contract of \<open>uniq.Slice\<close> for an order by a number: the first \<open>n\<close> elements are sorted
  without duplicates, come from the input, and each element of the input has its equal there.
\<close>

definition uniq_contract :: "'w Ext \<Rightarrow> bool" where
  "uniq_contract E \<longleftrightarrow> (\<forall>(f :: Posflavor \<Rightarrow> int) pos.
     case o_UniqSlice (otc E) (\<lambda>a b. f a < f b) pos of (kept, n) \<Rightarrow>
       n \<le> length kept \<and> sorted_wrt (<) (map f (take n kept)) \<and>
       set (take n kept) \<subseteq> set pos \<and> f ` set (take n kept) = f ` set pos)"

lemma posflavors_set:
  "set (posflavors sp bigger fls) = posflavor_of ` set (upgrades sp bigger fls)"
proof -
  obtain az1 az2 where z: "zones_of (spec_Availabilityzone sp) = (az1, az2)" by fastforce
  have hit: "0 < hits p f \<longleftrightarrow> (\<exists>e \<in> set (fl_AzStatus f). p e)" for p f
    by (simp add: hits_def filter_empty_conv)
  have "set (copies az1 az2 (spec_Flavorref sp) bigger f) = (if suitable sp f \<and> bigger f then {posflavor_of f} else {})" for f
    using hit [of "in_first az1" f] hit [of "in_second az2" f]
    by (auto simp: copies_def suitable_def z in_first_def in_second_def)
  then show ?thesis
    by (auto simp: posflavors_eq z upgrades_def split: if_splits)
qed

lemma uniq_contractD:
  fixes f :: "Posflavor \<Rightarrow> int"
  assumes "uniq_contract E" and "o_UniqSlice (otc E) (\<lambda>a b. f a < f b) pos = (xs, n)"
  shows "sorted_wrt (<) (map f (take n xs))" "set (take n xs) \<subseteq> set pos"
    "f ` set (take n xs) = f ` set pos"
  using assms(1) [unfolded uniq_contract_def, rule_format, of f pos] assms(2) by simp_all

lemma smallest_spec:
  fixes f :: "Posflavor \<Rightarrow> int"
  assumes "uniq_contract E"
  shows "case smallest E (\<lambda>a b. f a < f b) pos of
      Inl e \<Rightarrow> pos = [] \<and> e = new_error ''no flavor found''
    | Inr code \<Rightarrow> \<exists>p \<in> set pos. pf_Spec p = code \<and> (\<forall>q \<in> set pos. f p \<le> f q)"
proof -
  obtain xs n where u: "o_UniqSlice (otc E) (\<lambda>a b. f a < f b) pos = (xs, n)" by fastforce
  let ?u = "take n xs"
  note c = uniq_contractD [OF assms u]
  show ?thesis
  proof (cases ?u)
    case Nil
    with c(3) have "pos = []" by simp
    with u show ?thesis by (simp add: smallest_def Nil)
  next
    case (Cons p ps)
    then have "f p \<le> y" if "y \<in> f ` set ?u" for y
      using c(1) that by (auto simp: less_imp_le)
    with c(3) have "f p \<le> f q" if "q \<in> set pos" for q using that by auto
    moreover have "p \<in> set pos" using c(2) Cons by auto
    ultimately show ?thesis using Cons u by (auto simp: smallest_def)
  qed
qed

lemma smallest_least:
  assumes "uniq_contract E" and "\<And>f. key (posflavor_of f) = sz f"
  shows "least_upgrade sp bigger sz fls (smallest E (\<lambda>a b. key a < key b) (posflavors sp bigger fls))"
proof -
  let ?ps = "posflavors sp bigger fls"
  have sp: "pf_Spec (posflavor_of f) = fl_SpecCode f" for f by (simp add: posflavor_of_def)
  show ?thesis
  proof (cases "smallest E (\<lambda>a b. key a < key b) ?ps")
    case (Inl e)
    then have "?ps = []" using smallest_spec [OF assms(1), where f = key and pos = "?ps"] by simp
    then show ?thesis using Inl posflavors_set [of sp bigger fls] by (simp add: least_upgrade_def)
  next
    case (Inr code)
    then show ?thesis
      using smallest_spec [OF assms(1), where f = key and pos = "?ps"]
      by (auto simp: least_upgrade_def posflavors_set list_ex_iff list_all_iff sp assms(2))
  qed
qed

section \<open>Properties\<close>

text \<open>The order of the CPU counts: of numbers with equally many digits it is the order of the numbers.\<close>

definition numeral_value :: "string \<Rightarrow> nat" where
  "numeral_value s = foldl (\<lambda>n c. 10 * n + digit_val c) 0 s"

definition same_digits :: "string \<Rightarrow> string \<Rightarrow> bool" where
  "same_digits a b \<longleftrightarrow> length a = length b \<and> list_all is_digit a \<and> list_all is_digit b"

definition more_cpus :: "string \<Rightarrow> Flavor \<Rightarrow> bool" where
  "more_cpus cpus f \<longleftrightarrow> (if same_digits cpus (fl_VCPUs f) then numeral_value cpus < numeral_value (fl_VCPUs f)
     else str_less cpus (fl_VCPUs f))"

lemma digits_value:
  "list_all is_digit s \<Longrightarrow> n * 10 ^ length s \<le> foldl (\<lambda>n c. 10 * n + digit_val c) n s \<and>
     foldl (\<lambda>n c. 10 * n + digit_val c) n s < (n + 1) * 10 ^ length s"
proof (induction s arbitrary: n)
  case (Cons c s)
  let ?m = "10 * n + digit_val c"
  have "digit_val c < 10" using Cons.prems unfolding is_digit_def digit_val_def by simp linarith
  then have "10 * n * 10 ^ length s \<le> ?m * 10 ^ length s" "(?m + 1) * 10 ^ length s \<le> (10 * (n + 1)) * 10 ^ length s"
    by (intro mult_le_mono1; simp)+
  moreover have "?m * 10 ^ length s \<le> foldl (\<lambda>n c. 10 * n + digit_val c) ?m s"
    "foldl (\<lambda>n c. 10 * n + digit_val c) ?m s < (?m + 1) * 10 ^ length s"
    using Cons.IH [of ?m] Cons.prems by simp_all
  ultimately have "10 * n * 10 ^ length s \<le> foldl (\<lambda>n c. 10 * n + digit_val c) ?m s"
    "foldl (\<lambda>n c. 10 * n + digit_val c) ?m s < (10 * (n + 1)) * 10 ^ length s"
    by linarith+
  moreover have "k * 10 ^ length (c # s) = 10 * k * 10 ^ length s" for k :: nat by simp
  ultimately show ?case by (simp only: foldl_Cons)
qed simp

lemma str_less_digits:
  "length a = length b \<Longrightarrow> list_all is_digit a \<Longrightarrow> list_all is_digit b \<Longrightarrow>
     str_less a b \<longleftrightarrow> foldl (\<lambda>n c. 10 * n + digit_val c) n a < foldl (\<lambda>n c. 10 * n + digit_val c) n b"
proof (induction a b arbitrary: n rule: list_induct2)
  case (Cons x xs y ys)
  let ?v = "foldl (\<lambda>n c. 10 * n + digit_val c)"
  have digits: "is_digit x" "is_digit y" using Cons.prems by simp_all
  consider "x = y" | "digit_val x < digit_val y" "(of_char x :: nat) < of_char y"
    | "digit_val y < digit_val x" "(of_char y :: nat) < of_char x"
    using digits by (metis digit_val_def diff_less_mono is_digit_def linorder_neqE_nat of_char_eq_iff)
  then show ?case
  proof cases
    case 1
    with Cons show ?thesis by simp
  next
    case 2
    have "(10 * n + digit_val x + 1) * 10 ^ length ys \<le> (10 * n + digit_val y) * 10 ^ length ys"
      using 2(1) by (intro mult_le_mono1) simp
    with 2 Cons.hyps digits_value [of xs "10 * n + digit_val x"] digits_value [of ys "10 * n + digit_val y"] Cons.prems
    show ?thesis by simp
  next
    case 3
    have "(10 * n + digit_val y + 1) * 10 ^ length ys \<le> (10 * n + digit_val x) * 10 ^ length ys"
      using 3(1) by (intro mult_le_mono1) simp
    with 3 Cons.hyps digits_value [of xs "10 * n + digit_val x"] digits_value [of ys "10 * n + digit_val y"] Cons.prems
    show ?thesis by auto
  qed
qed simp

lemma more_cpus_str: "more_cpus cpus f = str_less cpus (fl_VCPUs f)"
  using str_less_digits [of cpus "fl_VCPUs f" 0] by (simp add: more_cpus_def same_digits_def numeral_value_def)

text \<open>C21: with the contract of \<open>uniq.Slice\<close>, the lookup gives a flavor of the listing that runs in
  the zones of the resource, has its mode, is larger than the current one, and is of least
  size among those; it fails exactly when there is none.  For \<open>mem\<close> larger means more memory.  For
  \<open>cpu\<close> it means more CPUs only between numbers with equally many digits; otherwise the numbers
  are compared as strings, so that 16 is not larger than 8 and 2 is larger than 16, although the
  size is the number.\<close>

theorem flavor_upgrade_least:
  assumes "uniq_contract E" and "current_size (spec_Flavorref sp) fls = (cpus, ram)"
  shows "least_upgrade sp (\<lambda>f. ram < fl_RAM f) fl_RAM fls (pick_flavor E ''mem'' sp fls) \<and>
    least_upgrade sp (more_cpus cpus) (\<lambda>f. fst (Atoi (fl_VCPUs f))) fls (pick_flavor E ''cpu'' sp fls)"
  using smallest_least [OF assms(1), of pf_RAM fl_RAM sp _ fls]
    smallest_least [OF assms(1), of pf_VCPUs "\<lambda>f. fst (Atoi (fl_VCPUs f))" sp _ fls]
  by (simp add: pick_flavor_def assms(2) posflavor_of_def more_cpus_str [abs_def])

text \<open>The contract holds for a sorting function that inserts each element in its place.\<close>

lemma uniq_insert_props:
  fixes f :: "'a \<Rightarrow> int"
  assumes "sorted_wrt (<) (map f ys)"
  shows "sorted_wrt (<) (map f (uniq_insert (\<lambda>a b. f a < f b) x ys)) \<and>
    set (uniq_insert (\<lambda>a b. f a < f b) x ys) \<subseteq> insert x (set ys) \<and>
    f ` set (uniq_insert (\<lambda>a b. f a < f b) x ys) = insert (f x) (f ` set ys)"
  using assms
proof (induction ys)
  case (Cons y ys)
  then show ?case by auto
qed simp

lemma demo_uniq_props:
  fixes f :: "'a \<Rightarrow> int"
  shows "sorted_wrt (<) (map f (demo_uniq (\<lambda>a b. f a < f b) xs)) \<and>
    set (demo_uniq (\<lambda>a b. f a < f b) xs) \<subseteq> set xs \<and> f ` set (demo_uniq (\<lambda>a b. f a < f b) xs) = f ` set xs"
proof (induction xs rule: rev_induct)
  case (snoc x xs)
  have step: "demo_uniq lt (xs @ [x]) = uniq_insert lt x (demo_uniq lt xs)" for lt :: "'a \<Rightarrow> 'a \<Rightarrow> bool"
    by (simp add: demo_uniq_def)
  show ?case
    using uniq_insert_props [of f "demo_uniq (\<lambda>a b. f a < f b) xs" x] snoc unfolding step by auto
qed (simp add: demo_uniq_def)

lemma demo_uniq_contract: "uniq_contract demo_ext"
  unfolding uniq_contract_def
proof (intro allI)
  fix f :: "Posflavor \<Rightarrow> int" and pos
  show "case o_UniqSlice (otc demo_ext) (\<lambda>a b. f a < f b) pos of (kept, n) \<Rightarrow>
      n \<le> length kept \<and> sorted_wrt (<) (map f (take n kept)) \<and>
      set (take n kept) \<subseteq> set pos \<and> f ` set (take n kept) = f ` set pos"
    using demo_uniq_props [of f pos] by (simp add: demo)
qed

definition demo_zone_spec :: RdsSpec where
  "demo_zone_spec = zero_spec\<lparr>spec_Availabilityzone := ''eu-de-01'', spec_Flavorref := ''rds.c2''\<rparr>"

definition demo_flavors :: "Flavor list" where
  "demo_flavors = [demo_flavor ''8'' 16 ''rds.c8'' [(''eu-de-02'', ''normal''), (''eu-de-01'', ''normal'')],
     demo_flavor ''4'' 8 ''rds.c4'' [(''eu-de-01'', ''normal''), (''eu-de-02'', ''sellout'')],
     demo_flavor ''2'' 4 ''rds.c2'' [(''eu-de-01'', ''normal'')]]"

lemmas demo_flavor_simps = demo_flavors_def demo_flavor_def demo_zone_spec_def zero_spec_def
  current_size_def zones_of_def Split_def suitable_def upgrades_def right_mode_def HasSuffix_def

theorem flavor_upgrade_least_witness:
  "least_upgrade demo_zone_spec (\<lambda>f. 4 < fl_RAM f) fl_RAM demo_flavors (pick_flavor demo_ext ''mem'' demo_zone_spec demo_flavors) \<and>
   length (upgrades demo_zone_spec (\<lambda>f. 4 < fl_RAM f) demo_flavors) = 2 \<and>
   least_upgrade demo_zone_spec (more_cpus ''2'') (\<lambda>f. fst (Atoi (fl_VCPUs f))) demo_flavors
     (pick_flavor demo_ext ''cpu'' demo_zone_spec demo_flavors) \<and>
   numeral_value ''2'' < numeral_value ''16'' \<and> \<not> more_cpus ''2'' (demo_flavor ''16'' 32 ''rds.c16'' [])"
proof -
  have "current_size (spec_Flavorref demo_zone_spec) demo_flavors = (''2'', 4)"
    by (simp add: demo_flavor_simps)
  from flavor_upgrade_least [OF demo_uniq_contract this]
  have "least_upgrade demo_zone_spec (\<lambda>f. 4 < fl_RAM f) fl_RAM demo_flavors (pick_flavor demo_ext ''mem'' demo_zone_spec demo_flavors) \<and>
    least_upgrade demo_zone_spec (more_cpus ''2'') (\<lambda>f. fst (Atoi (fl_VCPUs f))) demo_flavors
      (pick_flavor demo_ext ''cpu'' demo_zone_spec demo_flavors)" .
  moreover have "length (upgrades demo_zone_spec (\<lambda>f. 4 < fl_RAM f) demo_flavors) = 2"
    by (simp add: demo_flavor_simps)
  moreover have "\<not> more_cpus ''2'' (demo_flavor ''16'' 32 ''rds.c16'' [])"
    by (simp add: more_cpus_str demo_flavor_def)
  ultimately show ?thesis by (simp add: numeral_value_def digit_val_def)
qed

text \<open>Listings that differ in the iteration order of the map of zones only.\<close>

definition same_flavor :: "Flavor \<Rightarrow> Flavor \<Rightarrow> bool" where
  "same_flavor f g \<longleftrightarrow> fl_VCPUs f = fl_VCPUs g \<and> fl_RAM f = fl_RAM g \<and> fl_SpecCode f = fl_SpecCode g \<and>
     mset (fl_AzStatus f) = mset (fl_AzStatus g)"

lemma same_flavor_hits: "same_flavor f g \<Longrightarrow> hits p f = hits p g"
  unfolding same_flavor_def hits_def by (metis mset_filter size_mset)

lemma same_flavor_copies:
  assumes "same_flavor f g" and "bigger f = bigger g"
  shows "copies az1 az2 fr bigger f = copies az1 az2 fr bigger g"
  using assms same_flavor_hits [OF assms(1)]
  by (simp add: copies_def right_mode_def posflavor_of_def same_flavor_def)

lemma same_flavors_posflavors:
  assumes "list_all2 same_flavor fls fls'" and "\<And>f g. same_flavor f g \<Longrightarrow> bigger f = bigger g"
  shows "posflavors sp bigger fls = posflavors sp bigger fls'"
proof -
  have "map (copies az1 az2 fr bigger) fls = map (copies az1 az2 fr bigger) fls'" for az1 az2 fr
    using assms by (induction rule: list_all2_induct) (auto intro: same_flavor_copies)
  then show ?thesis by (simp add: posflavors_eq)
qed

lemma same_flavors_current: "list_all2 same_flavor fls fls' \<Longrightarrow> current_size fr fls = current_size fr fls'"
proof -
  assume "list_all2 same_flavor fls fls'"
  then have "fold (\<lambda>rds cur. if fl_SpecCode rds = fr then (fl_VCPUs rds, fl_RAM rds) else cur) fls c =
      fold (\<lambda>rds cur. if fl_SpecCode rds = fr then (fl_VCPUs rds, fl_RAM rds) else cur) fls' c" for c
    by (induction arbitrary: c rule: list_all2_induct) (auto simp: same_flavor_def)
  then show ?thesis by (simp add: current_size_def)
qed

text \<open>The flavor that the lookup gives does not depend on the order in which Go iterates over
  the map of the availability zones of a flavor.\<close>

theorem flavor_map_order:
  assumes "list_all2 same_flavor fls fls'"
  shows "pick_flavor E raisetype sp fls = pick_flavor E raisetype sp fls'"
proof -
  have "posflavors sp (\<lambda>rds. x < fl_RAM rds) fls = posflavors sp (\<lambda>rds. x < fl_RAM rds) fls'" for x
    by (rule same_flavors_posflavors [OF assms]) (simp add: same_flavor_def)
  moreover have "posflavors sp (\<lambda>rds. str_less v (fl_VCPUs rds)) fls =
      posflavors sp (\<lambda>rds. str_less v (fl_VCPUs rds)) fls'" for v
    by (rule same_flavors_posflavors [OF assms]) (simp add: same_flavor_def)
  ultimately show ?thesis
    unfolding pick_flavor_def same_flavors_current [OF assms] by (simp split: prod.split)
qed

theorem flavor_map_order_witness:
  "pick_flavor demo_ext ''mem'' demo_zone_spec
     [demo_flavor ''2'' 4 ''c'' [(''z1'', ''normal''), (''z2'', ''sellout'')]] =
   pick_flavor demo_ext ''mem'' demo_zone_spec
     [demo_flavor ''2'' 4 ''c'' [(''z2'', ''sellout''), (''z1'', ''normal'')]]"
  by (rule flavor_map_order) (simp add: same_flavor_def demo_flavor_def add_mset_commute)

text \<open>With 8 virtual CPUs no flavor of the series 1, 2, 4, 8, 16, 32, 64 counts as larger, since
  the numbers are compared as strings: the lookup for an alarm on the CPU finds none.\<close>

theorem cpu_lookup_stuck:
  assumes "uniq_contract E" and "fst (current_size (spec_Flavorref sp) fls) = ''8''"
    and "list_all (\<lambda>f. fl_VCPUs f \<in> {''1'', ''2'', ''4'', ''8'', ''16'', ''32'', ''64''}) fls"
  shows "pick_flavor E ''cpu'' sp fls = Inl (new_error ''no flavor found'')"
proof -
  have "\<not> str_less ''8'' v" if "v \<in> {''1'', ''2'', ''4'', ''8'', ''16'', ''32'', ''64''}" for v
    using that by auto
  then have "upgrades sp (\<lambda>f. str_less ''8'' (fl_VCPUs f)) fls = []"
    using assms(3) by (auto simp: upgrades_def filter_empty_conv list_all_iff)
  then have "posflavors sp (\<lambda>f. str_less ''8'' (fl_VCPUs f)) fls = []"
    using posflavors_set [of sp "\<lambda>f. str_less ''8'' (fl_VCPUs f)" fls] by simp
  moreover obtain r where "current_size (spec_Flavorref sp) fls = (''8'', r)"
    using assms(2) by (cases "current_size (spec_Flavorref sp) fls") simp
  ultimately show ?thesis
    using smallest_spec [OF assms(1), where f = pf_VCPUs and pos = "[]"]
    by (auto simp: pick_flavor_def split: sum.splits)
qed

theorem cpu_lookup_stuck_witness:
  "pick_flavor demo_ext ''cpu'' (demo_zone_spec\<lparr>spec_Flavorref := ''rds.c8''\<rparr>)
     (demo_flavor ''16'' 32 ''rds.c16'' [(''eu-de-01'', ''normal'')] # demo_flavors) =
   Inl (new_error ''no flavor found'')"
  by (rule cpu_lookup_stuck [OF demo_uniq_contract]) (simp_all add: demo_flavor_simps)

section \<open>The calls of the lookup\<close>

text \<open>The lookup asks for the listing and nothing else, and leaves the resources alone.\<close>

definition lookup_call :: "call \<Rightarrow> bool" where
  "lookup_call c \<longleftrightarrow> (case c of
      IAM CAuthenticate \<Rightarrow> True | IAM (CNewClient _) \<Rightarrow> True | RDS (CFlavorList _ _) \<Rightarrow> True | _ \<Rightarrow> False)"

lemma or_exit_respects:
  assumes "run_respects R m"
  shows "run_respects R (or_exit m)"
  using assms unfolding run_respects_def or_exit_def
  by (auto simp: go_eval split: prod.splits outcome.splits) (metis snd_conv)+

lemma RdsFlavorLookup_uses: "uses lookup_call (RdsFlavorLookup E r t)"
  unfolding RdsFlavorLookup_def Let_def
  by (intro log_growth.keep_bind log_growth.keep_lift or_exit_respects uses_intro)
    (simp_all add: lookup_call_def)

lemma RdsFlavorLookup_frame [uses_intro]:
  assumes "\<And>c ok w s. fld (log_call c ok w s) = fld s"
    and "\<And>env s. fld (s\<lparr>osenv := env\<rparr>) = fld s"
  shows "run_respects (same_field fld) (RdsFlavorLookup E r t)"
  unfolding RdsFlavorLookup_def Let_def
  by (intro frame.keep_bind frame.keep_lift or_exit_respects uses_intro assms)

end
