(* ===== verification/Smn_Receiver.thy ===== *)
theory Smn_Receiver
  imports Flavor_Lookup
begin

text \<open>
  \<open>pkg/controller/autopilot.go\<close>: the HTTP endpoint of the autopilot, to which the messaging
  service posts alarms.  All requests decode into the one variable \<open>subscriber\<close> of
  \<open>SmnReceiver\<close>, so a handler runs on the state of a call and that variable.  A request is its
  method and its body as a JSON document, \<open>None\<close> for a malformed one; the bytes are not
  modelled, what \<open>json.Unmarshal\<close> does with the document is.  The types of the text that an alarm
  carries in \<open>Message\<close> are declared here as in the file; no code decodes into them.
\<close>

record Subscriber =
  sub_Subscribeurl :: string
  sub_Signature :: string
  sub_Topicurn :: string
  sub_Messageid :: string
  sub_Signatureversion :: string
  sub_Type :: string
  sub_Message :: string
  sub_Signaturecerturl :: string
  sub_Timestamp :: string

text \<open>A \<open>float64\<close> is its 64 bits.\<close>

record AlarmValue =
  av_Time :: go_int
  av_Value :: "64 word"

record TemplateVariable =
  tv_IsAlarm :: bool
  tv_IsCycleTrigger :: bool
  tv_AlarmLevel :: string
  tv_Region :: string
  tv_ResourceId :: string
  tv_AlarmRule :: string
  tv_CurrentDate :: string
  tv_AlarmTime :: string
  tv_DataPoint :: string
  tv_DataPointTime :: string
  tv_AlarmRuleName :: string
  tv_AlarmId :: string
  tv_AlarmDesc :: string
  tv_MonitoringRange :: string
  tv_IsOriginalValue :: bool
  tv_Period :: string
  tv_Filter :: string
  tv_ComparionOperator :: string
  tv_Value :: string
  tv_Unit :: string
  tv_Count :: go_int
  tv_EventContent :: string
  tv_IsIEC :: bool

record SubscriberMessage =
  sm_MessageType :: string
  sm_AlarmId :: string
  sm_AlarmName :: string
  sm_AlarmStatus :: string
  sm_Time :: go_int
  sm_Namespace :: string
  sm_MetriyName :: string
  sm_Dimension :: string
  sm_Period :: go_int
  sm_Filter :: string
  sm_ComparisonOperator :: string
  sm_Value :: go_int
  sm_Unit :: string
  sm_Count :: go_int
  sm_AlarmValue :: "AlarmValue slice"
  sm_SmSContent :: string
  sm_TemplateVariable :: TemplateVariable

definition zero_subscriber :: Subscriber where
  "zero_subscriber = \<lparr>sub_Subscribeurl = [], sub_Signature = [], sub_Topicurn = [],
     sub_Messageid = [], sub_Signatureversion = [], sub_Type = [], sub_Message = [],
     sub_Signaturecerturl = [], sub_Timestamp = []\<rparr>"

section \<open>json.Unmarshal\<close>

datatype json = JNull | JBool bool | JNumber int | JString string | JArray "json list"
  | JObject "(string \<times> json) list"

text \<open>A key selects a field when they are equal up to the case of ASCII letters.\<close>

definition lower :: "char \<Rightarrow> char" where
  "lower c = (if 65 \<le> (of_char c :: nat) \<and> (of_char c :: nat) \<le> 90 then char_of ((of_char c :: nat) + 32) else c)"

definition fold_key :: "string \<Rightarrow> string" where
  "fold_key = map lower"

definition set_field :: "string \<Rightarrow> string \<Rightarrow> Subscriber \<Rightarrow> Subscriber" where
  "set_field k v sub =
     (if k = ''subscribe_url'' then sub\<lparr>sub_Subscribeurl := v\<rparr>
      else if k = ''signature'' then sub\<lparr>sub_Signature := v\<rparr>
      else if k = ''topic_urn'' then sub\<lparr>sub_Topicurn := v\<rparr>
      else if k = ''message_id'' then sub\<lparr>sub_Messageid := v\<rparr>
      else if k = ''signature_version'' then sub\<lparr>sub_Signatureversion := v\<rparr>
      else if k = ''type'' then sub\<lparr>sub_Type := v\<rparr>
      else if k = ''message'' then sub\<lparr>sub_Message := v\<rparr>
      else if k = ''signing_cert_url'' then sub\<lparr>sub_Signaturecerturl := v\<rparr>
      else if k = ''timestamp'' then sub\<lparr>sub_Timestamp := v\<rparr>
      else sub)"

text \<open>
  A null and a value of another type leave the field as it was; the handler logs the type error
  only and goes on, so the error is not part of the result.
\<close>

definition set_member :: "string \<times> json \<Rightarrow> Subscriber \<Rightarrow> Subscriber" where
  "set_member m sub = (case m of (k, v) \<Rightarrow>
     (case v of JString x \<Rightarrow> set_field (fold_key k) x sub | _ \<Rightarrow> sub))"

definition unmarshal :: "json option \<Rightarrow> Subscriber \<Rightarrow> Subscriber" where
  "unmarshal doc sub = (case doc of Some (JObject ms) \<Rightarrow> fold set_member ms sub | _ \<Rightarrow> sub)"

section \<open>The handler\<close>

record HttpRequest =
  hr_Method :: string
  hr_Body :: "json option"

text \<open>A response with the JSON content type and status 200, or one the handler wrote nothing to.\<close>

datatype Response = JsonOk | Unwritten

text \<open>A call whose error is logged while its nil result is dereferenced next.\<close>

definition or_nil_deref :: "('s, 'a) go \<Rightarrow> ('s, 'a) go" where
  "or_nil_deref m = go_bind (go_try m) (\<lambda>r. case r of Inl e \<Rightarrow> go_crash NilDeref | Inr a \<Rightarrow> go_return a)"

definition larger :: "Rds \<Rightarrow> Rds" where
  "larger rds = rds\<lparr>rds_Spec := (rds_Spec rds)\<lparr>spec_Volumesize := spec_Volumesize (rds_Spec rds) + 10\<rparr>\<rparr>"

definition with_flavor :: "string \<Rightarrow> Rds \<Rightarrow> Rds" where
  "with_flavor f rds = rds\<lparr>rds_Spec := (rds_Spec rds)\<lparr>spec_Flavorref := f\<rparr>\<rparr>"

definition disk_alarm :: "'w Ext \<Rightarrow> handle \<Rightarrow> string \<Rightarrow> Rds \<Rightarrow> ('w sys, Rds) go" where
  "disk_alarm E client namespace returnRds =
     (let returnRds = larger returnRds
      in go_then (rdss_Update E client namespace returnRds []) (go_return returnRds))"

definition flavor_alarm :: "'w Ext \<Rightarrow> handle \<Rightarrow> string \<Rightarrow> string \<Rightarrow> Rds \<Rightarrow> ('w sys, Rds) go" where
  "flavor_alarm E client namespace raisetype returnRds =
     go_bind (go_try (RdsFlavorLookup E returnRds raisetype)) (\<lambda>r. case r of
       Inl err \<Rightarrow> go_return returnRds
     | Inr newFlavor \<Rightarrow>
         (let returnRds = with_flavor newFlavor returnRds
          in go_then (rdss_Update E client namespace returnRds []) (go_return returnRds)))"

definition alarm_actions :: "'w Ext \<Rightarrow> handle \<Rightarrow> string \<Rightarrow> string \<Rightarrow> Rds \<Rightarrow> ('w sys, unit) go" where
  "alarm_actions E client namespace message returnRds =
     go_bind (if Contains message ''rds039_disk_util''
              then disk_alarm E client namespace returnRds else go_return returnRds) (\<lambda>rds1.
     go_bind (if Contains message ''rds001_cpu_util''
              then flavor_alarm E client namespace ''cpu'' rds1 else go_return rds1) (\<lambda>rds2.
     go_bind (if Contains message ''rds002_mem_util''
              then flavor_alarm E client namespace ''mem'' rds2 else go_return rds2) (\<lambda>_.
     go_return ())))"

definition event_client :: "'w Ext \<Rightarrow> ('w sys, handle) go" where
  "event_client E =
     go_bind (or_nil_deref (InClusterConfig E)) (\<lambda>restConfig.
     go_bind (or_nil_deref (clientset_NewForConfig E restConfig)) (\<lambda>rdsclientset.
     go_return (cs_mcspsV1alpha1 rdsclientset)))"

definition event_action :: "'w Ext \<Rightarrow> Subscriber \<Rightarrow> ('w sys, unit) go" where
  "event_action E sub =
     go_bind (go_index (Split (sub_Topicurn sub) CHR '':'') 4) (\<lambda>rdsNsName.
     go_bind (go_index (Split rdsNsName CHR ''_'') 0) (\<lambda>namespace.
     go_bind (go_index (Split rdsNsName CHR ''_'') 1) (\<lambda>rdsName.
     go_bind (event_client E) (\<lambda>client.
     go_bind (rdss_Get E client namespace rdsName []) (\<lambda>(returnRds, err).
     alarm_actions E client namespace (sub_Message sub) returnRds)))))"

text \<open>A call runs on the first part of the handler's state.\<close>

definition on_sys :: "('s, 'a) go \<Rightarrow> ('s \<times> 'b, 'a) go" where
  "on_sys m = (\<lambda>(s, b). case m s of (r, s') \<Rightarrow> (r, (s', b)))"

definition confirm_subscription :: "'w Ext \<Rightarrow> Subscriber \<Rightarrow> ('w sys, unit) go" where
  "confirm_subscription E sub =
     go_when (sub_Subscribeurl sub \<noteq> [])
       (go_ignore (perform_e (SYS (CHttpGet (sub_Subscribeurl sub))) (x_HttpGet E (sub_Subscribeurl sub))))"

definition handle_post :: "'w Ext \<Rightarrow> json option \<Rightarrow> ('w sys \<times> Subscriber, Response) go" where
  "handle_post E body =
     go_then (go_modify (map_prod id (unmarshal body)))
    (go_bind (go_get snd) (\<lambda>subscriber.
     go_then (on_sys (confirm_subscription E subscriber))
    (go_then (on_sys (go_when (sub_Signature subscriber \<noteq> []) (event_action E subscriber)))
    (go_return JsonOk))))"

definition smn_handler :: "'w Ext \<Rightarrow> HttpRequest \<Rightarrow> ('w sys \<times> Subscriber, Response) go" where
  "smn_handler E r =
     (if hr_Method r = ''GET'' then go_return JsonOk
      else if hr_Method r = ''POST'' then handle_post E (hr_Body r)
      else go_return Unwritten)"

section \<open>The listener\<close>

definition listen :: "'w Ext \<Rightarrow> ('w sys, unit) go" where
  "listen E = perform_e (SYS (CListen ''0.0.0.0:8080'')) (\<lambda>w.
     case x_ListenAndServe E ''0.0.0.0:8080'' w of
       (None, w') \<Rightarrow> (Inr (), w') | (Some e, w') \<Rightarrow> (Inl e, w'))"

fun listen_loop :: "'w Ext \<Rightarrow> nat \<Rightarrow> ('w sys, unit) go" where
  "listen_loop E 0 = go_return ()"
| "listen_loop E (Suc retries) =
     go_bind (go_try (listen E)) (\<lambda>r. case r of Inl err \<Rightarrow> listen_loop E retries | Inr _ \<Rightarrow> go_return ())"

definition SmnReceiver :: "'w Ext \<Rightarrow> ('w sys, unit) go" where
  "SmnReceiver E = listen_loop E 3"

section \<open>Decoding\<close>

definition document :: "Subscriber \<Rightarrow> json" where
  "document sub = JObject
     [(''subscribe_url'', JString (sub_Subscribeurl sub)), (''signature'', JString (sub_Signature sub)),
      (''topic_urn'', JString (sub_Topicurn sub)), (''message_id'', JString (sub_Messageid sub)),
      (''signature_version'', JString (sub_Signatureversion sub)), (''type'', JString (sub_Type sub)),
      (''message'', JString (sub_Message sub)), (''signing_cert_url'', JString (sub_Signaturecerturl sub)),
      (''timestamp'', JString (sub_Timestamp sub))]"

lemma unmarshal_document: "unmarshal (Some (document sub)) old = sub"
  by (cases sub, cases old)
    (simp add: unmarshal_def document_def set_member_def fold_key_def lower_def set_field_def)

lemma unmarshal_keeps [simp]:
  "unmarshal None sub = sub" "unmarshal (Some JNull) sub = sub" "unmarshal (Some (JObject [])) sub = sub"
  by (simp_all add: unmarshal_def)

section \<open>The requests of an event\<close>

definition rds_put :: "call \<Rightarrow> (string \<times> Rds) option" where
  "rds_put c = (case c of
      K8S (CRest rq) \<Rightarrow> (case rq_Body rq of
          RdsBody r \<Rightarrow> (if rq_Verb rq = PUT then Some (rq_Namespace rq, r) else None) | _ \<Rightarrow> None)
    | _ \<Rightarrow> None)"

lemma rds_put_update [simp]: "rds_put (K8S (CRest (update_request ns r o1))) = Some (ns, r)"
  by (simp add: rds_put_def update_request_def)

lemma lookup_call_no_put: "lookup_call c \<Longrightarrow> rds_put c = None"
  by (auto simp: lookup_call_def rds_put_def split: call.splits IamCall.splits RdsCall.splits)

lemma update_run:
  obtains a w ok where "rdss_Update E client ns r o1 s =
    (Ok a, log_call (K8S (CRest (update_request ns r o1))) ok w s)"
proof -
  obtain a e w where "k_DoRds (kube E) client (update_request ns r o1) (world s) = ((a, e), w)"
    by (metis surj_pair)
  then show thesis using that by (simp add: rdss_Update_eval)
qed

lemma disk_alarm_run:
  obtains w ok where "disk_alarm E client ns r s =
    (Ok (larger r), log_call (K8S (CRest (update_request ns (larger r) []))) ok w s)"
proof -
  obtain a w ok where "rdss_Update E client ns (larger r) [] s =
      (Ok a, log_call (K8S (CRest (update_request ns (larger r) []))) ok w s)"
    by (rule update_run)
  then show thesis using that by (simp add: disk_alarm_def Let_def go_eval)
qed

text \<open>A flavor alarm sends nothing, or the resource with another flavor, which it also returns.\<close>

lemma flavor_alarm_run:
  assumes "flavor_alarm E client ns kind r s = (q, t)"
  obtains (silent) new where "calls t = calls s @ new" "seen rds_put new = []"
      "\<And>x. q = Ok x \<Longrightarrow> x = r"
  | (sent) f new where "calls t = calls s @ new" "seen rds_put new = [(ns, with_flavor f r)]"
      "q = Ok (with_flavor f r)"
proof -
  let ?look = "go_try (RdsFlavorLookup E r kind)"
  have quiet: "uses (\<lambda>c. rds_put c = None) ?look"
    by (intro log_growth.keep_try uses_mono [OF RdsFlavorLookup_uses] lookup_call_no_put)
  from assms show thesis unfolding flavor_alarm_def
  proof (cases rule: go_bind_cases)
    case (stop p)
    obtain new where "calls t = calls s @ new" "seen rds_put new = []"
      using silent_run [OF quiet stop(1)] .
    moreover have "q \<noteq> Ok x" for x
      using assms stop unfolding flavor_alarm_def by (auto simp: go_bind_eval split: outcome.splits)
    ultimately show thesis by (blast intro: silent)
  next
    case (cont res u)
    obtain new where new: "calls u = calls s @ new" "seen rds_put new = []"
      using silent_run [OF quiet cont(1)] .
    show thesis
    proof (cases res)
      case (Inl e)
      with cont(2) new show thesis by (intro silent [of new]) (auto simp: go_eval)
    next
      case (Inr f)
      obtain a w ok where "rdss_Update E client ns (with_flavor f r) [] u =
          (Ok a, log_call (K8S (CRest (update_request ns (with_flavor f r) []))) ok w u)"
        by (rule update_run)
      with cont(2) Inr new show thesis
        by (intro sent [of "new @ [(K8S (CRest (update_request ns (with_flavor f r) [])), ok)]" f])
          (auto simp: go_eval Let_def)
    qed
  qed
qed

text \<open>What an event may change of the resource it fetched.\<close>

definition rest_of :: "Rds \<Rightarrow> Rds" where
  "rest_of r = r\<lparr>rds_Spec := (rds_Spec r)\<lparr>spec_Volumesize := 0, spec_Flavorref := []\<rparr>\<rparr>"

lemma rest_of_steps [simp]: "rest_of (larger r) = rest_of r" "rest_of (with_flavor f r) = rest_of r"
  by (simp_all add: rest_of_def larger_def with_flavor_def)

abbreviation vol :: "Rds \<Rightarrow> go_int" where
  "vol r \<equiv> spec_Volumesize (rds_Spec r)"

definition sized :: "string \<Rightarrow> Rds \<Rightarrow> go_int \<Rightarrow> string \<times> Rds \<Rightarrow> bool" where
  "sized ns r v p \<longleftrightarrow> fst p = ns \<and> rest_of (snd p) = rest_of r \<and> vol (snd p) = v"

text \<open>
  A stage of the event: it sends at most \<open>n\<close> updates, the first ones those of \<open>pre\<close>, all of
  the resource with a volume larger by \<open>d\<close>, and hands such a resource on.
\<close>

definition stage :: "string \<Rightarrow> go_int \<Rightarrow> nat \<Rightarrow> (Rds \<Rightarrow> (string \<times> Rds) list) \<Rightarrow>
    (Rds \<Rightarrow> ('w sys, Rds) go) \<Rightarrow> bool" where
  "stage ns d n pre m \<longleftrightarrow> (\<forall>r s q t. m r s = (q, t) \<longrightarrow>
     (\<exists>new. calls t = calls s @ new \<and> length (seen rds_put new) \<le> n \<and> prefix (pre r) (seen rds_put new) \<and>
        list_all (sized ns r (vol r + d)) (seen rds_put new) \<and>
        (\<forall>x. q = Ok x \<longrightarrow> rest_of x = rest_of r \<and> vol x = vol r + d)))"

lemma stageE:
  assumes "stage ns d n pre m" and "m r s = (q, t)"
  obtains new where "calls t = calls s @ new" "length (seen rds_put new) \<le> n"
    "prefix (pre r) (seen rds_put new)" "list_all (sized ns r (vol r + d)) (seen rds_put new)"
    "\<And>x. q = Ok x \<Longrightarrow> rest_of x = rest_of r \<and> vol x = vol r + d"
  using assms(1) [unfolded stage_def, rule_format, OF assms(2)] by (elim exE conjE) (rule that, auto)

lemma stage_then:
  assumes "stage ns d n pre m" and "stage ns 0 k (\<lambda>_. []) h"
  shows "stage ns d (n + k) pre (\<lambda>r. go_bind (m r) h)"
  unfolding stage_def
proof (intro allI impI)
  fix r s q t
  assume "go_bind (m r) h s = (q, t)"
  then show "\<exists>new. calls t = calls s @ new \<and> length (seen rds_put new) \<le> n + k \<and>
      prefix (pre r) (seen rds_put new) \<and> list_all (sized ns r (vol r + d)) (seen rds_put new) \<and>
      (\<forall>x. q = Ok x \<longrightarrow> rest_of x = rest_of r \<and> vol x = vol r + d)"
  proof (cases rule: go_bind_cases)
    case (stop p)
    have "q \<noteq> Ok x" for x
      using \<open>go_bind (m r) h s = (q, t)\<close> stop by (auto simp: go_bind_eval split: outcome.splits)
    moreover obtain x where "calls t = calls s @ x" "length (seen rds_put x) \<le> n"
        "prefix (pre r) (seen rds_put x)" "list_all (sized ns r (vol r + d)) (seen rds_put x)"
      by (rule stageE [OF assms(1) stop(1)])
    ultimately show ?thesis by (intro exI [of _ x]) simp
  next
    case (cont a u)
    obtain x where x: "calls u = calls s @ x" "length (seen rds_put x) \<le> n" "prefix (pre r) (seen rds_put x)"
        "list_all (sized ns r (vol r + d)) (seen rds_put x)" "rest_of a = rest_of r" "vol a = vol r + d"
      by (rule stageE [OF assms(1) cont(1)]) simp
    obtain y where y: "calls t = calls u @ y" "length (seen rds_put y) \<le> k"
        "list_all (sized ns a (vol a + 0)) (seen rds_put y)" "\<And>x. q = Ok x \<Longrightarrow> rest_of x = rest_of a \<and> vol x = vol a"
      by (rule stageE [OF assms(2) cont(2)]) simp
    have "sized ns a (vol a + 0) = sized ns r (vol r + d)"
      using x(5,6) by (simp add: sized_def fun_eq_iff)
    with x y show ?thesis
      by (intro exI [of _ "x @ y"]) (simp add: prefix_prefix)
  qed
qed

lemma stage_skip: "stage ns 0 0 (\<lambda>_. []) go_return"
  by (auto simp: stage_def go_eval)

lemma stage_disk: "stage ns 10 1 (\<lambda>r. [(ns, larger r)]) (disk_alarm E client ns)"
  unfolding stage_def
proof (intro allI impI)
  fix r q and s t :: "'a sys"
  assume m: "disk_alarm E client ns r s = (q, t)"
  obtain w ok where run: "disk_alarm E client ns r s =
      (Ok (larger r), log_call (K8S (CRest (update_request ns (larger r) []))) ok w s)"
    by (rule disk_alarm_run)
  have "calls t = calls s @ [(K8S (CRest (update_request ns (larger r) [])), ok)]" "q = Ok (larger r)"
    using m run by auto
  moreover have "vol (larger r) = vol r + 10" by (simp add: larger_def)
  ultimately show "\<exists>new. calls t = calls s @ new \<and> length (seen rds_put new) \<le> 1 \<and>
      prefix [(ns, larger r)] (seen rds_put new) \<and> list_all (sized ns r (vol r + 10)) (seen rds_put new) \<and>
      (\<forall>x. q = Ok x \<longrightarrow> rest_of x = rest_of r \<and> vol x = vol r + 10)"
    by (intro exI [of _ "[(K8S (CRest (update_request ns (larger r) [])), ok)]"]) (simp add: sized_def)
qed

lemma stage_flavor: "stage ns 0 1 (\<lambda>_. []) (flavor_alarm E client ns kind)"
  unfolding stage_def
proof (intro allI impI)
  fix r q and s t :: "'a sys"
  assume m: "flavor_alarm E client ns kind r s = (q, t)"
  then show "\<exists>new. calls t = calls s @ new \<and> length (seen rds_put new) \<le> 1 \<and>
      prefix [] (seen rds_put new) \<and> list_all (sized ns r (vol r + 0)) (seen rds_put new) \<and>
      (\<forall>x. q = Ok x \<longrightarrow> rest_of x = rest_of r \<and> vol x = vol r + 0)"
  proof (cases rule: flavor_alarm_run)
    case (silent new)
    then show ?thesis by (intro exI [of _ new]) auto
  next
    case (sent f new)
    then show ?thesis by (intro exI [of _ new]) (auto simp: sized_def with_flavor_def rest_of_def)
  qed
qed

text \<open>A stage that the message asks for, or nothing.\<close>

definition b2n :: "bool \<Rightarrow> nat" where
  "b2n b = (if b then 1 else 0)"

lemma stage_if:
  assumes "stage ns d 1 pre m"
  shows "stage ns (if b then d else 0) (b2n b) (\<lambda>r. if b then pre r else [])
    (\<lambda>r. if b then m r else go_return r)"
  using assms stage_skip [of ns] by (cases b) (simp_all add: b2n_def go_return_def [abs_def])

lemma then_unit_run:
  assumes "go_then m (go_return ()) s = (q, t)"
  obtains q' where "m s = (q', t)"
  using assms by (cases rule: go_then_cases) (auto simp: go_return_eval)

lemma alarm_actions_run:
  assumes "alarm_actions E client ns msg r s = (q, t)"
  obtains new where "calls t = calls s @ new"
    "length (seen rds_put new) \<le> b2n (Contains msg ''rds039_disk_util'') + b2n (Contains msg ''rds001_cpu_util'') +
       b2n (Contains msg ''rds002_mem_util'')"
    "prefix (if Contains msg ''rds039_disk_util'' then [(ns, larger r)] else []) (seen rds_put new)"
    "list_all (sized ns r (vol r + (if Contains msg ''rds039_disk_util'' then 10 else 0))) (seen rds_put new)"
proof -
  let ?b = "Contains msg"
  let ?m = "\<lambda>r. go_bind (go_bind (if ?b ''rds039_disk_util'' then disk_alarm E client ns r else go_return r)
      (\<lambda>r. if ?b ''rds001_cpu_util'' then flavor_alarm E client ns ''cpu'' r else go_return r))
      (\<lambda>r. if ?b ''rds002_mem_util'' then flavor_alarm E client ns ''mem'' r else go_return r)"
  have zero: "(if b then 0 else 0) = (0 :: go_int)" "(if b then [] else []) = ([] :: 'x list)" for b by auto
  have st: "stage ns (if ?b ''rds039_disk_util'' then 10 else 0)
      (b2n (?b ''rds039_disk_util'') + b2n (?b ''rds001_cpu_util'') + b2n (?b ''rds002_mem_util''))
      (\<lambda>r. if ?b ''rds039_disk_util'' then [(ns, larger r)] else []) ?m"
    using stage_then [OF stage_then [OF stage_if [OF stage_disk] stage_if [OF stage_flavor, unfolded zero]]
      stage_if [OF stage_flavor, unfolded zero]] .
  have "alarm_actions E client ns msg r = go_then (?m r) (go_return ())"
    by (simp add: alarm_actions_def go_then_def go_bind_assoc)
  with assms have "go_then (?m r) (go_return ()) s = (q, t)" by simp
  then obtain q' where "?m r s = (q', t)" by (rule then_unit_run)
  then show thesis by (rule stageE [OF st]) (rule that)
qed

section \<open>Properties\<close>

text \<open>C22: an event sends at most one update per metric that its message names, each of the resource
  it fetched and in its namespace, with no change but the flavor and, for the disk, 10 more of
  volume in every one of them; the first update for the disk is the resource with the larger
  volume and nothing else.  The sum wraps around at 64 bits.\<close>

theorem alarm_updates:
  "case alarm_actions E client ns msg r s of (q, t) \<Rightarrow>
     (let sent = seen rds_put (made s t); disk = Contains msg ''rds039_disk_util'' in
      length sent \<le> length (filter (Contains msg) [''rds039_disk_util'', ''rds001_cpu_util'', ''rds002_mem_util'']) \<and>
      prefix (if disk then [(ns, larger r)] else []) sent \<and>
      list_all (sized ns r (vol r + (if disk then 10 else 0))) sent)"
proof -
  obtain q t where run: "alarm_actions E client ns msg r s = (q, t)" by fastforce
  have "length (filter (Contains msg) [x, y, z]) = b2n (Contains msg x) + b2n (Contains msg y) + b2n (Contains msg z)" for x y z
    by (simp add: b2n_def)
  moreover obtain new where "calls t = calls s @ new" and
    "length (seen rds_put new) \<le> b2n (Contains msg ''rds039_disk_util'') + b2n (Contains msg ''rds001_cpu_util'') +
       b2n (Contains msg ''rds002_mem_util'')"
    and "prefix (if Contains msg ''rds039_disk_util'' then [(ns, larger r)] else []) (seen rds_put new)"
    and "list_all (sized ns r (vol r + (if Contains msg ''rds039_disk_util'' then 10 else 0))) (seen rds_put new)"
    using run by (rule alarm_actions_run)
  ultimately show ?thesis by (simp only: run prod.case Let_def seen_same_calls)
qed

text \<open>C37: a POST whose body is malformed, null or empty is handled as if the last message were posted
  again: the variable that the requests share keeps its fields, and an event in it is acted upon
  once more.\<close>

theorem malformed_post_replays:
  "list_all (\<lambda>body. smn_handler E \<lparr>hr_Method = ''POST'', hr_Body = body\<rparr> (s, sub) =
      smn_handler E \<lparr>hr_Method = ''POST'', hr_Body = Some (document sub)\<rparr> (s, old))
    [None, Some JNull, Some (JObject [])]"
  by (simp add: smn_handler_def handle_post_def go_then_eval [of "go_modify _"] go_modify_eval
      unmarshal_document)

lemma on_sys_eval [go_eval]: "on_sys m (s, b) = (case m s of (r, s') \<Rightarrow> (r, (s', b)))"
  by (simp add: on_sys_def)

lemma confirm_run:
  obtains w ok where "confirm_subscription E sub s = (Ok (),
    if sub_Subscribeurl sub = [] then s else log_call (SYS (CHttpGet (sub_Subscribeurl sub))) ok w s)"
proof (cases "sub_Subscribeurl sub = []")
  case False
  obtain ok w where "go_ignore (perform_e (SYS (CHttpGet (sub_Subscribeurl sub)))
      (x_HttpGet E (sub_Subscribeurl sub))) s = (Ok (), log_call (SYS (CHttpGet (sub_Subscribeurl sub))) ok w s)"
    by (rule ignored_call)
  with False that show thesis by (simp add: confirm_subscription_def go_when_def)
qed (simp add: that confirm_subscription_def go_eval)

text \<open>An event whose topic has fewer than five parts, or whose fifth part has no underscore,
  panics in the handler, after at most the confirmation and before any call to Kubernetes; the
  variable keeps the event.\<close>

theorem event_topic_panics:
  assumes "unmarshal body old = sub" and "sub_Signature sub \<noteq> []"
    and "case drop 4 (Split (sub_Topicurn sub) CHR '':'') of [] \<Rightarrow> True | p # _ \<Rightarrow> CHR ''_'' \<notin> set p"
  shows "\<exists>t. smn_handler E \<lparr>hr_Method = ''POST'', hr_Body = body\<rparr> (s, old) = (Crash IndexOutOfRange, (t, sub)) \<and>
    length (made s t) \<le> 1 \<and> list_all (\<lambda>(c, _). c = SYS (CHttpGet (sub_Subscribeurl sub))) (made s t)"
proof -
  let ?parts = "Split (sub_Topicurn sub) CHR '':''"
  obtain w ok where c: "confirm_subscription E sub s = (Ok (),
      if sub_Subscribeurl sub = [] then s else log_call (SYS (CHttpGet (sub_Subscribeurl sub))) ok w s)"
    by (rule confirm_run)
  have "event_action E sub u = (Crash IndexOutOfRange, u)" for u
  proof (cases "4 < length ?parts")
    case True
    then have "drop 4 ?parts = (?parts ! 4) # drop 5 ?parts" by (simp add: Cons_nth_drop_Suc [symmetric])
    with assms(3) have "CHR ''_'' \<notin> set (?parts ! 4)" by simp
    then have "Split (?parts ! 4) CHR ''_'' = [?parts ! 4]"
      unfolding Split_def by (intro split_by_word) auto
    with True show ?thesis by (simp add: event_action_def go_eval)
  qed (simp add: event_action_def go_eval)
  with assms(1,2) c show ?thesis
    by (simp add: smn_handler_def handle_post_def go_eval made_def)
qed

theorem event_topic_panics_witness:
  "fst (smn_handler demo_ext \<lparr>hr_Method = ''POST'', hr_Body = Some (JObject
      [(''Signature'', JString ''sig''), (''topic_urn'', JString ''urn:smn:eu-de:p:ns'')])\<rparr>
      (demo_sys 1 (demo_rds ''id1''), zero_subscriber)) = Crash IndexOutOfRange"
proof -
  let ?body = "Some (JObject [(''Signature'', JString ''sig''), (''topic_urn'', JString ''urn:smn:eu-de:p:ns'')])"
  let ?sub = "zero_subscriber\<lparr>sub_Signature := ''sig'', sub_Topicurn := ''urn:smn:eu-de:p:ns''\<rparr>"
  have "unmarshal ?body zero_subscriber = ?sub"
    by (simp add: unmarshal_def set_member_def fold_key_def lower_def set_field_def char_of_def
        bit_drop_bit_eq bit_numeral_rec bit_Suc_0_iff)
  from event_topic_panics [OF this, of demo_ext "demo_sys 1 (demo_rds ''id1'')"] show ?thesis
    by (auto simp: Split_def)
qed

subsection \<open>The listener\<close>

definition listening :: "call \<Rightarrow> unit option" where
  "listening c = (case c of SYS (CListen _) \<Rightarrow> Some () | _ \<Rightarrow> None)"

lemma listen_loop_run:
  "\<exists>t. listen_loop E n s = (Ok (), t) \<and> (\<exists>k ok. k \<le> n \<and>
     made s t = replicate k (SYS (CListen ''0.0.0.0:8080''), False) @ (if ok then [(SYS (CListen ''0.0.0.0:8080''), True)] else []) \<and>
     (if ok then k < n else k = n) \<and> calls t = calls s @ made s t)"
proof (induction n arbitrary: s)
  case (Suc n)
  obtain e w where l: "x_ListenAndServe E ''0.0.0.0:8080'' (world s) = (e, w)" by fastforce
  show ?case
  proof (cases e)
    case None
    with l show ?thesis
      by (auto simp: listen_def go_eval made_def intro!: exI [of _ "0::nat"] exI [of _ True])
  next
    case (Some x)
    let ?u = "log_call (SYS (CListen ''0.0.0.0:8080'')) False w s"
    obtain t k ok where t: "listen_loop E n ?u = (Ok (), t)" "k \<le> n"
        "made ?u t = replicate k (SYS (CListen ''0.0.0.0:8080''), False) @ (if ok then [(SYS (CListen ''0.0.0.0:8080''), True)] else [])"
        "if ok then k < n else k = n" "calls t = calls ?u @ made ?u t"
      using Suc.IH [of ?u] by blast
    have "listen_loop E (Suc n) s = (Ok (), t)"
      using l Some t(1) by (simp add: listen_def go_eval)
    moreover have eq: "calls t = calls s @ (SYS (CListen ''0.0.0.0:8080''), False) # made ?u t"
      using t(5) by (simp only: log_call_sel append_assoc append_Cons append_Nil)
    moreover note seen_same_calls [OF eq]
    ultimately show ?thesis
      using t(2-4) by (intro exI [of _ t] conjI exI [of _ "Suc k"] exI [of _ ok]) auto
  qed
qed (auto simp: go_eval made_def)

text \<open>The listener is started at most three times; \<open>SmnReceiver\<close> returns without an error after
  three failures or the first return without one, and never crashes.\<close>

theorem listener_attempts:
  "case SmnReceiver E s of (r, t) \<Rightarrow> r = Ok () \<and>
     (let rounds = map snd (made s t) in
      length rounds \<le> 3 \<and> (rounds = [False, False, False]) = (True \<notin> set rounds) \<and> True \<notin> set (butlast rounds)) \<and>
     list_all (\<lambda>(c, _). c = SYS (CListen ''0.0.0.0:8080'')) (made s t)"
proof -
  obtain t k ok where t: "SmnReceiver E s = (Ok (), t)" "k \<le> 3" "if ok then k < 3 else k = 3"
      "made s t = replicate k (SYS (CListen ''0.0.0.0:8080''), False) @ (if ok then [(SYS (CListen ''0.0.0.0:8080''), True)] else [])"
    using listen_loop_run [of E 3 s] unfolding SmnReceiver_def by blast
  then have "map snd (made s t) = replicate k False @ (if ok then [True] else [])" by simp
  moreover have "replicate 3 False = [False, False, False]" by (simp add: numeral_eq_Suc)
  ultimately show ?thesis
    using t by (auto simp: Let_def list_all_iff butlast_append split: if_splits)
qed

end
