(* ===== verification/Informers.thy ===== *)
theory Informers
  imports Clientset
begin

text \<open>
  The generated informers and listers under \<open>apis/informers/externalversions\<close> and
  \<open>apis/listers/rds/v1alpha1\<close>: the factory that shares one informer per type, the informer of
  the custom resource and its lister.  The informer's machinery and the index are client-go's:
  an informer is what its constructor is given, an index is a record of functions, a
  parameter.  A Go map is the list of its entries, distinct in their keys.
\<close>

type_synonym gotype = string

definition RdsType :: gotype where
  "RdsType = ''*v1alpha1.Rds''"

record SharedIndexInformer =
  si_client :: handle
  si_namespace :: string
  si_tweak :: "(ListOptions \<Rightarrow> ListOptions) option"
  si_object :: gotype
  si_resync :: go_int
  si_indexers :: "string list"

section \<open>rds.go\<close>

definition tweaked :: "(ListOptions \<Rightarrow> ListOptions) option \<Rightarrow> ListOptions \<Rightarrow> ListOptions" where
  "tweaked tweak options = (case tweak of None \<Rightarrow> options | Some f \<Rightarrow> f options)"

definition informer_List :: "'w Ext \<Rightarrow> SharedIndexInformer \<Rightarrow> ListOptions \<Rightarrow>
    ('w sys, RdsList \<times> gerror option) go" where
  "informer_List E i options =
     rdss_List E (si_client i) (si_namespace i) (tweaked (si_tweak i) options)"

definition informer_Watch :: "'w Ext \<Rightarrow> SharedIndexInformer \<Rightarrow> ListOptions \<Rightarrow> ('w sys, handle) go" where
  "informer_Watch E i options =
     rdss_Watch E (si_client i) (si_namespace i) (tweaked (si_tweak i) options)"

definition NewFilteredRdsInformer :: "handle \<Rightarrow> string \<Rightarrow> go_int \<Rightarrow> string list \<Rightarrow>
    (ListOptions \<Rightarrow> ListOptions) option \<Rightarrow> SharedIndexInformer" where
  "NewFilteredRdsInformer client namespace resyncPeriod indexers tweakListOptions =
     \<lparr>si_client = client, si_namespace = namespace, si_tweak = tweakListOptions,
      si_object = RdsType, si_resync = resyncPeriod, si_indexers = indexers\<rparr>"

definition NewRdsInformer :: "handle \<Rightarrow> string \<Rightarrow> go_int \<Rightarrow> string list \<Rightarrow> SharedIndexInformer" where
  "NewRdsInformer client namespace resyncPeriod indexers =
     NewFilteredRdsInformer client namespace resyncPeriod indexers None"

text \<open>
  \<open>group\<close>, \<open>version\<close> and \<open>rdsInformer\<close> hand the factory's two settings on; the factory itself,
  which they point to, is the state of the operations that change it.
\<close>

record group_v =
  gi_namespace :: string
  gi_tweak :: "(ListOptions \<Rightarrow> ListOptions) option"

record version_v =
  vi_namespace :: string
  vi_tweak :: "(ListOptions \<Rightarrow> ListOptions) option"

record rdsInformer =
  ri_namespace :: string
  ri_tweak :: "(ListOptions \<Rightarrow> ListOptions) option"

definition group_New :: "string \<Rightarrow> (ListOptions \<Rightarrow> ListOptions) option \<Rightarrow> group_v" where
  "group_New namespace tweakListOptions = \<lparr>gi_namespace = namespace, gi_tweak = tweakListOptions\<rparr>"

definition version_New :: "string \<Rightarrow> (ListOptions \<Rightarrow> ListOptions) option \<Rightarrow> version_v" where
  "version_New namespace tweakListOptions = \<lparr>vi_namespace = namespace, vi_tweak = tweakListOptions\<rparr>"

definition group_V1alpha1 :: "group_v \<Rightarrow> version_v" where
  "group_V1alpha1 g = version_New (gi_namespace g) (gi_tweak g)"

definition version_Rdss :: "version_v \<Rightarrow> rdsInformer" where
  "version_Rdss v = \<lparr>ri_namespace = vi_namespace v, ri_tweak = vi_tweak v\<rparr>"

definition defaultInformer :: "rdsInformer \<Rightarrow> handle \<Rightarrow> go_int \<Rightarrow> SharedIndexInformer" where
  "defaultInformer ri client resyncPeriod =
     NewFilteredRdsInformer client (ri_namespace ri) resyncPeriod [''namespace''] (ri_tweak ri)"

section \<open>factory.go\<close>

text \<open>\<open>fa_running\<close> is the list of the goroutines that \<open>Start\<close> has started.\<close>

record sharedInformerFactory =
  fa_client :: handle
  fa_namespace :: string
  fa_tweak :: "(ListOptions \<Rightarrow> ListOptions) option"
  fa_defaultResync :: go_int
  fa_customResync :: "gotype \<Rightarrow> go_int option"
  fa_informers :: "(gotype \<times> SharedIndexInformer) list"
  fa_started :: "gotype \<Rightarrow> bool"
  fa_running :: "(gotype \<times> SharedIndexInformer) list"

type_synonym informer_option = "sharedInformerFactory \<Rightarrow> sharedInformerFactory"

definition WithCustomResyncConfig :: "(gotype \<times> go_int) list \<Rightarrow> informer_option" where
  "WithCustomResyncConfig resyncConfig factory =
     fold (\<lambda>(k, v) f. f\<lparr>fa_customResync := (fa_customResync f)(k \<mapsto> v)\<rparr>) resyncConfig factory"

definition WithTweakListOptions :: "(ListOptions \<Rightarrow> ListOptions) option \<Rightarrow> informer_option" where
  "WithTweakListOptions tweakListOptions factory = factory\<lparr>fa_tweak := tweakListOptions\<rparr>"

definition WithNamespace :: "string \<Rightarrow> informer_option" where
  "WithNamespace namespace factory = factory\<lparr>fa_namespace := namespace\<rparr>"

definition NewSharedInformerFactoryWithOptions :: "handle \<Rightarrow> go_int \<Rightarrow> informer_option list \<Rightarrow>
    sharedInformerFactory" where
  "NewSharedInformerFactoryWithOptions client defaultResync options =
     fold (\<lambda>opt factory. opt factory) options
       \<lparr>fa_client = client, fa_namespace = [], fa_tweak = None, fa_defaultResync = defaultResync,
        fa_customResync = (\<lambda>_. None), fa_informers = [], fa_started = (\<lambda>_. False), fa_running = []\<rparr>"

definition NewSharedInformerFactory :: "handle \<Rightarrow> go_int \<Rightarrow> sharedInformerFactory" where
  "NewSharedInformerFactory client defaultResync =
     NewSharedInformerFactoryWithOptions client defaultResync []"

definition NewFilteredSharedInformerFactory :: "handle \<Rightarrow> go_int \<Rightarrow> string \<Rightarrow>
    (ListOptions \<Rightarrow> ListOptions) option \<Rightarrow> sharedInformerFactory" where
  "NewFilteredSharedInformerFactory client defaultResync namespace tweakListOptions =
     NewSharedInformerFactoryWithOptions client defaultResync
       [WithNamespace namespace, WithTweakListOptions tweakListOptions]"

definition start_informer :: "gotype \<times> SharedIndexInformer \<Rightarrow> sharedInformerFactory \<Rightarrow> sharedInformerFactory" where
  "start_informer e f = (case e of (informerType, informer) \<Rightarrow>
     if fa_started f informerType then f
     else f\<lparr>fa_running := fa_running f @ [(informerType, informer)],
            fa_started := (fa_started f)(informerType := True)\<rparr>)"

definition Start :: "sharedInformerFactory \<Rightarrow> sharedInformerFactory" where
  "Start f = fold start_informer (fa_informers f) f"

definition WaitForCacheSync :: "(SharedIndexInformer \<Rightarrow> bool) \<Rightarrow> sharedInformerFactory \<Rightarrow> (gotype \<times> bool) list" where
  "WaitForCacheSync synced f =
     (let informers = filter (\<lambda>(informerType, _). fa_started f informerType) (fa_informers f)
      in map (\<lambda>(informerType, informer). (informerType, synced informer)) informers)"

definition InformerFor :: "gotype \<Rightarrow> (handle \<Rightarrow> go_int \<Rightarrow> SharedIndexInformer) \<Rightarrow>
    sharedInformerFactory \<Rightarrow> SharedIndexInformer \<times> sharedInformerFactory" where
  "InformerFor informerType newFunc f =
     (case map_of (fa_informers f) informerType of
        Some informer \<Rightarrow> (informer, f)
      | None \<Rightarrow>
          (let resyncPeriod = (case fa_customResync f informerType of
                 None \<Rightarrow> fa_defaultResync f | Some d \<Rightarrow> d);
               informer = newFunc (fa_client f) resyncPeriod
           in (informer, f\<lparr>fa_informers := fa_informers f @ [(informerType, informer)]\<rparr>)))"

text \<open>\<open>f.Mcsps().V1alpha1().Rdss()\<close> and its \<open>Informer\<close>.\<close>

definition factory_Mcsps :: "sharedInformerFactory \<Rightarrow> group_v" where
  "factory_Mcsps f = group_New (fa_namespace f) (fa_tweak f)"

definition factory_Rdss :: "sharedInformerFactory \<Rightarrow> rdsInformer" where
  "factory_Rdss f = version_Rdss (group_V1alpha1 (factory_Mcsps f))"

definition rds_Informer :: "rdsInformer \<Rightarrow> sharedInformerFactory \<Rightarrow> SharedIndexInformer \<times> sharedInformerFactory" where
  "rds_Informer ri f = InformerFor RdsType (defaultInformer ri) f"

section \<open>generic.go\<close>

record genericInformer =
  gn_informer :: SharedIndexInformer
  gn_resource :: GroupResource

definition generic_Informer :: "genericInformer \<Rightarrow> SharedIndexInformer" where
  "generic_Informer f = gn_informer f"

text \<open>\<open>GetIndexer\<close> and \<open>NewGenericLister\<close> are client-go's.\<close>

definition generic_Lister :: "(SharedIndexInformer \<Rightarrow> 'ix) \<Rightarrow> ('ix \<Rightarrow> GroupResource \<Rightarrow> 'g) \<Rightarrow> genericInformer \<Rightarrow> 'g" where
  "generic_Lister GetIndexer NewGenericLister f =
     NewGenericLister (GetIndexer (generic_Informer f)) (gn_resource f)"

definition gvr_String :: "GroupVersionResource \<Rightarrow> string" where
  "gvr_String r = gvr_Group r @ ''/'' @ gvr_Version r @ '', Resource='' @ gvr_Resource r"

definition ForResource :: "GroupVersionResource \<Rightarrow> sharedInformerFactory \<Rightarrow>
    (gerror + genericInformer) \<times> sharedInformerFactory" where
  "ForResource resource f =
     (if resource = gv_WithResource SchemeGroupVersion ''rdss''
      then (case rds_Informer (factory_Rdss f) f of (informer, f') \<Rightarrow>
        (Inr \<lparr>gn_informer = informer,
              gn_resource = \<lparr>gr_Group = gvr_Group resource, gr_Resource = gvr_Resource resource\<rparr>\<rparr>, f'))
      else (Inl (new_error (''no informer found for '' @ gvr_String resource)), f))"

section \<open>listers/rds/v1alpha1/rds.go\<close>

record Indexer =
  ix_ListAll :: "string \<Rightarrow> Rds list \<times> gerror option"
  ix_ListAllByNamespace :: "string \<Rightarrow> string \<Rightarrow> Rds list \<times> gerror option"
  ix_GetByKey :: "string \<Rightarrow> (Rds option) \<times> gerror option"

record rdsLister =
  ls_indexer :: Indexer

definition NewRdsLister :: "Indexer \<Rightarrow> rdsLister" where
  "NewRdsLister indexer = \<lparr>ls_indexer = indexer\<rparr>"

definition rds_Lister :: "(SharedIndexInformer \<Rightarrow> Indexer) \<Rightarrow> rdsInformer \<Rightarrow> sharedInformerFactory \<Rightarrow>
    rdsLister \<times> sharedInformerFactory" where
  "rds_Lister GetIndexer ri f =
     (case rds_Informer ri f of (informer, f') \<Rightarrow> (NewRdsLister (GetIndexer informer), f'))"

text \<open>The callback appends each object that the index visits to the result.\<close>

definition lister_List :: "rdsLister \<Rightarrow> string \<Rightarrow> Rds list \<times> gerror option" where
  "lister_List s selector =
     (case ix_ListAll (ls_indexer s) selector of (ms, err) \<Rightarrow> (fold (\<lambda>m ret. ret @ [m]) ms [], err))"

record rdsNamespaceLister =
  nl_indexer :: Indexer
  nl_namespace :: string

definition lister_Rdss :: "rdsLister \<Rightarrow> string \<Rightarrow> rdsNamespaceLister" where
  "lister_Rdss s namespace = \<lparr>nl_indexer = ls_indexer s, nl_namespace = namespace\<rparr>"

definition namespace_List :: "rdsNamespaceLister \<Rightarrow> string \<Rightarrow> Rds list \<times> gerror option" where
  "namespace_List s selector =
     (case ix_ListAllByNamespace (nl_indexer s) (nl_namespace s) selector of (ms, err) \<Rightarrow>
        (fold (\<lambda>m ret. ret @ [m]) ms [], err))"

definition NewNotFound :: "GroupResource \<Rightarrow> string \<Rightarrow> gerror" where
  "NewNotFound gr name = GErr NotFound
     (gr_Resource gr @ ''.'' @ gr_Group gr @ '' '' @ [CHR 0x22] @ name @ [CHR 0x22] @ '' not found'')"

definition namespace_Get :: "rdsNamespaceLister \<Rightarrow> string \<Rightarrow> gerror + Rds" where
  "namespace_Get s name =
     (case ix_GetByKey (nl_indexer s) (nl_namespace s @ ''/'' @ name) of
        (_, Some err) \<Rightarrow> Inl err
      | (None, None) \<Rightarrow> Inl (NewNotFound (Resource ''rds'') name)
      | (Some obj, None) \<Rightarrow> Inr obj)"

section \<open>Runs of the factory\<close>

text \<open>A user of the factory asks for informers, of this type or another, and starts them.\<close>

datatype factory_op = AskRds | AskResource GroupVersionResource
  | AskFor gotype "handle \<Rightarrow> go_int \<Rightarrow> SharedIndexInformer" | StartAll

definition factory_run :: "factory_op \<Rightarrow> sharedInformerFactory \<Rightarrow> sharedInformerFactory" where
  "factory_run op f = (case op of
      AskRds \<Rightarrow> snd (rds_Informer (factory_Rdss f) f)
    | AskResource r \<Rightarrow> snd (ForResource r f)
    | AskFor ty newFunc \<Rightarrow> snd (InformerFor ty newFunc f)
    | StartAll \<Rightarrow> Start f)"

text \<open>
  The invariant: one informer per type, and the started ones run, once each, and are known.
\<close>

definition factory_inv :: "sharedInformerFactory \<Rightarrow> bool" where
  "factory_inv f \<longleftrightarrow> distinct (map fst (fa_informers f)) \<and> distinct (map fst (fa_running f)) \<and>
     set (fa_running f) \<subseteq> set (fa_informers f) \<and>
     (\<forall>ty. fa_started f ty \<longleftrightarrow> ty \<in> fst ` set (fa_running f))"

lemma InformerFor_inv: "factory_inv f \<Longrightarrow> factory_inv (snd (InformerFor ty newFunc f))"
  by (auto simp: InformerFor_def factory_inv_def Let_def map_of_eq_None_iff split: option.split)

lemma ForResource_state:
  "snd (ForResource r f) = (if r = gv_WithResource SchemeGroupVersion ''rdss''
     then snd (rds_Informer (factory_Rdss f) f) else f)"
  by (simp add: ForResource_def split: prod.split)

lemma start_informer_inv:
  assumes "factory_inv f" and "e \<in> set (fa_informers f)"
  shows "factory_inv (start_informer e f)" and "fa_informers (start_informer e f) = fa_informers f"
    and "fa_started (start_informer e f) (fst e)"
  using assms by (auto simp: start_informer_def factory_inv_def split: prod.split)

lemma start_informer_mono: "fa_started f ty \<Longrightarrow> fa_started (start_informer e f) ty"
  by (auto simp: start_informer_def split: prod.split)

lemma start_all:
  assumes "factory_inv f" and "set es \<subseteq> set (fa_informers f)"
  shows "factory_inv (fold start_informer es f) \<and> fa_informers (fold start_informer es f) = fa_informers f \<and>
    (\<forall>ty. fa_started f ty \<or> ty \<in> fst ` set es \<longrightarrow> fa_started (fold start_informer es f) ty)"
  using assms
proof (induction es arbitrary: f)
  case (Cons e es)
  have e: "factory_inv (start_informer e f)" "fa_informers (start_informer e f) = fa_informers f"
      "fa_started (start_informer e f) (fst e)"
    using start_informer_inv [OF Cons.prems(1), of e] Cons.prems(2) by auto
  with Cons.IH [of "start_informer e f"] Cons.prems(2) show ?case
    by (auto intro: start_informer_mono)
qed simp

lemma Start_inv: "factory_inv f \<Longrightarrow> factory_inv (Start f) \<and> fa_informers (Start f) = fa_informers f"
  unfolding Start_def using start_all [of f "fa_informers f"] by blast

lemma Start_starts_all:
  "factory_inv f \<Longrightarrow> (ty, i) \<in> set (fa_informers f) \<Longrightarrow> fa_started (Start f) ty"
  unfolding Start_def using start_all [of f "fa_informers f"] by force

lemma factory_run_inv: "factory_inv f \<Longrightarrow> factory_inv (factory_run op f)"
  by (cases op) (auto simp: factory_run_def rds_Informer_def ForResource_state InformerFor_inv Start_inv)

lemma factory_runs_inv: "factory_inv f \<Longrightarrow> factory_inv (fold factory_run ops f)"
  by (induction ops arbitrary: f) (simp_all add: factory_run_inv)

text \<open>An informer that is known stays the informer of its type.\<close>

lemma InformerFor_keeps:
  "map_of (fa_informers f) ty = Some i \<Longrightarrow> map_of (fa_informers (snd (InformerFor ty' newFunc f))) ty = Some i"
  by (auto simp: InformerFor_def Let_def map_add_def split: option.split)

lemma factory_run_keeps:
  assumes "factory_inv f" and "map_of (fa_informers f) ty = Some i"
  shows "map_of (fa_informers (factory_run op f)) ty = Some i"
  using assms
  by (cases op) (auto simp: factory_run_def rds_Informer_def ForResource_state InformerFor_keeps Start_inv)

lemma factory_runs_keep:
  "factory_inv f \<Longrightarrow> map_of (fa_informers f) ty = Some i \<Longrightarrow>
     map_of (fa_informers (fold factory_run ops f)) ty = Some i"
  by (induction ops arbitrary: f) (simp_all add: factory_run_keeps factory_run_inv)

section \<open>Property\<close>

lemma new_factory_inv: "factory_inv (NewFilteredSharedInformerFactory client resync ns tweak)"
  by (simp add: NewFilteredSharedInformerFactory_def NewSharedInformerFactoryWithOptions_def
      WithNamespace_def WithTweakListOptions_def factory_inv_def)

lemma rds_Informer_known:
  "rds_Informer ri f = (i, g) \<Longrightarrow> map_of (fa_informers g) RdsType = Some i"
  by (auto simp: rds_Informer_def InformerFor_def Let_def map_add_def split: option.splits)

lemma rds_Informer_again: "map_of (fa_informers f) RdsType = Some i \<Longrightarrow> rds_Informer ri f = (i, f)"
  by (simp add: rds_Informer_def InformerFor_def)

lemma distinct_keys_once:
  "distinct (map fst xs) \<Longrightarrow> k \<in> fst ` set xs \<Longrightarrow> length (filter (\<lambda>e. fst e = k) xs) = 1"
  by (induction xs) (auto simp: filter_empty_conv image_iff)

text \<open>C36: whatever is asked of a factory in between, it hands out the same informer for the custom
  resource each time, and after \<open>Start\<close> that informer runs exactly once, however often the
  informers have been started.\<close>

theorem informer_shared:
  "let f = fold factory_run ops (NewFilteredSharedInformerFactory client resync ns tweak) in
   case rds_Informer (factory_Rdss f) f of (i, g) \<Rightarrow>
     (let h = fold factory_run ops' g in
      rds_Informer (factory_Rdss h) h = (i, h) \<and>
      filter (\<lambda>e. fst e = RdsType) (fa_running (Start h)) = [(RdsType, i)])"
proof -
  let ?f = "fold factory_run ops (NewFilteredSharedInformerFactory client resync ns tweak)"
  obtain i g where g: "rds_Informer (factory_Rdss ?f) ?f = (i, g)" by fastforce
  let ?h = "fold factory_run ops' g"
  have "factory_inv ?f" by (rule factory_runs_inv [OF new_factory_inv])
  then have gi: "factory_inv g"
    using g InformerFor_inv [of ?f RdsType "defaultInformer (factory_Rdss ?f)"] by (simp add: rds_Informer_def)
  then have hi: "factory_inv ?h" by (rule factory_runs_inv)
  have known: "map_of (fa_informers ?h) RdsType = Some i"
    by (rule factory_runs_keep [OF gi rds_Informer_known [OF g]])
  have st: "factory_inv (Start ?h)" "fa_informers (Start ?h) = fa_informers ?h"
    using Start_inv [OF hi] by auto
  have "fa_started (Start ?h) RdsType" by (rule Start_starts_all [OF hi map_of_SomeD [OF known]])
  then have once: "length (filter (\<lambda>e. fst e = RdsType) (fa_running (Start ?h))) = 1"
    using st(1) by (intro distinct_keys_once) (auto simp: factory_inv_def)
  then obtain j where j: "filter (\<lambda>e. fst e = RdsType) (fa_running (Start ?h)) = [(RdsType, j)]"
    by (auto simp: length_Suc_conv filter_eq_Cons_iff)
  then have "(RdsType, j) \<in> set (filter (\<lambda>e. fst e = RdsType) (fa_running (Start ?h)))" by simp
  then have "(RdsType, j) \<in> set (fa_running (Start ?h))" by simp
  then have "(RdsType, j) \<in> set (fa_informers ?h)" using st by (auto simp: factory_inv_def)
  moreover have "distinct (map fst (fa_informers ?h))" using hi by (simp add: factory_inv_def)
  ultimately have "j = i" using known by (metis map_of_is_SomeI option.inject)
  then show ?thesis
    using g j rds_Informer_again [OF known] by (simp add: Let_def)
qed

text \<open>Listing and watching go to the namespace of the factory.\<close>

lemma informer_requests:
  "uses (rdss_request (si_namespace i)) (informer_List E i options)"
  "uses (rdss_request (si_namespace i)) (informer_Watch E i options)"
  by (simp_all add: informer_List_def informer_Watch_def client_uses)

text \<open>The listers give what the index gives, in its order.\<close>

lemma fold_snoc: "fold (\<lambda>m ret. ret @ [m]) ms acc = acc @ ms"
  by (induction ms arbitrary: acc) simp_all

lemma lister_List_index:
  "lister_List (NewRdsLister ix) selector = ix_ListAll ix selector"
  "namespace_List (lister_Rdss (NewRdsLister ix) namespace) selector = ix_ListAllByNamespace ix namespace selector"
  by (simp_all add: lister_List_def NewRdsLister_def lister_Rdss_def namespace_List_def fold_snoc split: prod.split)

lemma namespace_Get_missing:
  "ix_GetByKey ix (ns @ ''/'' @ n) = (None, None) \<Longrightarrow>
     \<exists>e. namespace_Get (lister_Rdss (NewRdsLister ix) ns) n = Inl e \<and> IsNotFound e"
  by (simp add: namespace_Get_def lister_Rdss_def NewRdsLister_def NewNotFound_def IsNotFound_def)

end
