(* ===== verification/Config.thy ===== *)
theory Config
  imports Cloud
begin

text \<open>
  \<open>internal/config/config.go\<close>: the settings of the operator from its environment.  The package
  \<open>env\<close> of gotway, which reads a variable or takes the default at hand, and the host name are
  parameters.  A \<open>time.Duration\<close> is a number of nanoseconds in 64 bits, printed as the
  standard library does it.
\<close>

record EnvApi =
  e_Get :: "string \<Rightarrow> string \<Rightarrow> string"
  e_GetBool :: "string \<Rightarrow> bool \<Rightarrow> bool"
  e_GetInt :: "string \<Rightarrow> go_int \<Rightarrow> go_int"
  e_GetDuration :: "string \<Rightarrow> go_int \<Rightarrow> go_int"
  e_Hostname :: "gerror + string"

record HA =
  ha_Enabled :: bool
  ha_NodeId :: string
  ha_LeaseLockName :: string
  ha_LeaseDuration :: go_int
  ha_RenewDeadline :: go_int
  ha_RetryPeriod :: go_int

record Metrics =
  mt_Enabled :: bool
  mt_Path :: string
  mt_Port :: string

record Config =
  cf_KubeConfig :: string
  cf_Namespace :: string
  cf_WatchNamespaces :: string
  cf_NumWorkers :: go_int
  cf_HA :: HA
  cf_Metrics :: Metrics
  cf_Env :: string
  cf_LogLevel :: string
  cf_RefreshTime :: go_int

section \<open>Printing\<close>

definition bool_String :: "bool \<Rightarrow> string" where
  "bool_String b = (if b then ''true'' else ''false'')"

text \<open>
  The fraction of \<open>v\<close> with \<open>prec\<close> decimal places, without its trailing zeros, in front of what
  is printed already, and the rest of \<open>v\<close>.
\<close>

fun fmt_frac :: "nat \<Rightarrow> nat \<Rightarrow> bool \<Rightarrow> string \<Rightarrow> string \<times> nat" where
  "fmt_frac 0 v printing acc = (if printing then CHR ''.'' # acc else acc, v)"
| "fmt_frac (Suc prec) v printing acc =
     (let digit = v mod 10; printing' = printing \<or> digit \<noteq> 0
      in fmt_frac prec (v div 10) printing' (if printing' then digit_char digit # acc else acc))"

definition magnitude_String :: "nat \<Rightarrow> string" where
  "magnitude_String u =
     (if u = 0 then ''0s''
      else if u < 1000 then nat_digits u @ ''ns''
      else if u < 1000000 then
        (case fmt_frac 3 u False [CHR 0xC2, CHR 0xB5, CHR ''s''] of (t, v) \<Rightarrow> nat_digits v @ t)
      else if u < 1000000000 then (case fmt_frac 6 u False ''ms'' of (t, v) \<Rightarrow> nat_digits v @ t)
      else (case fmt_frac 9 u False ''s'' of (t, v) \<Rightarrow>
        (let secs = nat_digits (v mod 60) @ t; m = v div 60 in
         if m = 0 then secs
         else (let mins = nat_digits (m mod 60) @ ''m'' @ secs; h = m div 60 in
           if h = 0 then mins else nat_digits h @ ''h'' @ mins))))"

definition Duration_String :: "go_int \<Rightarrow> string" where
  "Duration_String d =
     (if sint d < 0 then CHR ''-'' # magnitude_String (unat (- d)) else magnitude_String (unat d))"

definition quoted :: "string \<Rightarrow> string \<Rightarrow> string" where
  "quoted key v = key @ [CHR ''='', CHR 0x27] @ v @ [CHR 0x27]"

definition HA_String :: "HA \<Rightarrow> string" where
  "HA_String c =
     ''HA{'' @ quoted ''Enabled'' (bool_String (ha_Enabled c)) @ quoted ''NodeId'' (ha_NodeId c) @
     quoted ''LeaseLockName'' (ha_LeaseLockName c) @
     quoted ''LeaseDuration'' (Duration_String (ha_LeaseDuration c)) @
     quoted ''RenewDeadline'' (Duration_String (ha_RenewDeadline c)) @
     quoted ''RetryPeriod'' (Duration_String (ha_RetryPeriod c)) @ ''}''"

definition Metrics_String :: "Metrics \<Rightarrow> string" where
  "Metrics_String m =
     ''Metrics{'' @ quoted ''Enabled'' (bool_String (mt_Enabled m)) @ quoted ''Path'' (mt_Path m) @
     quoted ''Port'' (mt_Port m) @ ''}''"

text \<open>The format of the source lacks the quote after the log level and the sign before the last key's.\<close>

definition Config_String :: "Config \<Rightarrow> string" where
  "Config_String c =
     ''Config{'' @ quoted ''KubeConfig'' (cf_KubeConfig c) @ quoted ''Namespace'' (cf_Namespace c) @
     quoted ''WatchNamespaces'' (cf_WatchNamespaces c) @ quoted ''NumWorkers'' (Itoa64 (cf_NumWorkers c)) @
     quoted ''HA'' (HA_String (cf_HA c)) @ quoted ''Metrics'' (Metrics_String (cf_Metrics c)) @
     quoted ''Env'' (cf_Env c) @ ''LogLevel='' @ [CHR 0x27] @ cf_LogLevel c @ ''RefreshTime'' @ [CHR 0x27] @
     Itoa64 (cf_RefreshTime c) @ [CHR 0x27] @ ''}''"

section \<open>GetConfig\<close>

definition Second :: go_int where
  "Second = 1000000000"

definition node_id :: "EnvApi \<Rightarrow> bool \<Rightarrow> gerror + string" where
  "node_id A ha =
     (if ha then
        (let nodeId = e_Get A ''HA_NODE_ID'' '''' in
         if nodeId = '''' then
           (case e_Hostname A of
              Inl err \<Rightarrow> Inl (errorf ''error getting node id '' err)
            | Inr hostname \<Rightarrow> Inr hostname)
         else Inr nodeId)
      else Inr '''')"

definition GetConfig :: "EnvApi \<Rightarrow> gerror + Config" where
  "GetConfig A =
     (let ha = e_GetBool A ''HA_ENABLED'' False in
      case node_id A ha of
        Inl err \<Rightarrow> Inl err
      | Inr nodeId \<Rightarrow> Inr
          \<lparr>cf_KubeConfig = e_Get A ''KUBECONFIG'' '''',
           cf_Namespace = e_Get A ''NAMESPACE'' ''default'',
           cf_WatchNamespaces = e_Get A ''WATCHNAMESPACES'' ''default'',
           cf_NumWorkers = e_GetInt A ''NUM_WORKERS'' 4,
           cf_HA = \<lparr>ha_Enabled = ha, ha_NodeId = nodeId,
             ha_LeaseLockName = e_Get A ''HA_LEASE_LOCK_NAME'' ''otc-rds-operator'',
             ha_LeaseDuration = e_GetDuration A ''HA_LEASE_DURATION_SECONDS'' 15 * Second,
             ha_RenewDeadline = e_GetDuration A ''HA_RENEW_DEADLINE_SECONDS'' 10 * Second,
             ha_RetryPeriod = e_GetDuration A ''HA_RETRY_PERIOD_SECONDS'' 2 * Second\<rparr>,
           cf_Metrics = \<lparr>mt_Enabled = e_GetBool A ''METRICS_ENABLED'' True,
             mt_Path = e_Get A ''METRICS_PATH'' ''/metrics'',
             mt_Port = e_Get A ''METRICS_PORT'' ''2112''\<rparr>,
           cf_Env = e_Get A ''ENV'' ''local'',
           cf_LogLevel = e_Get A ''LOG_LEVEL'' ''debug'',
           cf_RefreshTime = e_GetInt A ''REFRESH_TIME'' 10\<rparr>)"

text \<open>Whole units are printed without a fraction.\<close>

lemma fmt_frac_whole: "fmt_frac p (v * 10 ^ p) False acc = (acc, v)"
  by (induction p arbitrary: v) (simp_all add: Let_def mult.assoc [symmetric] mult.commute [of _ 10])

lemma magnitude_seconds:
  assumes "0 < n" and "n < 60"
  shows "magnitude_String (n * 1000000000) = nat_digits n @ ''s''"
  using assms fmt_frac_whole [of 9 n "''s''"] by (simp add: magnitude_String_def)

section \<open>Property\<close>

text \<open>The configuration fails exactly for a node with high availability whose name is neither set
  nor the host's; otherwise it carries the setting, the name that was found (none without high
  availability), and lease times that are the numbers of seconds set, at 64 bits.\<close>

theorem config_result:
  "let ha = e_GetBool A ''HA_ENABLED'' False; set_id = e_Get A ''HA_NODE_ID'' '''' in
   case GetConfig A of
     Inl e \<Rightarrow> ha \<and> set_id = '''' \<and> Inl e = map_sum (errorf ''error getting node id '') id (e_Hostname A)
   | Inr c \<Rightarrow> ha_Enabled (cf_HA c) = ha \<and>
       Inr (ha_NodeId (cf_HA c)) = (if \<not> ha then Inr '''' else if set_id = '''' then e_Hostname A else Inr set_id) \<and>
       unat (ha_LeaseDuration (cf_HA c)) =
         (unat (e_GetDuration A ''HA_LEASE_DURATION_SECONDS'' 15) * 1000000000) mod 2 ^ 64"
proof -
  have wrap: "unat (d * Second) = (unat d * 1000000000) mod 2 ^ 64" for d :: go_int
    by (simp add: Second_def unat_word_ariths)
  show ?thesis
    by (cases "e_Hostname A") (auto simp: GetConfig_def node_id_def Let_def wrap)
qed

end
