(* ===== verification/Runner.thy ===== *)
theory Runner
  imports Smn_Receiver Event_Handlers Informers Config
begin

text \<open>
  How the operator starts and stops: \<open>New\<close> and \<open>Run\<close> of \<open>pkg/controller/controller.go\<close>,
  \<open>internal/runner/runner.go\<close> and \<open>cmd/main.go\<close>.

  The state is the one of a call, the controller, and a log of what the process starts and stops:
  the goroutines, the metrics server, the leader election.  The waiting for the caches, the
  end of the context, the election and the loading of a kubeconfig are parameters.
  \<open>logger.Fatal\<close> ends the process.
\<close>

section \<open>The process\<close>

record LeaderElectionConfig =
  le_LeaseName :: string
  le_LeaseNamespace :: string
  le_Identity :: string
  le_ReleaseOnCancel :: bool
  le_LeaseDuration :: go_int
  le_RenewDeadline :: go_int
  le_RetryPeriod :: go_int

datatype leader_event = StartedLeading | StoppedLeading | NewLeader string

datatype proc_event =
    InformerRun
  | WorkerRun
  | QueueShutDown
  | CtxDone
  | Fatal string
  | Election LeaderElectionConfig
  | MetricsStart string string
  | MetricsStop
  | EventSink
  | CancelCtx

record ('q, 'w) proc =
  p_sys :: "'w sys"
  p_ctl :: "'q Controller"
  p_log :: "proc_event list"

record 'w ProcApi =
  pa_WaitForCacheSync :: "'w \<Rightarrow> bool \<times> 'w"
  pa_RunOrDie :: "LeaderElectionConfig \<Rightarrow> 'w \<Rightarrow> leader_event list \<times> 'w"
  pa_BuildConfigFromFlags :: "string \<Rightarrow> string \<Rightarrow> 'w \<Rightarrow> (gerror + RestConfig) \<times> 'w"

definition note_event :: "proc_event \<Rightarrow> (('q, 'w) proc, unit) go" where
  "note_event e = go_modify (\<lambda>s. s\<lparr>p_log := p_log s @ [e]\<rparr>)"

definition on_call :: "('w sys, 'a) go \<Rightarrow> (('q, 'w) proc, 'a) go" where
  "on_call m = (\<lambda>s. case m (p_sys s) of (r, y) \<Rightarrow> (r, s\<lparr>p_sys := y\<rparr>))"

definition on_world :: "('w \<Rightarrow> 'a \<times> 'w) \<Rightarrow> (('q, 'w) proc, 'a) go" where
  "on_world f = (\<lambda>s. case f (world (p_sys s)) of (a, w) \<Rightarrow> (Ok a, s\<lparr>p_sys := (p_sys s)\<lparr>world := w\<rparr>\<rparr>))"

definition log_Fatal :: "string \<Rightarrow> (('q, 'w) proc, 'a) go" where
  "log_Fatal msg = go_then (note_event (Fatal msg)) (go_crash ProcessExit)"

section \<open>controller.go\<close>

definition shut_down :: "'q QueueApi \<Rightarrow> (('q, 'w) proc, unit) go" where
  "shut_down Q =
     go_then (go_modify (\<lambda>s. s\<lparr>p_ctl := (p_ctl s)\<lparr>c_queue := q_ShutDown Q (c_queue (p_ctl s))\<rparr>\<rparr>))
       (note_event QueueShutDown)"

definition start_workers :: "go_int \<Rightarrow> (('q, 'w) proc, unit) go" where
  "start_workers numWorkers = go_each note_event (replicate (nat (sint numWorkers)) WorkerRun)"

definition Run :: "'q QueueApi \<Rightarrow> 'w Ext \<Rightarrow> 'w ProcApi \<Rightarrow> go_int \<Rightarrow> (('q, 'w) proc, unit) go" where
  "Run Q E P numWorkers =
     go_defer (shut_down Q)
      (go_then (note_event InformerRun)
      (go_bind (on_world (pa_WaitForCacheSync P)) (\<lambda>synced.
       if \<not> synced then go_fail (new_error ''failed to wait for informers caches to sync'')
       else go_then (start_workers numWorkers)
           (go_then (go_ignore (on_call (SmnReceiver E)))
                    (note_event CtxDone)))))"

text \<open>The informer of the custom resource, and the controller that its notifications go to.\<close>

definition New :: "'q \<Rightarrow> handle \<Rightarrow> string \<Rightarrow> string \<Rightarrow> go_int \<Rightarrow> SharedIndexInformer \<times> 'q Controller" where
  "New queue rdsClientSet namespace watchnamespaces refreshtime =
     (let rdsInformerFactory = NewSharedInformerFactory rdsClientSet (refreshtime * Second);
          rdsInformer = fst (rds_Informer (factory_Rdss rdsInformerFactory) rdsInformerFactory)
      in (rdsInformer, new_controller namespace watchnamespaces refreshtime queue))"

section \<open>runner.go\<close>

definition runSingleNode :: "'q QueueApi \<Rightarrow> 'w Ext \<Rightarrow> 'w ProcApi \<Rightarrow> Config \<Rightarrow> (('q, 'w) proc, unit) go" where
  "runSingleNode Q E P config =
     go_bind (go_try (Run Q E P (cf_NumWorkers config))) (\<lambda>r. case r of
       Inl err \<Rightarrow> log_Fatal (''error running controller '' @ err_text err)
     | Inr _ \<Rightarrow> go_return ())"

definition zero_HA :: HA where
  "zero_HA = \<lparr>ha_Enabled = False, ha_NodeId = '''', ha_LeaseLockName = '''', ha_LeaseDuration = 0,
     ha_RenewDeadline = 0, ha_RetryPeriod = 0\<rparr>"

definition election_config :: "Config \<Rightarrow> LeaderElectionConfig" where
  "election_config config =
     \<lparr>le_LeaseName = ha_LeaseLockName (cf_HA config), le_LeaseNamespace = cf_Namespace config,
      le_Identity = ha_NodeId (cf_HA config), le_ReleaseOnCancel = True,
      le_LeaseDuration = ha_LeaseDuration (cf_HA config), le_RenewDeadline = ha_RenewDeadline (cf_HA config),
      le_RetryPeriod = ha_RetryPeriod (cf_HA config)\<rparr>"

text \<open>The callbacks; the two others only write to the log.\<close>

definition leader_callback :: "'q QueueApi \<Rightarrow> 'w Ext \<Rightarrow> 'w ProcApi \<Rightarrow> Config \<Rightarrow> leader_event \<Rightarrow>
    (('q, 'w) proc, unit) go" where
  "leader_callback Q E P config ev =
     (case ev of StartedLeading \<Rightarrow> runSingleNode Q E P config | _ \<Rightarrow> go_return ())"

definition runHA :: "'q QueueApi \<Rightarrow> 'w Ext \<Rightarrow> 'w ProcApi \<Rightarrow> Config \<Rightarrow> (('q, 'w) proc, unit) go" where
  "runHA Q E P config =
     (if cf_HA config = zero_HA \<or> \<not> ha_Enabled (cf_HA config)
      then log_Fatal ''HA config not set or not enabled''
      else go_then (note_event (Election (election_config config)))
          (go_bind (on_world (pa_RunOrDie P (election_config config)))
            (go_each (leader_callback Q E P config))))"

definition runner_Start :: "'q QueueApi \<Rightarrow> 'w Ext \<Rightarrow> 'w ProcApi \<Rightarrow> Config \<Rightarrow> (('q, 'w) proc, unit) go" where
  "runner_Start Q E P config =
     (if ha_Enabled (cf_HA config) then runHA Q E P config else runSingleNode Q E P config)"

text \<open>The runner's controller is \<open>p_ctl\<close> of the state; logger and recorder have no state here.\<close>

record Runner =
  rn_clientset :: handle
  rn_config :: Config

definition NewRunner :: "handle \<Rightarrow> Config \<Rightarrow> Runner" where
  "NewRunner clientset config = \<lparr>rn_clientset = clientset, rn_config = config\<rparr>"

section \<open>main.go\<close>

text \<open>The logger is gotway's; it is made here and has no effect on the rest.\<close>

record 'lg LoggerApi =
  lg_NewLogger :: "(string \<times> string) list \<Rightarrow> string \<Rightarrow> string \<Rightarrow> 'lg"
  lg_WithField :: "'lg \<Rightarrow> string \<Rightarrow> string \<Rightarrow> 'lg"

definition getLogger :: "'lg LoggerApi \<Rightarrow> Config \<Rightarrow> 'lg" where
  "getLogger L config =
     (let logger = lg_NewLogger L [(''service'', ''otc-rds-operator'')] (cf_Env config) (cf_LogLevel config)
      in if ha_Enabled (cf_HA config) then lg_WithField L logger ''node'' (ha_NodeId (cf_HA config))
         else logger)"

definition fatal_on_error :: "string \<Rightarrow> (('q, 'w) proc, 'a) go \<Rightarrow> (('q, 'w) proc, 'a) go" where
  "fatal_on_error msg m = go_bind (go_try m) (\<lambda>r. case r of
      Inl err \<Rightarrow> log_Fatal (msg @ err_text err) | Inr a \<Rightarrow> go_return a)"

definition load_kubeconfig :: "'w Ext \<Rightarrow> 'w ProcApi \<Rightarrow> Config \<Rightarrow> (('q, 'w) proc, RestConfig) go" where
  "load_kubeconfig E P config =
     (if cf_KubeConfig config \<noteq> ''''
      then go_bind (on_world (pa_BuildConfigFromFlags P '''' (cf_KubeConfig config))) go_lift
      else on_call (InClusterConfig E))"

definition with_metrics :: "Config \<Rightarrow> (('q, 'w) proc, unit) go \<Rightarrow> (('q, 'w) proc, unit) go" where
  "with_metrics config m =
     (if mt_Enabled (cf_Metrics config)
      then go_then (note_event (MetricsStart (mt_Path (cf_Metrics config)) (mt_Port (cf_Metrics config))))
             (go_defer (note_event MetricsStop) m)
      else m)"

definition main :: "EnvApi \<Rightarrow> 'q QueueApi \<Rightarrow> 'q \<Rightarrow> 'w Ext \<Rightarrow> 'w ProcApi \<Rightarrow> (('q, 'w) proc, unit) go" where
  "main A Q queue E P =
     (case GetConfig A of
        Inl err \<Rightarrow> go_crash ExplicitPanic
      | Inr config \<Rightarrow>
          go_bind (fatal_on_error ''error getting kubernetes config '' (load_kubeconfig E P config)) (\<lambda>restConfig.
          go_bind (fatal_on_error ''error getting kubernetes client '' (on_call (KubeClient E restConfig))) (\<lambda>kubeClientSet.
          go_bind (fatal_on_error ''error creating rds client ''
                    (on_call (clientset_NewForConfig E restConfig))) (\<lambda>rdsClientSet.
          go_then (note_event EventSink)
         (go_then (go_modify (\<lambda>s. s\<lparr>p_ctl := snd (New queue (cs_mcspsV1alpha1 rdsClientSet)
                     (cf_Namespace config) (cf_WatchNamespaces config) (cf_RefreshTime config))\<rparr>))
         (go_defer (note_event CancelCtx)
           (with_metrics config
             (runner_Start Q E P (rn_config (NewRunner kubeClientSet config))))))))))"

section \<open>Evaluation\<close>

lemma note_event_eval [go_eval]: "note_event e s = (Ok (), s\<lparr>p_log := p_log s @ [e]\<rparr>)"
  by (simp add: note_event_def go_eval)

lemma log_Fatal_eval [go_eval]: "log_Fatal msg s = (Crash ProcessExit, s\<lparr>p_log := p_log s @ [Fatal msg]\<rparr>)"
  by (simp add: log_Fatal_def go_eval)

lemma each_note_eval:
  "go_each note_event es s = (Ok (), s\<lparr>p_log := p_log s @ es\<rparr>)"
  by (induction es arbitrary: s) (simp_all add: go_eval)

lemma SmnReceiver_ok: "\<exists>t. SmnReceiver E s = (Ok (), t)"
  using listen_loop_run [of E 3 s] unfolding SmnReceiver_def by blast

section \<open>Properties\<close>

text \<open>A run of the controller starts the informer, then, once its cache is synced, the given
  number of workers (none for a negative number), and waits for the end of the context; without
  a synced cache it starts no worker and fails.  In both cases it ends by shutting down the
  queue, on which the workers return.\<close>

theorem run_lifecycle:
  "case Run Q E P n s of (r, t) \<Rightarrow>
     (let synced = fst (pa_WaitForCacheSync P (world (p_sys s))) in
      r = (if synced then Ok () else Fail (new_error ''failed to wait for informers caches to sync'')) \<and>
      p_log t = p_log s @ InformerRun # (if synced then replicate (nat (sint n)) WorkerRun @ [CtxDone] else []) @ [QueueShutDown] \<and>
      c_queue (p_ctl t) = q_ShutDown Q (c_queue (p_ctl s)))"
proof -
  obtain b w where sync: "pa_WaitForCacheSync P (world (p_sys s)) = (b, w)" by fastforce
  obtain u where "SmnReceiver E (p_sys s\<lparr>world := w\<rparr>) = (Ok (), u)" using SmnReceiver_ok by blast
  with sync show ?thesis
    by (cases b) (simp_all add: Run_def go_eval on_world_def on_call_def each_note_eval start_workers_def
        shut_down_def)
qed

definition informer_runs :: "proc_event list \<Rightarrow> nat" where
  "informer_runs es = length (filter ((=) InformerRun) es)"

lemma informer_runs_simps [simp]:
  "informer_runs [] = 0" "informer_runs (xs @ ys) = informer_runs xs + informer_runs ys"
  "informer_runs (e # es) = (if e = InformerRun then 1 else 0) + informer_runs es"
  "informer_runs (replicate k WorkerRun) = 0"
  by (auto simp: informer_runs_def)

text \<open>What one part of the process adds to its log: \<open>k\<close> runs of the controller, or fewer when it is cut short.\<close>

definition did_run :: "nat \<Rightarrow> 'a outcome \<Rightarrow> proc_event list \<Rightarrow> bool" where
  "did_run k r new \<longleftrightarrow> Fatal ''HA config not set or not enabled'' \<notin> set new \<and> informer_runs new \<le> k \<and>
     (\<forall>a. r = Ok a \<longrightarrow> informer_runs new = k)"

definition runs :: "nat \<Rightarrow> (('q, 'w) proc, 'a) go \<Rightarrow> bool" where
  "runs k m \<longleftrightarrow> (\<forall>s r t. m s = (r, t) \<longrightarrow> (\<exists>new. p_log t = p_log s @ new \<and> did_run k r new))"

lemma runsE:
  assumes "runs k m" and "m s = (r, t)"
  obtains new where "p_log t = p_log s @ new" and "did_run k r new"
  using assms(1) [unfolded runs_def, rule_format, OF assms(2)] that by blast

lemma runsI: "(\<And>s r t. m s = (r, t) \<Longrightarrow> \<exists>new. p_log t = p_log s @ new \<and> did_run k r new) \<Longrightarrow> runs k m"
  by (simp add: runs_def)

lemma runs_single:
  fixes Q :: "'q QueueApi" and E :: "'w Ext"
  shows "runs 1 (runSingleNode Q E P config)"
proof (rule runsI)
  fix s :: "('q, 'w) proc" and r t
  assume run: "runSingleNode Q E P config s = (r, t)"
  obtain q u where ru: "Run Q E P (cf_NumWorkers config) s = (q, u)" by fastforce
  show "\<exists>new. p_log t = p_log s @ new \<and> did_run 1 r new"
    using run_lifecycle [where Q = Q and E = E and P = P and n = "cf_NumWorkers config" and s = s] run
    by (simp add: ru Let_def runSingleNode_def go_eval split: if_splits) (auto simp: did_run_def)
qed

lemma did_run_append: "did_run j (Ok a) xs \<Longrightarrow> did_run k r ys \<Longrightarrow> did_run (j + k) r (xs @ ys)"
  by (auto simp: did_run_def)

lemma did_run_cut: "did_run j q xs \<Longrightarrow> (\<And>a. q \<noteq> Ok a) \<Longrightarrow> (\<And>a. r \<noteq> Ok a) \<Longrightarrow> did_run (j + k) r xs"
  by (auto simp: did_run_def)

lemma runs_then:
  assumes "runs j m" and "runs k n"
  shows "runs (j + k) (go_then m n)"
proof (rule runsI)
  fix s r t
  assume run: "go_then m n s = (r, t)"
  then show "\<exists>new. p_log t = p_log s @ new \<and> did_run (j + k) r new"
  proof (cases rule: go_then_cases)
    case (stop q)
    have "r \<noteq> Ok a" for a using run stop by (auto simp: go_then_eval split: outcome.splits)
    with stop runsE [OF assms(1) stop(1)] show ?thesis by (metis did_run_cut)
  next
    case (cont a u)
    obtain x where "p_log u = p_log s @ x" "did_run j (Ok a) x" by (rule runsE [OF assms(1) cont(1)])
    moreover obtain y where "p_log t = p_log u @ y" "did_run k r y" by (rule runsE [OF assms(2) cont(2)])
    ultimately show ?thesis by (intro exI [of _ "x @ y"]) (simp add: did_run_append)
  qed
qed

lemma runs_return: "runs 0 (go_return a)"
  by (rule runsI) (simp add: go_eval did_run_def)

lemma runs_each: "(\<And>e. runs (k e) (f e)) \<Longrightarrow> runs (sum_list (map k es)) (go_each f es)"
  by (induction es) (simp_all add: runs_then runs_return)

lemma runs_callback: "runs (if e = StartedLeading then 1 else 0) (leader_callback Q E P config e)"
  using runs_single [of Q E P config]
  by (cases e) (simp_all add: leader_callback_def runs_return)

lemma sum_list_count: "sum_list (map (\<lambda>e. if e = x then 1 else 0) es) = length (filter ((=) x) es)"
  by (induction es) auto

text \<open>C34: without high availability the controller runs once; with it, once for each time the
  node is told that it leads, or less when the process ends in between, and never for another
  event of the election.  The error branch of \<open>runHA\<close> for a disabled setting is never reached.\<close>

theorem controller_runs:
  "case runner_Start Q E P config s of (r, t) \<Rightarrow>
     (let new = drop (length (p_log s)) (p_log t);
          told = fst (pa_RunOrDie P (election_config config) (world (p_sys s)));
          k = (if ha_Enabled (cf_HA config) then length (filter ((=) StartedLeading) told) else 1)
      in (if r = Ok () then informer_runs new = k else informer_runs new \<le> k) \<and>
         Fatal ''HA config not set or not enabled'' \<notin> set new)"
proof (cases "ha_Enabled (cf_HA config)")
  case False
  obtain r t where run: "runSingleNode Q E P config s = (r, t)" by fastforce
  obtain new where "p_log t = p_log s @ new" "did_run 1 r new"
    by (rule runsE [OF runs_single run])
  with False run show ?thesis by (simp add: runner_Start_def Let_def did_run_def)
next
  case True
  then have "cf_HA config \<noteq> zero_HA" by (auto simp: zero_HA_def)
  let ?s = "s\<lparr>p_log := p_log s @ [Election (election_config config)]\<rparr>"
  obtain told w where ev: "pa_RunOrDie P (election_config config) (world (p_sys s)) = (told, w)" by fastforce
  let ?u = "?s\<lparr>p_sys := p_sys s\<lparr>world := w\<rparr>\<rparr>"
  obtain r t where run: "go_each (leader_callback Q E P config) told ?u = (r, t)" by fastforce
  have start: "runner_Start Q E P config s = (r, t)"
    using True \<open>cf_HA config \<noteq> zero_HA\<close> ev run by (simp add: runner_Start_def runHA_def go_eval on_world_def)
  obtain new where new: "p_log t = p_log ?u @ new" "did_run (length (filter ((=) StartedLeading) told)) r new"
    using runsE [OF runs_each [OF runs_callback] run] by (metis sum_list_count)
  then have "drop (length (p_log s)) (p_log t) = Election (election_config config) # new" by simp
  with new(2) True start ev show ?thesis by (simp add: Let_def did_run_def)
qed

section \<open>The process\<close>

text \<open>The log of the process only grows.\<close>

definition log_extends :: "('q, 'w) proc \<Rightarrow> ('q, 'w) proc \<Rightarrow> bool" where
  "log_extends s t \<longleftrightarrow> (\<exists>new. p_log t = p_log s @ new)"

interpretation log_extension: run_relation "log_extends :: ('q, 'w) proc \<Rightarrow> ('q, 'w) proc \<Rightarrow> bool"
proof
  fix s t u :: "('q, 'w) proc"
  show "log_extends s s" by (simp add: log_extends_def)
  show "log_extends s t \<Longrightarrow> log_extends t u \<Longrightarrow> log_extends s u" by (auto simp: log_extends_def)
qed

lemma log_extends_leaf:
  "run_respects log_extends (note_event e)" "run_respects log_extends (on_call m)"
  "run_respects log_extends (on_world f)" "run_respects log_extends (log_Fatal msg)"
  "run_respects log_extends (go_modify (\<lambda>s. s\<lparr>p_ctl := c s\<rparr>))"
  by (auto simp: run_respects_def log_extends_def go_eval on_call_def on_world_def split: prod.split)

lemma runner_Start_extends: "run_respects log_extends (runner_Start Q E P config)"
proof -
  have "run_respects log_extends (Run Q E P n)" for n
    unfolding Run_def shut_down_def start_workers_def by (intro run_intro log_extends_leaf)
  then have "run_respects log_extends (runSingleNode Q E P config)"
    unfolding runSingleNode_def by (intro run_intro log_extends_leaf)
  moreover from this have "run_respects log_extends (leader_callback Q E P config ev)" for ev
    unfolding leader_callback_def by (cases ev) (simp_all add: log_extension.keep_return)
  ultimately show ?thesis
    unfolding runner_Start_def runHA_def by (intro run_intro log_extends_leaf)
qed

text \<open>
  Why the start fails, computed from the answers alone: of the kubeconfig or the cluster, of
  Kubernetes for its client, and of the settings, Kubernetes and its discovery for the client of
  the resource.  \<open>None\<close>: it does not.
\<close>

definition config_answer :: "'w Ext \<Rightarrow> 'w ProcApi \<Rightarrow> Config \<Rightarrow> 'w \<Rightarrow> (gerror + RestConfig) \<times> 'w" where
  "config_answer E P config w = (if cf_KubeConfig config = '''' then k_InClusterConfig (kube E) w
     else pa_BuildConfigFromFlags P '''' (cf_KubeConfig config) w)"

definition rds_client_error :: "'w Ext \<Rightarrow> RestConfig \<Rightarrow> 'w \<Rightarrow> gerror option" where
  "rds_client_error E cfg w =
     (case with_rate_limiter cfg of
        Inl e \<Rightarrow> Some e
      | Inr c \<Rightarrow> (case k_RESTClientFor (kube E) (setConfigDefaults E c) w of
          (Inl e, _) \<Rightarrow> Some e
        | (Inr h, w1) \<Rightarrow> (case fst (k_DiscoveryClientFor (kube E) c w1) of Inl e \<Rightarrow> Some e | Inr d \<Rightarrow> None)))"

definition start_error :: "'w Ext \<Rightarrow> 'w ProcApi \<Rightarrow> Config \<Rightarrow> 'w \<Rightarrow> string option" where
  "start_error E P config w =
     (case config_answer E P config w of
        (Inl e, _) \<Rightarrow> Some (''error getting kubernetes config '' @ err_text e)
      | (Inr cfg, w1) \<Rightarrow> (case k_NewForConfig (kube E) cfg w1 of
          (Inl e, _) \<Rightarrow> Some (''error getting kubernetes client '' @ err_text e)
        | (Inr k, w2) \<Rightarrow> map_option (\<lambda>e. ''error creating rds client '' @ err_text e) (rds_client_error E cfg w2)))"

lemma fatal_on_error_eval:
  "fatal_on_error msg m s = (case m s of
      (Ok a, u) \<Rightarrow> (Ok a, u)
    | (Fail e, u) \<Rightarrow> (Crash ProcessExit, u\<lparr>p_log := p_log u @ [Fatal (msg @ err_text e)]\<rparr>)
    | (Crash c, u) \<Rightarrow> (Crash c, u))"
  by (auto simp: fatal_on_error_def go_eval split: prod.split outcome.split)

lemma rds_client_run:
  obtains (ok) cs y where "clientset_NewForConfig E cfg s = (Ok cs, y)" "rds_client_error E cfg (world s) = None"
  | (fail) e y where "clientset_NewForConfig E cfg s = (Fail e, y)" "rds_client_error E cfg (world s) = Some e"
proof (cases "with_rate_limiter cfg")
  case (Inl e)
  then show thesis
    by (intro fail) (simp_all add: clientset_NewForConfig_def rds_client_error_def go_eval)
next
  case (Inr c)
  obtain a w where a: "k_RESTClientFor (kube E) (setConfigDefaults E c) (world s) = (a, w)" by fastforce
  obtain d v where d: "k_DiscoveryClientFor (kube E) c w = (d, v)" by fastforce
  show thesis
  proof (cases "\<exists>e. a = Inl e \<or> d = Inl e")
    case True
    with Inr a d show thesis
      by (cases a; cases d)
        (intro fail; auto simp: clientset_NewForConfig_def mcsps_NewForConfig_def rds_client_error_def Let_def go_eval)+
  next
    case False
    with Inr a d show thesis
      by (cases a; cases d)
        (intro ok; auto simp: clientset_NewForConfig_def mcsps_NewForConfig_def rds_client_error_def Let_def go_eval)+
  qed
qed

lemma kube_client_run:
  obtains (ok) k y where "KubeClient E cfg s = (Ok k, y)" "k_NewForConfig (kube E) cfg (world s) = (Inr k, world y)"
  | (fail) e y where "KubeClient E cfg s = (Fail e, y)" "fst (k_NewForConfig (kube E) cfg (world s)) = Inl e"
proof -
  obtain a w where a: "k_NewForConfig (kube E) cfg (world s) = (a, w)" by fastforce
  show thesis
  proof (cases a)
    case (Inl e)
    with a show thesis by (intro fail) (simp_all add: KubeClient_def go_eval)
  next
    case (Inr k)
    with a show thesis by (intro ok [of k "log_call (K8S CKubeClient) True w s"]) (simp_all add: KubeClient_def go_eval)
  qed
qed

lemma load_kubeconfig_run:
  fixes s :: "('q, 'w) proc"
  obtains (ok) cfg and u :: "('q, 'w) proc" where "load_kubeconfig E P config s = (Ok cfg, u)" "p_log u = p_log s"
      "config_answer E P config (world (p_sys s)) = (Inr cfg, world (p_sys u))"
  | (fail) e and u :: "('q, 'w) proc" where "load_kubeconfig E P config s = (Fail e, u)" "p_log u = p_log s"
      "fst (config_answer E P config (world (p_sys s))) = Inl e"
proof -
  obtain a w where a: "config_answer E P config (world (p_sys s)) = (a, w)" by fastforce
  obtain u :: "('q, 'w) proc" where u: "load_kubeconfig E P config s = (case a of Inl e \<Rightarrow> Fail e | Inr cfg \<Rightarrow> Ok cfg, u)"
      "p_log u = p_log s" "world (p_sys u) = w"
    using a by (cases a; cases "cf_KubeConfig config = ''''")
      (simp_all add: config_answer_def load_kubeconfig_def InClusterConfig_def go_eval on_call_def on_world_def)
  show thesis
  proof (cases a)
    case (Inl e)
    with a u show thesis by (intro fail [of e u]) simp_all
  next
    case (Inr cfg)
    with a u show thesis by (intro ok [of cfg u]) simp_all
  qed
qed

definition metrics_start :: "Config \<Rightarrow> proc_event list" where
  "metrics_start config = (if mt_Enabled (cf_Metrics config)
     then [MetricsStart (mt_Path (cf_Metrics config)) (mt_Port (cf_Metrics config))] else [])"

definition metrics_stop :: "Config \<Rightarrow> proc_event list" where
  "metrics_stop config = (if mt_Enabled (cf_Metrics config) then [MetricsStop] else [])"

definition exits :: "'a outcome \<Rightarrow> bool" where
  "exits r \<longleftrightarrow> r = Crash ProcessExit \<or> r = Crash Blocked"

text \<open>
  The runner runs on a new controller with the given settings, behind the event sink and the
  metrics server; when it returns, the metrics server is stopped and the context cancelled, in
  this order, unless it ended the process.
\<close>

definition ran_controller :: "'q QueueApi \<Rightarrow> 'q \<Rightarrow> 'w Ext \<Rightarrow> 'w ProcApi \<Rightarrow> Config \<Rightarrow> ('q, 'w) proc \<Rightarrow>
    unit outcome \<Rightarrow> ('q, 'w) proc \<Rightarrow> bool" where
  "ran_controller Q queue E P config s r t \<longleftrightarrow>
     (\<exists>u v. runner_Start Q E P config u = (r, v) \<and> log_extends u v \<and>
        p_ctl u = new_controller (cf_Namespace config) (cf_WatchNamespaces config) (cf_RefreshTime config) queue \<and>
        p_log u = p_log s @ EventSink # metrics_start config \<and>
        p_log t = p_log v @ (if exits r then [] else metrics_stop config @ [CancelCtx]))"

lemma with_metrics_run:
  assumes "m (s\<lparr>p_log := p_log s @ metrics_start config\<rparr>) = (r, v)"
  shows "with_metrics config m s = (r, if exits r then v else v\<lparr>p_log := p_log v @ metrics_stop config\<rparr>)"
  using assms
  by (cases "mt_Enabled (cf_Metrics config)")
    (simp_all add: with_metrics_def metrics_start_def metrics_stop_def exits_def go_eval split: outcome.split)

text \<open>The last part of the start, once the clients are made.\<close>

lemma main_started:
  assumes config: "GetConfig A = Inr config"
    and load: "load_kubeconfig E P config s = (Ok cfg, s1)" "p_log s1 = p_log s"
    and kube: "KubeClient E cfg (p_sys s1) = (Ok k, y)"
    and rds: "clientset_NewForConfig E cfg y = (Ok cs, z)"
  shows "case main A Q queue E P s of (r, t) \<Rightarrow> ran_controller Q queue E P config s r t"
proof -
  let ?s3 = "s1\<lparr>p_sys := z\<rparr>"
  let ?c = "new_controller (cf_Namespace config) (cf_WatchNamespaces config) (cf_RefreshTime config) queue"
  let ?w = "?s3\<lparr>p_log := p_log s1 @ [EventSink], p_ctl := ?c\<rparr>"
  let ?u = "?w\<lparr>p_log := p_log ?w @ metrics_start config\<rparr>"
  obtain r v where run: "runner_Start Q E P config ?u = (r, v)" by fastforce
  have main: "main A Q queue E P s = (r, if exits r then v
      else v\<lparr>p_log := p_log v @ metrics_stop config @ [CancelCtx]\<rparr>)"
    using load kube rds with_metrics_run [of "runner_Start Q E P config" ?w, OF run]
    by (simp add: main_def config fatal_on_error_eval on_call_def go_eval NewRunner_def New_def Let_def exits_def)
  have "p_ctl ?u = ?c" "p_log ?u = p_log s @ EventSink # metrics_start config"
    using load(2) by simp_all
  then have "ran_controller Q queue E P config s r (snd (main A Q queue E P s))"
    unfolding ran_controller_def main using run run_respectsD [OF runner_Start_extends run]
    by (intro exI [of _ ?u] exI [of _ v]) simp
  then show ?thesis by (simp add: main)
qed

text \<open>C35: the process panics without a trace when its settings cannot be read.  It ends by a fatal
  message, with nothing started, exactly when the kubeconfig or one of the two clients cannot be
  made, with the message of the first of them.  Otherwise the runner runs on a new controller with
  the given settings, behind the event sink and the metrics server; when it returns, the metrics
  server is stopped and the context cancelled, in this order, unless the runner ended the
  process, which skips both.\<close>

theorem main_lifecycle:
  "case main A Q queue E P s of (r, t) \<Rightarrow>
     (case GetConfig A of
        Inl e \<Rightarrow> r = Crash ExplicitPanic \<and> t = s
      | Inr config \<Rightarrow> (case start_error E P config (world (p_sys s)) of
          Some msg \<Rightarrow> r = Crash ProcessExit \<and> p_log t = p_log s @ [Fatal msg]
        | None \<Rightarrow> ran_controller Q queue E P config s r t))"
proof (cases "GetConfig A")
  case (Inl e)
  then show ?thesis by (simp add: main_def go_eval)
next
  case (Inr config)
  show ?thesis
  proof (cases rule: load_kubeconfig_run [of E P config s])
    case (fail e u)
    then show ?thesis
      by (auto simp: main_def Inr go_bind_eval fatal_on_error_eval start_error_def
          split: prod.split)
  next
    case load: (ok cfg s1)
    show ?thesis
    proof (cases rule: kube_client_run [of E cfg "p_sys s1"])
      case (fail e y)
      with load show ?thesis
        by (auto simp: main_def Inr go_bind_eval fatal_on_error_eval on_call_def start_error_def split: prod.split)
    next
      case kube: (ok k y)
      show ?thesis
      proof (cases rule: rds_client_run [of E cfg y])
        case (fail e z)
        with load kube show ?thesis
          by (simp add: main_def Inr go_bind_eval fatal_on_error_eval on_call_def start_error_def)
      next
        case (ok cs z)
        with load kube have "start_error E P config (world (p_sys s)) = None"
          by (simp add: start_error_def)
        with main_started [OF Inr load(1,2) kube(1) ok(1)] show ?thesis by (simp add: Inr)
      qed
    qed
  qed
qed

end
