(* ===== verification/Operator.thy ===== *)
theory Operator
  imports Worker Runner
begin

text \<open>
  Properties of the operator as a whole: of every sequence of its steps, and of its shutdown.
  The lemmas lift what a handler does to the log of calls to the steps of the worker.
\<close>

section \<open>Instances are deleted by \<open>Delete\<close> only\<close>

lemma harmless_spares: "mutation c = None \<Longrightarrow> deleted_instance c = None"
  by (cases c rule: mutation.cases) auto

lemma create_call_spares: "create_call c \<Longrightarrow> deleted_instance c = None"
proof -
  have "status_call c \<Longrightarrow> deleted_instance c = None" by (cases c rule: status_call.cases) auto
  then show "create_call c \<Longrightarrow> deleted_instance c = None" by (cases c rule: create_call.cases) auto
qed

lemma status_call_spares: "status_call c \<Longrightarrow> deleted_instance c = None"
  by (rule create_call_spares) (rule status_call_create)

lemmas spares = uses_mono [OF refresh_status_harmless harmless_spares]
  uses_mono [OF update_rest_harmless harmless_spares]
  status_write.write_uses_in [OF status_call_spares]

lemma update_phases_spare:
  "deletes_nothing (recheck_spec E client)" "deletes_nothing (enlarge_volume E client)"
  "deletes_nothing (change_flavor E client)" "deletes_nothing (restart_instance E client)"
  "deletes_nothing (restore_backup E client)"
  unfolding recheck_spec_def enlarge_volume_def change_flavor_def restart_instance_def restore_backup_def
    restore_to_def Let_def
  by (intro run_intro uses_intro spares; simp)+

lemma Update_spares: "deletes_nothing (Update E)"
  unfolding Update_def rdsUpdate_def
  by (intro run_intro uses_intro update_phases_spare spares; simp)

lemma on_copies_log:
  assumes "uses K m"
  shows "uses K (on_copies m)"
proof (rule run_respectsI)
  fix s :: "'a sys"
  let ?s = "s\<lparr>oldRds := Rds_DeepCopyInto (oldRds s), newRds := Rds_DeepCopyInto (newRds s)\<rparr>"
  obtain r t where run: "m ?s = (r, t)" by fastforce
  from run_respectsD [OF assms run] run
  show "emits (\<lambda>(c, _). K c) s (snd (on_copies m s))"
    by (simp add: on_copies_def emits_def)
qed

lemma processUpdateRds_spares: "deletes_nothing (processUpdateRds E)"
  unfolding processUpdateRds_def
  by (intro run_intro uses_intro on_copies_log Update_spares spares; simp)

lemma processAddRds_spares: "deletes_nothing (processAddRds E)"
  unfolding processAddRds_def by (rule uses_mono [OF Create_uses create_call_spares])

section \<open>The log of a step\<close>

lemma on_objects_calls:
  assumes "on_objects old new m s = (r, t)"
  obtains (skip) "op_sys t = op_sys s"
  | (ran_handler) y where "c_heap (op_ctl s) new = Some (newRds y)"
      and "calls y = calls (op_sys s)" and "m y = (r, op_sys t)"
proof -
  have "op_sys t = op_sys s \<or> (\<exists>ob nb. c_heap (op_ctl s) new = Some nb \<and>
      m ((op_sys s)\<lparr>oldRds := ob, newRds := nb\<rparr>) = (r, op_sys t))"
    using assms unfolding on_objects_def Let_def
    by (cases "case old of None \<Rightarrow> Some (oldRds (op_sys s)) | Some p \<Rightarrow> c_heap (op_ctl s) p"; cases "c_heap (op_ctl s) new")
      (auto split: prod.splits)
  then show thesis
  proof
    assume "op_sys t = op_sys s"
    then show thesis by (rule skip)
  next
    assume "\<exists>ob nb. c_heap (op_ctl s) new = Some nb \<and>
        m ((op_sys s)\<lparr>oldRds := ob, newRds := nb\<rparr>) = (r, op_sys t)"
    then obtain ob nb where "c_heap (op_ctl s) new = Some nb"
        "m ((op_sys s)\<lparr>oldRds := ob, newRds := nb\<rparr>) = (r, op_sys t)" by blast
    then show thesis by (intro ran_handler [of "(op_sys s)\<lparr>oldRds := ob, newRds := nb\<rparr>"]) simp_all
  qed
qed

text \<open>A handler whose log has no deletion leaves none in the log of its event.\<close>

lemma on_objects_spares:
  assumes "deletes_nothing m" and "on_objects old new m s = (r, t)"
  obtains cs where "calls (op_sys t) = calls (op_sys s) @ cs" and "seen deleted_instance cs = []"
  using assms(2)
proof (cases rule: on_objects_calls)
  case skip
  then show ?thesis using that [of "[]"] by simp
next
  case (ran_handler y)
  from silent_run [OF assms(1) ran_handler(3)] ran_handler(2) that show ?thesis by auto
qed

text \<open>
  What the event \<open>ev\<close> may add to the log in the memory \<open>h\<close>: no deletion, unless it is the
  deletion of a resource; then that of the instance of its object.
\<close>

definition event_log :: "(addr \<Rightarrow> Rds option) \<Rightarrow> event \<Rightarrow> (call \<times> bool) list \<Rightarrow> bool" where
  "event_log h ev cs \<longleftrightarrow> seen deleted_instance cs = [] \<or>
     ev_eventType ev = delRds_type \<and>
     (\<exists>r. h (ev_newObj ev) = Some r \<and> delete_log (status_Id (rds_Status r)) cs)"

lemma processEvent_log:
  assumes run: "processEvent E ev s = (r, t)"
  shows "\<exists>cs. calls (op_sys t) = calls (op_sys s) @ cs \<and> event_log (c_heap (op_ctl s)) ev cs"
proof (cases "ev_eventType ev = delRds_type")
  case True
  then have "on_objects None (ev_newObj ev) (Delete E) s = (r, t)"
    using run by (simp add: processEvent_def processDelRds_def addRds_type_def delRds_type_def)
  then show ?thesis
  proof (cases rule: on_objects_calls)
    case (ran_handler y)
    have "\<exists>cs. calls (op_sys t) = calls (op_sys s) @ cs \<and> delete_log (status_Id (rds_Status (newRds y))) cs"
      using Delete_safely [of E, unfolded deletes_safely_def, rule_format, of y] ran_handler by simp
    with True ran_handler show ?thesis by (auto simp: event_log_def)
  qed (simp add: event_log_def)
next
  case False
  note quiet = on_objects_spares [OF processAddRds_spares] on_objects_spares [OF processUpdateRds_spares]
  have "\<exists>cs. calls (op_sys t) = calls (op_sys s) @ cs \<and> seen deleted_instance cs = []"
    using run False unfolding processEvent_def
    by (auto simp: go_eval split: if_splits option.splits elim: quiet)
  then show ?thesis by (auto simp: event_log_def)
qed

lemma process_item_log:
  assumes run: "process_item Q E ev s = (Ok b, t)"
  shows "\<exists>cs. calls (op_sys t) = calls (op_sys s) @ cs \<and> event_log (c_heap (op_ctl s)) ev cs"
proof -
  obtain p v where pe: "processEvent E ev s = (p, v)" by fastforce
  with run have "op_sys t = op_sys v"
    by (auto simp: process_item_def go_eval settle_eval split: outcome.splits if_splits)
  with processEvent_log [OF pe] show ?thesis by simp
qed

text \<open>
  \<open>deletion_by s t i\<close>: in the step from \<open>s\<close> to \<open>t\<close> a worker handles the deletion of a resource with
  the instance \<open>i\<close>, and the only deletion it requests, that of \<open>i\<close>, comes behind a completed
  backup of \<open>i\<close> that the same step made.
\<close>

definition deletion_by :: "('q, 'w) op \<Rightarrow> ('q, 'w) op \<Rightarrow> string \<Rightarrow> bool" where
  "deletion_by s t i \<longleftrightarrow> (\<exists>ev r pre ok post.
     ev \<in> set (op_busy s) \<and> ev_eventType ev = delRds_type \<and>
     c_heap (op_ctl s) (ev_newObj ev) = Some r \<and> status_Id (rds_Status r) = i \<and>
     calls (op_sys t) = calls (op_sys s) @ pre @ (RDS (CRdsDelete i), ok) # post \<and> backed_up i pre \<and>
     seen deleted_instance (pre @ post) = [])"

lemma event_log_deletes:
  assumes "event_log h ev cs" and "(RDS (CRdsDelete i), ok) \<in> set cs"
  obtains r pre ok' post where "ev_eventType ev = delRds_type" and "h (ev_newObj ev) = Some r"
    and "status_Id (rds_Status r) = i" and "cs = pre @ (RDS (CRdsDelete i), ok') # post"
    and "backed_up i pre" and "seen deleted_instance (pre @ post) = []"
proof -
  have i: "i \<in> set (seen deleted_instance cs)" using assms(2) by (force simp: seen_set)
  with assms(1) obtain r where r: "ev_eventType ev = delRds_type" "h (ev_newObj ev) = Some r"
      "delete_log (status_Id (rds_Status r)) cs"
    by (auto simp: event_log_def)
  with i obtain pre ok' post where cs: "cs = pre @ (RDS (CRdsDelete (status_Id (rds_Status r))), ok') # post"
      "backed_up (status_Id (rds_Status r)) pre" "seen deleted_instance (pre @ post) = []"
    by (auto simp: delete_log_def)
  with i have "status_Id (rds_Status r) = i" by auto
  with r cs that show thesis by blast
qed

lemma op_step_log:
  assumes "op_step Q s t"
  obtains cs where "calls (op_sys t) = calls (op_sys s) @ cs"
    and "\<And>i ok. (RDS (CRdsDelete i), ok) \<in> set cs \<Longrightarrow> deletion_by s t i"
  using assms
proof (cases rule: op_step.cases)
  case (take_event ev u)
  then show thesis using that [of "[]"] by (auto simp: queue_Get_def split: prod.splits)
next
  case (handle_event ev E b u)
  from process_item_log [OF handle_event(3)] handle_event(1)
  obtain cs where cs: "calls (op_sys t) = calls (op_sys s) @ cs" "event_log (c_heap (op_ctl s)) ev cs" by auto
  have "deletion_by s t i" if "(RDS (CRdsDelete i), ok) \<in> set cs" for i ok
    using event_log_deletes [OF cs(2) that] cs(1) handle_event(2) unfolding deletion_by_def by metis
  with cs(1) show thesis by (rule that)
qed (use that [of "[]"] in auto)

section \<open>The events of the queue and of the workers\<close>

text \<open>
  A well-formed event: one of the three kinds, an old object for an update only, and pointers to
  different objects.
\<close>

definition pointers :: "event \<Rightarrow> addr list" where
  "pointers ev = (case ev_oldObj ev of None \<Rightarrow> [] | Some p \<Rightarrow> [p]) @ [ev_newObj ev]"

definition points_to_object :: "'q Controller \<Rightarrow> addr \<Rightarrow> bool" where
  "points_to_object c p \<longleftrightarrow> p < c_next c \<and> c_heap c p \<noteq> None"

definition event_ok :: "'q Controller \<Rightarrow> event \<Rightarrow> bool" where
  "event_ok c ev \<longleftrightarrow> list_all (points_to_object c) (pointers ev) \<and> distinct (pointers ev) \<and>
     (if ev_eventType ev = updateRds_type then ev_oldObj ev \<noteq> None
      else ev_oldObj ev = None \<and> (ev_eventType ev = addRds_type \<or> ev_eventType ev = delRds_type))"

lemma points_to_kept: "memory_kept s t \<Longrightarrow> points_to_object (op_ctl s) p \<Longrightarrow> points_to_object (op_ctl t) p"
  unfolding memory_kept_def points_to_object_def
  by (metis (no_types, lifting) map_option_is_None order_less_le_trans)

lemma event_ok_kept: "memory_kept s t \<Longrightarrow> event_ok (op_ctl s) ev \<Longrightarrow> event_ok (op_ctl t) ev"
  by (auto simp: event_ok_def list_all_iff intro: points_to_kept)

lemma wanted_kind:
  assumes "wants_change w n = Some ch"
  obtains r where "ch = (addRds_type, None, r)" | r where "ch = (delRds_type, None, r)"
    | old r where "ch = (updateRds_type, Some old, r)"
  using assms
  by (cases n) (auto simp: wants_change_def wants_object_def wants_pair_def
      split: kube_object.splits if_splits)

lemma enqueued_ok:
  assumes "wants_change w n = Some ch"
  shows "event_ok (enqueue Q ch c) (event_at (c_next c) ch)"
    and "list_all ((\<le>) (c_next c)) (pointers (event_at (c_next c) ch))"
proof -
  note defs = event_ok_def pointers_def points_to_object_def enqueue_def stored_def addRds_type_def
    delRds_type_def updateRds_type_def
  show "event_ok (enqueue Q ch c) (event_at (c_next c) ch)"
    using assms by (cases rule: wanted_kind) (simp_all add: defs)
  show "list_all ((\<le>) (c_next c)) (pointers (event_at (c_next c) ch))"
    using assms by (cases rule: wanted_kind) (simp_all add: defs)
qed

text \<open>The events that the queue holds or a worker has; a step adds one at most, with fresh objects.\<close>

definition held :: "('q \<Rightarrow> event set) \<Rightarrow> ('q, 'w) op \<Rightarrow> event set" where
  "held items s = items (c_queue (op_ctl s)) \<union> set (op_busy s)"

lemma op_step_held:
  assumes "holds_items Q items" and "op_step Q s t"
  obtains (same) "held items t \<subseteq> held items s"
  | (fresh) new where "held items t \<subseteq> insert new (held items s)" and "event_ok (op_ctl t) new"
      and "list_all ((\<le>) (c_next (op_ctl s))) (pointers new)"
  using assms(2)
proof (cases rule: op_step.cases)
  case (informer n)
  show thesis
  proof (cases "wants_change (c_watchnamespaces (op_ctl s)) n")
    case None
    with informer show thesis by (intro same) (simp add: held_def notifications.handle_eq)
  next
    case (Some ch)
    with informer have t: "op_ctl t = enqueue Q ch (op_ctl s)" "op_busy t = op_busy s"
      by (simp_all add: notifications.handle_eq)
    then have "held items t \<subseteq> insert (event_at (c_next (op_ctl s)) ch) (held items s)"
      using holds_itemsD(1) [OF assms(1), of "event_at (c_next (op_ctl s)) ch" "c_queue (op_ctl s)"]
      by (auto simp: held_def enqueue_def)
    with t enqueued_ok [OF Some] show thesis by (intro fresh) auto
  qed
next
  case (take_event ev u)
  obtain got q where g: "q_Get Q (c_queue (op_ctl s)) = (got, q)" by fastforce
  with take_event have "got = Some ev" "op_ctl t = (op_ctl s)\<lparr>c_queue := q\<rparr>" "op_busy t = op_busy s @ [ev]"
    by (auto simp: queue_Get_run)
  with g holds_itemsD(5,6) [OF assms(1)] show thesis by (intro same) (fastforce simp: held_def)
next
  case (handle_event ev E b u)
  let ?q = "c_queue (op_ctl s)"
  from process_item_queue [OF handle_event(3)]
  have "c_queue (op_ctl u) = q_Done Q ev (q_Forget Q ev ?q) \<or> c_queue (op_ctl u) = q_Done Q ev (q_AddRateLimited Q ev ?q)"
    by auto
  then have "items (c_queue (op_ctl u)) \<subseteq> insert ev (items ?q)"
    using holds_itemsD(3) [OF assms(1), of ev "q_Forget Q ev ?q"] holds_itemsD(4) [OF assms(1), of ev ?q]
      holds_itemsD(3) [OF assms(1), of ev "q_AddRateLimited Q ev ?q"] holds_itemsD(2) [OF assms(1), of ev ?q]
    by (elim disjE) auto
  with handle_event(1,2) set_remove1_subset [of ev "op_busy s"]
  show thesis by (intro same) (auto simp: held_def)
next
  case (queue q)
  with holds_itemsD(7) [OF assms(1) queue(2)] show thesis by (intro same) (auto simp: held_def)
next
  case (environment w)
  then show thesis by (intro same) (simp add: held_def)
qed

text \<open>The invariant: the events are well-formed, and different ones have different objects.\<close>

definition events_inv :: "('q \<Rightarrow> event set) \<Rightarrow> ('q, 'w) op \<Rightarrow> bool" where
  "events_inv items s \<longleftrightarrow> (\<forall>e \<in> held items s. event_ok (op_ctl s) e) \<and>
     (\<forall>e \<in> held items s. \<forall>f \<in> held items s. e \<noteq> f \<longrightarrow> set (pointers e) \<inter> set (pointers f) = {})"

lemma event_ok_below: "event_ok c e \<Longrightarrow> p \<in> set (pointers e) \<Longrightarrow> p < c_next c"
  by (simp add: event_ok_def list_all_iff points_to_object_def)

lemma op_step_events_inv:
  assumes "holds_items Q items" and "op_step Q s t" and inv: "events_inv items s"
  shows "events_inv items t"
proof -
  have ok: "event_ok (op_ctl t) e" if "e \<in> held items s" for e
    using that inv event_ok_kept [OF op_step_memory [OF assms(2)]] by (auto simp: events_inv_def)
  from assms(1,2) show ?thesis
  proof (cases rule: op_step_held)
    case same
    then show ?thesis using inv ok unfolding events_inv_def by blast
  next
    case (fresh new)
    have "set (pointers new) \<inter> set (pointers e) = {}" if "e \<in> held items s" for e
      using fresh(3) event_ok_below [of "op_ctl s" e] that inv
      by (fastforce simp: list_all_iff events_inv_def)
    then show ?thesis
      using fresh(1,2) inv ok unfolding events_inv_def by (blast dest: subsetD)
  qed
qed

lemma op_steps_events_inv:
  assumes "holds_items Q items" and "op_steps Q s t" and "events_inv items s"
  shows "events_inv items t"
  using assms(2,3) by (induction rule: rtranclp_induct) (blast intro: op_step_events_inv [OF assms(1)])+

text \<open>A worker has what the queue has handed out, and every item once.\<close>

definition busy_inv :: "('q \<Rightarrow> event set) \<Rightarrow> ('q, 'w) op \<Rightarrow> bool" where
  "busy_inv out s \<longleftrightarrow> distinct (op_busy s) \<and> out (c_queue (op_ctl s)) = set (op_busy s)"

lemma op_step_busy_inv:
  assumes "hands_out_once Q out" and "op_step Q s t" and inv: "busy_inv out s"
  shows "busy_inv out t"
  using assms(2)
proof (cases rule: op_step.cases)
  case (informer n)
  then show ?thesis
    using inv by (auto simp: busy_inv_def notifications.handle_eq enqueue_def hands_out_onceD(1) [OF assms(1)]
      split: option.split)
next
  case (take_event ev u)
  obtain got q where g: "q_Get Q (c_queue (op_ctl s)) = (got, q)" by fastforce
  with take_event have "got = Some ev" "op_ctl t = (op_ctl s)\<lparr>c_queue := q\<rparr>" "op_busy t = op_busy s @ [ev]"
    by (auto simp: queue_Get_run)
  moreover from this g have "ev \<notin> out (c_queue (op_ctl s)) \<and> out q = insert ev (out (c_queue (op_ctl s)))"
    by (intro hands_out_onceD(6) [OF assms(1)]) simp
  ultimately show ?thesis using inv by (simp add: busy_inv_def)
next
  case (handle_event ev E b u)
  let ?q = "c_queue (op_ctl s)"
  from process_item_queue [OF handle_event(3)]
  have "c_queue (op_ctl u) = q_Done Q ev (q_Forget Q ev ?q) \<or> c_queue (op_ctl u) = q_Done Q ev (q_AddRateLimited Q ev ?q)"
    by blast
  then have "out (c_queue (op_ctl u)) = out ?q - {ev}"
    by (elim disjE) (simp_all add: hands_out_onceD(2-4) [OF assms(1)])
  with handle_event(1) inv show ?thesis by (simp add: busy_inv_def set_remove1_eq)
next
  case (queue q)
  with inv hands_out_onceD(7) [OF assms(1) queue(2)] show ?thesis by (simp add: busy_inv_def)
qed (use inv in \<open>simp add: busy_inv_def\<close>)

lemma op_steps_busy_inv:
  assumes "hands_out_once Q out" and "op_steps Q s t" and "busy_inv out s"
  shows "busy_inv out t"
  using assms(2,3) by (induction rule: rtranclp_induct) (blast intro: op_step_busy_inv [OF assms(1)])+

lemma distinct_concat_disjoint:
  "distinct es \<Longrightarrow> (\<And>e. e \<in> set es \<Longrightarrow> distinct (f e)) \<Longrightarrow>
     (\<And>e e'. e \<in> set es \<Longrightarrow> e' \<in> set es \<Longrightarrow> e \<noteq> e' \<Longrightarrow> set (f e) \<inter> set (f e') = {}) \<Longrightarrow>
     distinct (concat (map f es))"
proof (induction es)
  case (Cons e es)
  then have "distinct (concat (map f es))" by simp
  moreover have "set (f e) \<inter> set (f e') = {}" if "e' \<in> set es" for e'
    using Cons.prems(1) Cons.prems(3) [of e e'] that by auto
  ultimately show ?case using Cons.prems(2) [of e] by auto
qed simp

text \<open>What is run for an event, by its kind.\<close>

definition handler_of :: "'w Ext \<Rightarrow> event \<Rightarrow> ('w sys, unit) go" where
  "handler_of E ev = (if ev_eventType ev = addRds_type then Create E
     else if ev_eventType ev = delRds_type then Delete E else processUpdateRds E)"

lemma on_objects_outcome:
  assumes "c_heap (op_ctl s) new = Some nb"
    and "(case old of None \<Rightarrow> Some (oldRds (op_sys s)) | Some p \<Rightarrow> c_heap (op_ctl s) p) = Some ob"
  shows "fst (on_objects old new m s) = fst (m ((op_sys s)\<lparr>oldRds := ob, newRds := nb\<rparr>))"
  using assms by (simp add: on_objects_def Let_def split: prod.split)

section \<open>Properties\<close>

text \<open>C4: in every run of the operator, however many steps and workers it has, a requested deletion of
  an instance comes from one step: a worker handles the event of a deleted resource whose object
  carries that instance's identifier; and in that step it is the only deletion and follows a
  completed backup of the same instance.  No addition, update, retry or notification deletes
  anything.\<close>

theorem operator_deletions:
  assumes "op_steps Q s t" and "(RDS (CRdsDelete i), ok) \<in> set (made (op_sys s) (op_sys t))"
  shows "\<exists>u v. op_steps Q s u \<and> op_step Q u v \<and> op_steps Q v t \<and> deletion_by u v i"
proof -
  from assms(1) have "\<exists>cs. calls (op_sys t) = calls (op_sys s) @ cs \<and>
      ((RDS (CRdsDelete i), ok) \<in> set cs \<longrightarrow>
        (\<exists>u v. op_steps Q s u \<and> op_step Q u v \<and> op_steps Q v t \<and> deletion_by u v i))"
  proof (induction rule: rtranclp_induct)
    case (step u v)
    then obtain l1 where l1: "calls (op_sys u) = calls (op_sys s) @ l1"
        "(RDS (CRdsDelete i), ok) \<in> set l1 \<Longrightarrow>
          \<exists>x y. op_steps Q s x \<and> op_step Q x y \<and> op_steps Q y u \<and> deletion_by x y i"
      by blast
    obtain l2 where l2: "calls (op_sys v) = calls (op_sys u) @ l2"
        "\<And>i ok. (RDS (CRdsDelete i), ok) \<in> set l2 \<Longrightarrow> deletion_by u v i"
      by (rule op_step_log [OF step.hyps(2)]) (rule that)
    have "\<exists>x y. op_steps Q s x \<and> op_step Q x y \<and> op_steps Q y v \<and> deletion_by x y i"
      if "(RDS (CRdsDelete i), ok) \<in> set (l1 @ l2)"
    proof (cases "(RDS (CRdsDelete i), ok) \<in> set l1")
      case True
      with l1(2) step.hyps(2) show ?thesis by (meson rtranclp.rtrancl_into_rtrancl)
    next
      case False
      with that l2(2) have "deletion_by u v i" by simp
      with step.hyps show ?thesis by blast
    qed
    with l1(1) l2(1) show ?case by (intro exI [of _ "l1 @ l2"]) simp
  qed simp
  with assms(2) show ?thesis by (auto simp: seen_same_calls)
qed

text \<open>C20: when the controller's run is over, for whatever reason, a worker that goes on with the
  controller's queue ends.  If it returns, it has handled every event that waited in the queue at
  the end of the run, in their order and before any other, and none waits any more; otherwise it
  has ended in the handler of the last event that it took out, which panics, ends the process or
  waits forever.  The queue keeps what client-go documents: one that was shut down takes
  nothing in, hands out what is left, and then says so instead of blocking.\<close>

theorem shutdown_drains_queue:
  fixes s :: "('q, 'w) proc"
  assumes "drains Q down left" and "drains_in_order Q down waiting" and "down (q_ShutDown Q (c_queue (p_ctl s)))"
  shows "case Run Q E P n s of (r, t) \<Rightarrow>
     (let w = \<lparr>op_ctl = p_ctl t, op_sys = p_sys t, op_busy = es\<rparr> in
      \<exists>evs q u. runWorker Q E w = Some (q, u) \<and> worker_run Q E w evs q u \<and>
        (case q of
           Ok _ \<Rightarrow> prefix (waiting (c_queue (p_ctl t))) evs \<and> waiting (c_queue (op_ctl u)) = []
         | Crash c \<Rightarrow> evs \<noteq> [] \<and> (\<exists>v :: ('q, 'w) op. fst (processEvent E (last evs) v) = Crash c)
         | Fail e \<Rightarrow> False))"
proof -
  obtain r t where run: "Run Q E P n s = (r, t)" by fastforce
  let ?w = "\<lparr>op_ctl = p_ctl t, op_sys = p_sys t, op_busy = es\<rparr>"
  have "c_queue (p_ctl t) = q_ShutDown Q (c_queue (p_ctl s))"
    using run_lifecycle [where Q = Q and E = E and P = P and n = n and s = s] run by (simp add: Let_def)
  then have down: "down (c_queue (op_ctl ?w))" using assms(3) by simp
  obtain evs q u where w: "runWorker Q E ?w = Some (q, u)" "worker_run Q E ?w evs q u"
    using worker_ends [OF assms(1) down] by blast
  from worker_run_drains [OF w(2) assms(2) down] w have "runWorker Q E ?w = Some (q, u) \<and>
      worker_run Q E ?w evs q u \<and> (case q of
         Ok _ \<Rightarrow> prefix (waiting (c_queue (p_ctl t))) evs \<and> waiting (c_queue (op_ctl u)) = []
       | Crash c \<Rightarrow> evs \<noteq> [] \<and> (\<exists>v :: ('q, 'w) op. fst (processEvent E (last evs) v) = Crash c)
       | Fail e \<Rightarrow> False)"
    by (cases q) auto
  with run show ?thesis unfolding Let_def by auto
qed

text \<open>C10: starting from an empty queue, every event that a worker has in a reachable state is
  well-formed: it has one of the three kinds and points to objects in the memory, and an update,
  and only that, to an old one too.  So its handling neither follows a dangling pointer nor panics at
  the type assertion: its outcome is the one of the handler of its kind on the event's own
  objects.\<close>

theorem events_well_formed:
  assumes "holds_items Q items" and "items (c_queue (op_ctl s)) = {}" and "op_busy s = []"
    and "op_steps Q s t" and "ev \<in> set (op_busy t)"
  shows "event_ok (op_ctl t) ev \<and>
    (\<exists>ob nb. c_heap (op_ctl t) (ev_newObj ev) = Some nb \<and>
       (if ev_eventType ev = updateRds_type then \<exists>p. ev_oldObj ev = Some p \<and> c_heap (op_ctl t) p = Some ob
        else ob = oldRds (op_sys t)) \<and>
       fst (processEvent E ev t) = fst (handler_of E ev ((op_sys t)\<lparr>oldRds := ob, newRds := nb\<rparr>)))"
proof -
  have "events_inv items s" using assms(2,3) by (simp add: events_inv_def held_def)
  from op_steps_events_inv [OF assms(1,4) this] assms(5)
  have ok: "event_ok (op_ctl t) ev" by (simp add: events_inv_def held_def)
  then obtain nb where nb: "c_heap (op_ctl t) (ev_newObj ev) = Some nb"
    by (auto simp: event_ok_def pointers_def points_to_object_def)
  note kinds = addRds_type_def delRds_type_def updateRds_type_def
  show ?thesis
  proof (cases "ev_eventType ev = updateRds_type")
    case True
    with ok obtain p ob where p: "ev_oldObj ev = Some p" "c_heap (op_ctl t) p = Some ob"
      by (auto simp: event_ok_def pointers_def points_to_object_def)
    with True nb have "fst (processEvent E ev t) = fst (handler_of E ev ((op_sys t)\<lparr>oldRds := ob, newRds := nb\<rparr>))"
      by (simp add: processEvent_def handler_of_def kinds on_objects_outcome)
    with ok nb p True show ?thesis by auto
  next
    case False
    with ok nb have "fst (processEvent E ev t) =
        fst (handler_of E ev ((op_sys t)\<lparr>oldRds := oldRds (op_sys t), newRds := nb\<rparr>))"
      by (auto simp: processEvent_def processAddRds_def processDelRds_def handler_of_def event_ok_def kinds
          on_objects_outcome)
    with ok nb False show ?thesis by auto
  qed
qed

text \<open>C8: no two workers share an object: at every moment the objects of all the events that the workers
  are handling, old and new ones, are different from each other, and no event is handled by two
  workers.  So the writes of the handlers to their objects never race.  (Copies share the list behind the
  pointer \<open>Users\<close>, which no handler writes.)\<close>

theorem workers_own_objects:
  assumes "holds_items Q items" and "hands_out_once Q out"
    and "items (c_queue (op_ctl s)) = {}" and "out (c_queue (op_ctl s)) = {}" and "op_busy s = []"
    and "op_steps Q s t"
  shows "distinct (concat (map pointers (op_busy t)))"
proof -
  have "events_inv items s" "busy_inv out s"
    using assms(3-5) by (simp_all add: events_inv_def held_def busy_inv_def)
  then have inv: "events_inv items t" "busy_inv out t"
    using op_steps_events_inv [OF assms(1,6)] op_steps_busy_inv [OF assms(2,6)] by simp_all
  show ?thesis
  proof (rule distinct_concat_disjoint)
    show "distinct (op_busy t)" using inv(2) by (simp add: busy_inv_def)
    show "distinct (pointers e)" if "e \<in> set (op_busy t)" for e
      using inv(1) that by (simp add: events_inv_def held_def event_ok_def)
    show "set (pointers e) \<inter> set (pointers f) = {}"
      if "e \<in> set (op_busy t)" "f \<in> set (op_busy t)" "e \<noteq> f" for e f
      using inv(1) that by (simp add: events_inv_def held_def)
  qed
qed

text \<open>C15: the queue does not serialise the events of a resource: an update of a resource and its deletion,
  notified one after the other, can be handled by two workers at the same time.  Events are keyed by
  their pointers, which are fresh for every notification.\<close>

theorem resource_not_serialised:
  assumes "watched (c_watchnamespaces (op_ctl s)) r" and "hands_out_both Q (c_queue (op_ctl s))" and "op_busy s = []"
  shows "\<exists>t. op_steps Q s t \<and> map (event_value (c_heap (op_ctl t))) (op_busy t) =
     [(updateRds_type, Some old, Some r), (delRds_type, None, Some r)]"
proof -
  let ?chs = "[(updateRds_type, Some old, r), (delRds_type, None, r)] :: change list"
  let ?c0 = "op_ctl s"
  let ?c1 = "enqueue Q (updateRds_type, Some old, r) ?c0"
  let ?c2 = "enqueue Q (delRds_type, None, r) ?c1"
  obtain e f where ef: "events_from (c_next ?c0) ?chs = [e, f]" "e \<noteq> f"
    using events_from_distinct [of "c_next ?c0" ?chs] by simp
  have c1: "dispatch Q (OnUpdate (RdsObject old) (RdsObject r)) ?c0 = ?c1"
    by (rule notifications.enqueues) (simp add: wants_change_def wants_pair_def assms(1))
  have c2: "dispatch Q (OnDelete (RdsObject r)) ?c1 = ?c2"
    by (rule notifications.enqueues) (simp add: wants_change_def wants_object_def enqueue_def assms(1))
  have q: "c_queue ?c2 = q_Add Q f (q_Add Q e (c_queue ?c0))"
    using enqueue_all_queue [of Q ?chs ?c0] ef(1) by simp
  obtain q1 q2 where get: "q_Get Q (c_queue ?c2) = (Some e, q1)" "q_Get Q q1 = (Some f, q2)"
    using assms(2) [unfolded hands_out_both_def, rule_format, OF ef(2)] q by (metis prod.collapse)
  let ?s = "\<lambda>c es. s\<lparr>op_ctl := c, op_busy := es\<rparr>"
  have idle: "?s c [] = s\<lparr>op_ctl := c\<rparr>" for c using assms(3) by (cases s) simp
  have "op_step Q s (?s ?c1 [])"
    unfolding idle using op_step.informer [of Q s "OnUpdate (RdsObject old) (RdsObject r)"] c1 by simp
  moreover have "op_step Q (?s ?c1 []) (?s ?c2 [])"
    unfolding idle using op_step.informer [of Q "s\<lparr>op_ctl := ?c1\<rparr>" "OnDelete (RdsObject r)"] c2 by simp
  moreover have "op_step Q (?s ?c2 []) (?s (?c2\<lparr>c_queue := q1\<rparr>) [e])"
    using op_step.take_event [of Q "?s ?c2 []" e] get(1) by (simp add: queue_Get_def)
  moreover have "op_step Q (?s (?c2\<lparr>c_queue := q1\<rparr>) [e]) (?s (?c2\<lparr>c_queue := q2\<rparr>) [e, f])"
    using op_step.take_event [of Q "?s (?c2\<lparr>c_queue := q1\<rparr>) [e]" f] get(2) by (simp add: queue_Get_def)
  ultimately have "op_steps Q s (?s (?c2\<lparr>c_queue := q2\<rparr>) [e, f])"
    by (meson rtranclp.rtrancl_into_rtrancl rtranclp.rtrancl_refl)
  moreover have "map (event_value (c_heap ?c2)) [e, f] = map change_value ?chs"
    using enqueue_all_values [of Q ?chs ?c0] ef(1) by simp
  ultimately show ?thesis
    by (intro exI [of _ "?s (?c2\<lparr>c_queue := q2\<rparr>) [e, f]"]) (simp add: change_value_def)
qed

section \<open>Concrete runs\<close>

text \<open>A resource with an instance that is deleted: the handler requests the deletion.\<close>

definition demo_deleted :: "(item_queue, nat) op" where
  "demo_deleted = demo_op\<lparr>op_ctl := dispatch demo_queue (OnDelete (RdsObject (demo_rds ''id1''))) (op_ctl demo_op)\<rparr>"

lemma demo_deleted_eq:
  "op_ctl demo_deleted = (op_ctl demo_op)\<lparr>c_queue := iq_add demo_event empty_queue,
     c_heap := (c_heap (op_ctl demo_op))(0 \<mapsto> demo_rds ''id1''), c_next := 1\<rparr>"
  "op_sys demo_deleted = demo_sys 1 (demo_rds ''id1'')" "op_busy demo_deleted = []"
  by (simp_all add: demo_deleted_def demo_op_def new_controller_def dispatch_def delRds_def as_Rds_def
      demo_watched store_rds_def queue_Add_def demo_queue_def demo_event_def)

lemma demo_deletion:
  "\<exists>t ok. processNextItem demo_queue demo_ext demo_deleted = (Ok True, t) \<and>
     (RDS (CRdsDelete ''id1''), ok) \<in> set (made (op_sys demo_deleted) (op_sys t))"
proof -
  let ?s = "demo_sys 1 (demo_rds ''id1'')"
  obtain t ok where t: "Delete demo_ext ?s = (Ok (), t)" "(RDS (CRdsDelete ''id1''), ok) \<in> set (made ?s t)"
    using demo_delete_run by (metis in_set_conv_decomp)
  moreover have "?s\<lparr>oldRds := oldRds ?s, newRds := demo_rds ''id1''\<rparr> = ?s" by (simp add: demo_sys_def)
  ultimately have "\<exists>v. processNextItem demo_queue demo_ext demo_deleted = (Ok True, v) \<and> op_sys v = t"
    by (simp add: processNextItem_def process_item_def queue_Get_def demo_deleted_eq demo_queue_defs empty_queue_def
        demo_op_def new_controller_def go_eval settle_eval processEvent_def demo_event_def addRds_type_def
        delRds_type_def on_objects_def processDelRds_def write_back_def maxRetries_def)
  with t(2) show ?thesis by (auto simp: demo_deleted_eq)
qed

lemma demo_deleted_step: "op_step demo_queue demo_op demo_deleted"
  unfolding demo_deleted_def by (rule op_step.informer)

lemma demo_empty: "c_queue (op_ctl demo_op) = empty_queue" "op_busy demo_op = []"
  by (simp_all add: demo_op_def new_controller_def)

text \<open>The state in which a worker has taken that event.\<close>

lemma demo_taken:
  obtains t where "op_steps demo_queue demo_op t" and "op_busy t = [demo_event]" and "op_sys t = op_sys demo_deleted"
proof -
  obtain q where "q_Get demo_queue (c_queue (op_ctl demo_deleted)) = (Some demo_event, q)"
    by (simp add: demo_deleted_eq demo_queue_defs empty_queue_def)
  then have "queue_Get demo_queue demo_deleted = (Ok (Some demo_event), demo_deleted\<lparr>op_ctl := (op_ctl demo_deleted)\<lparr>c_queue := q\<rparr>\<rparr>)"
    by (rule queue_Get_run)
  from op_step.take_event [OF this] have "op_steps demo_queue demo_deleted
      (demo_deleted\<lparr>op_ctl := (op_ctl demo_deleted)\<lparr>c_queue := q\<rparr>, op_busy := [demo_event]\<rparr>)"
    by (simp add: demo_deleted_eq r_into_rtranclp)
  from converse_rtranclp_into_rtranclp [OF demo_deleted_step this] show thesis
    by (rule that) simp_all
qed

theorem operator_deletions_witness:
  "\<exists>t u v. op_steps demo_queue demo_op t \<and> op_steps demo_queue demo_op u \<and>
     op_step demo_queue u v \<and> op_steps demo_queue v t \<and> deletion_by u v ''id1''"
proof -
  obtain t ok where t: "processNextItem demo_queue demo_ext demo_deleted = (Ok True, t)"
      "(RDS (CRdsDelete ''id1''), ok) \<in> set (made (op_sys demo_deleted) (op_sys t))"
    using demo_deletion by blast
  have "set_busy [] demo_deleted = demo_deleted"
    by (simp add: set_busy_def demo_deleted_def demo_op_def)
  then have "op_steps demo_queue demo_deleted (set_busy [] t)"
    using processNextItem_steps [OF t(1)] by simp
  from converse_rtranclp_into_rtranclp [OF demo_deleted_step this]
  have steps: "op_steps demo_queue demo_op (set_busy [] t)" .
  have "op_sys demo_op = op_sys demo_deleted" by (simp add: demo_deleted_def)
  with t(2) have "(RDS (CRdsDelete ''id1''), ok) \<in> set (made (op_sys demo_op) (op_sys (set_busy [] t)))" by simp
  from operator_deletions [OF steps this] steps show ?thesis by blast
qed

theorem events_well_formed_witness:
  "\<exists>t nb. op_steps demo_queue demo_op t \<and> op_busy t = [demo_event] \<and>
     event_ok (op_ctl t) demo_event \<and> c_heap (op_ctl t) 0 = Some nb \<and>
     fst (processEvent demo_ext demo_event t) = fst (Delete demo_ext ((op_sys t)\<lparr>oldRds := oldRds (op_sys t), newRds := nb\<rparr>))"
proof -
  obtain t where t: "op_steps demo_queue demo_op t" "op_busy t = [demo_event]" by (rule demo_taken)
  have empty: "set (iq_items (c_queue (op_ctl demo_op))) \<union> set (iq_dirty (c_queue (op_ctl demo_op))) = {}"
    by (simp add: demo_empty empty_queue_def)
  from events_well_formed [OF demo_queue_items empty demo_empty(2) t(1), of demo_event demo_ext] t(2)
  have "event_ok (op_ctl t) demo_event \<and> (\<exists>nb. c_heap (op_ctl t) 0 = Some nb \<and>
      fst (processEvent demo_ext demo_event t) =
      fst (Delete demo_ext ((op_sys t)\<lparr>oldRds := oldRds (op_sys t), newRds := nb\<rparr>)))"
    by (auto simp: handler_of_def demo_event_def addRds_type_def delRds_type_def updateRds_type_def)
  with t show ?thesis by blast
qed

theorem resource_not_serialised_witness:
  "\<exists>t. op_steps demo_queue demo_op t \<and> map (event_value (c_heap (op_ctl t))) (op_busy t) =
     [(updateRds_type, Some (demo_rds ''id1''), Some (demo_rds ''id1'')), (delRds_type, None, Some (demo_rds ''id1''))]"
proof -
  have "watched (c_watchnamespaces (op_ctl demo_op)) (demo_rds ''id1'')"
    using demo_watched by (simp add: demo_op_def new_controller_def)
  moreover have "hands_out_both demo_queue (c_queue (op_ctl demo_op))"
    by (simp add: demo_empty demo_queue_both)
  ultimately show ?thesis by (rule resource_not_serialised [OF _ _ demo_empty(2)])
qed

theorem workers_own_objects_witness:
  "\<exists>t. op_steps demo_queue demo_op t \<and> op_busy t \<noteq> [] \<and> distinct (concat (map pointers (op_busy t)))"
proof -
  obtain t where t: "op_steps demo_queue demo_op t" "op_busy t = [demo_event]" by (rule demo_taken)
  have empty: "set (iq_items (c_queue (op_ctl demo_op))) \<union> set (iq_dirty (c_queue (op_ctl demo_op))) = {}"
      "set (iq_processing (c_queue (op_ctl demo_op))) = {}"
    by (simp_all add: demo_empty empty_queue_def)
  from workers_own_objects [OF demo_queue_items demo_queue_once empty demo_empty(2) t(1)] t
  show ?thesis by auto
qed

definition demo_api :: "nat ProcApi" where
  "demo_api = \<lparr>pa_WaitForCacheSync = (\<lambda>w. (True, w)), pa_RunOrDie = (\<lambda>c w. ([], w)),
     pa_BuildConfigFromFlags = (\<lambda>m k w. (Inl (new_error k), w))\<rparr>"

theorem shutdown_drains_queue_witness:
  "\<exists>t evs q u. Run demo_queue demo_ext demo_api 2
       \<lparr>p_sys = op_sys demo_deleted, p_ctl = op_ctl demo_deleted, p_log = []\<rparr> = (Ok (), t) \<and>
     iq_items (c_queue (p_ctl t)) = [demo_event] \<and>
     runWorker demo_queue demo_ext \<lparr>op_ctl = p_ctl t, op_sys = p_sys t, op_busy = []\<rparr> = Some (q, u) \<and>
     worker_run demo_queue demo_ext \<lparr>op_ctl = p_ctl t, op_sys = p_sys t, op_busy = []\<rparr> evs q u"
proof -
  let ?s = "\<lparr>p_sys = op_sys demo_deleted, p_ctl = op_ctl demo_deleted, p_log = []\<rparr>"
  obtain r t where run: "Run demo_queue demo_ext demo_api 2 ?s = (r, t)" by fastforce
  have start: "c_queue (p_ctl ?s) = iq_add demo_event empty_queue" by (simp add: demo_deleted_eq)
  have "r = Ok ()" "c_queue (p_ctl t) = q_ShutDown demo_queue (iq_add demo_event empty_queue)"
    using run_lifecycle [where Q = demo_queue and E = demo_ext and P = demo_api and n = 2 and s = ?s] run start
    by (simp_all add: Let_def demo_api_def)
  moreover have "iq_items (q_ShutDown demo_queue (iq_add demo_event empty_queue)) = [demo_event]"
    by (simp add: demo_queue_defs empty_queue_def)
  moreover have "iq_draining (q_ShutDown demo_queue (c_queue (p_ctl ?s)))"
    unfolding start by (simp add: iq_draining_def demo_queue_defs empty_queue_def)
  from shutdown_drains_queue [OF demo_queue_drains_order demo_queue_in_order this,
      where E = demo_ext and P = demo_api and n = 2 and es = "[]"] run
  obtain evs q u where "runWorker demo_queue demo_ext \<lparr>op_ctl = p_ctl t, op_sys = p_sys t, op_busy = []\<rparr> = Some (q, u)"
      "worker_run demo_queue demo_ext \<lparr>op_ctl = p_ctl t, op_sys = p_sys t, op_busy = []\<rparr> evs q u"
    by (auto simp: Let_def)
  ultimately show ?thesis using run by auto
qed

end
