(* ===== verification/Status_Contract.thy ===== *)
theory Status_Contract
  imports Demo_Cloud
begin

text \<open>
  What the status write of \<open>Status_Update\<close> promises the handlers, written out over the model: the
  part of a resource it can change, the calls it can make, which errors its caller sees, and
  what becomes of the service and its endpoint.
\<close>

text \<open>C31: a status write, however it ends, changes of the resource at most the address and the state
  of the status, leaves the old object alone, and asks the cloud for nothing but listings.\<close>

theorem status_write_is_confined:
  "case UpdateStatus E s of (r, t) \<Rightarrow>
     resource_core (newRds t) = resource_core (newRds s) \<and> oldRds t = oldRds s \<and>
     projectID t = projectID s \<and> list_all (\<lambda>(c, _). status_call c) (made s t)"
proof -
  obtain r t where run: "UpdateStatus E s = (r, t)" by fastforce
  have "projectID t = projectID s"
    using run_respectsD [OF status_write.write_project run] by (simp add: same_field_def)
  with run show ?thesis
    using status_write.write_core_eq [OF run] status_write.write_keeps_old [OF run]
      emits_made [OF run_respectsD [OF status_write.write_uses run]] by simp
qed

text \<open>\<open>UpdateStatus\<close> returns an error exactly when its client cannot be built: that the
  resource could not be written back, or its service not created, is never reported.\<close>

theorem status_write_drops_errors:
  "(fst (UpdateStatus E s) = Fail e) = (fst (rds_client E s) = Fail e)"
proof -
  obtain q u where q: "rds_client E s = (q, u)" by fastforce
  show ?thesis
  proof (cases q)
    case (Ok client)
    with q show ?thesis
      using go_ignore_never_fails [of "rdsUpdateStatus E client" u e]
      by (simp add: UpdateStatus_rds_client go_bind_eval)
  qed (use q in \<open>simp_all add: UpdateStatus_rds_client go_bind_eval\<close>)
qed

section \<open>The service and its endpoint\<close>

fun endpoint_write :: "call \<Rightarrow> unit option" where
  "endpoint_write (K8S (CEndpointsCreate ns ep)) = Some ()"
| "endpoint_write (K8S (CEndpointsUpdate ns ep)) = Some ()"
| "endpoint_write (K8S (CServiceCreate ns sv)) = Some ()"
| "endpoint_write c = None"

definition service_exists :: "'w Ext \<Rightarrow> string \<Rightarrow> string \<Rightarrow> bool" where
  "service_exists E ns n \<longleftrightarrow> (\<forall>h w. isl (fst (k_ServiceGet (kube E) h ns n w)) = False)"

lemma ensure_service_existing:
  assumes "service_exists E (rds_Namespace (newRds s)) (rds_Name (newRds s))"
    and "ensure_service E cfg s = (r, t)"
  obtains new where "calls t = calls s @ new" and "seen endpoint_write new = []"
proof -
  let ?ns = "rds_Namespace (newRds s)" and ?n = "rds_Name (newRds s)"
  obtain q w where q: "k_NewForConfig (kube E) cfg (world s) = (q, w)" by fastforce
  show thesis
  proof (cases q)
    case (Inl e)
    with q assms(2) show ?thesis
      by (intro that [of "[(K8S CKubeClient, False)]"])
        (auto simp: ensure_service_def KubeClient_def Let_def go_eval)
  next
    case (Inr h)
    obtain p v where p: "k_ServiceGet (kube E) h ?ns ?n w = (p, v)" by fastforce
    with assms(1) obtain sv where "p = Inr sv"
      unfolding service_exists_def by (metis fst_conv isl_def sum.exhaust)
    with q Inr p assms(2) show ?thesis
      by (intro that [of "[(K8S CKubeClient, True), (K8S (CServiceGet ?ns ?n), True)]"])
        (auto simp: ensure_service_def KubeClient_def Let_def go_eval)
  qed
qed

definition before_service :: "'w Ext \<Rightarrow> handle \<Rightarrow> ('w sys, RestConfig) go" where
  "before_service E client =
     go_bind (go_get newRds) (\<lambda>r.
     if status_Id (rds_Status r) = ''''
     then go_fail (new_error ''rdsUpdateStatus failed, Rds.Status.Id is empty'')
     else
     go_bind (go_wrap ''error init in-cluster config: '' (InClusterConfig E)) (\<lambda>restConfig.
     go_bind (go_wrap ''error creating rdsclientset: '' (clientset_NewForConfig E restConfig)) (\<lambda>rdsclientset.
     go_bind (go_wrap ''error getting rdsGetByName: ''
               (rdsGetByName E client (rds_Name r) (rds_Namespace r))) (\<lambda>p.
     go_bind (go_deref p) (\<lambda>rdsInstance.
     go_then (modify_status (status_from_instance rdsInstance))
    (go_then (push_resource E rdsclientset) (go_return restConfig)))))))"

lemma rdsUpdateStatus_before_service:
  "rdsUpdateStatus E client = go_bind (before_service E client) (ensure_service E)"
  unfolding rdsUpdateStatus_def before_service_def
  by (simp add: fun_eq_iff go_bind_assoc go_then_def go_bind_eval [of "go_get newRds"] go_get_eval)

lemma push_resource_no_endpoint: "uses (\<lambda>c. endpoint_write c = None) (push_resource E cs)"
  unfolding push_resource_def client_defs by (intro run_intro uses_intro) simp_all

lemma modify_status_key:
  "run_respects (same_field (\<lambda>s. (rds_Namespace (newRds s), rds_Name (newRds s)))) (modify_status f)"
  by (simp add: run_respects_def same_field_def modify_status_def modify_new_def go_eval)

lemma before_service_safe:
  "uses (\<lambda>c. endpoint_write c = None) (before_service E client)"
  "run_respects (same_field (\<lambda>s. (rds_Namespace (newRds s), rds_Name (newRds s)))) (before_service E client)"
  unfolding before_service_def InClusterConfig_def
  by (intro run_intro uses_intro push_resource_no_endpoint push_resource_frame modify_status_key; simp)+

text \<open>Once the service of a resource exists, no status write creates or updates its endpoint
  or the service any more: an address that the instance gets later never reaches the endpoint.\<close>

theorem endpoint_never_updated:
  assumes "service_exists E (rds_Namespace (newRds s)) (rds_Name (newRds s))"
    and "rdsUpdateStatus E client s = (r, t)"
  shows "seen endpoint_write (made s t) = []"
  using assms(2) unfolding rdsUpdateStatus_before_service
proof (cases rule: go_bind_cases)
  case (stop q)
  from made_seen [OF before_service_safe(1) stop(1)] show ?thesis .
next
  case (cont cfg u)
  obtain pre where pre: "calls u = calls s @ pre" "seen endpoint_write pre = []"
    using silent_run [OF before_service_safe(1) cont(1)] .
  have "rds_Namespace (newRds u) = rds_Namespace (newRds s)" "rds_Name (newRds u) = rds_Name (newRds s)"
    using run_respectsD [OF before_service_safe(2) cont(1)] by (simp_all add: same_field_def)
  with assms(1) have "service_exists E (rds_Namespace (newRds u)) (rds_Name (newRds u))" by simp
  from ensure_service_existing [OF this cont(2)] obtain new
    where "calls t = calls u @ new" "seen endpoint_write new = []" by blast
  with pre have "calls t = calls s @ pre @ new" "seen endpoint_write (pre @ new) = []" by simp_all
  then show ?thesis by (simp only: seen_same_calls)
qed

theorem endpoint_never_updated_witness:
  "\<exists>t. rdsUpdateStatus demo_ext 2 (demo_sys 1 (demo_rds ''id1'')) = (Ok (), t) \<and>
     status_Ip (rds_Status (newRds t)) = ''10.0.0.2'' \<and>
     seen endpoint_write (made (demo_sys 1 (demo_rds ''id1'')) t) = []"
proof -
  let ?s = "demo_sys 1 (demo_rds ''id1'')"
  have run: "rdsUpdateStatus demo_ext 2 ?s = (Ok (), demo_written ?s)"
    by (rule demo_rdsUpdateStatus) (simp_all add: demo)
  have "service_exists demo_ext (rds_Namespace (newRds ?s)) (rds_Name (newRds ?s))"
    by (simp add: service_exists_def demo)
  from endpoint_never_updated [OF this run] run show ?thesis
    by (simp add: demo_written_def demo_pushed_def)
qed

section \<open>The port\<close>

text \<open>A port of the specification that is the decimal form of a number reaches the endpoint and
  both sides of the service unchanged; the conversion to 32 bits loses nothing.\<close>

theorem port_round_trip:
  assumes "spec_Port (rds_Spec r) = Itoa p" and "0 \<le> p" and "p < 2 ^ 31"
  shows "(\<exists>w. ep_Subsets (endpoint_for r) = [([status_Ip (rds_Status r)], [w])] \<and> sint w = p) \<and>
    (\<exists>w. sv_Ports (service_for r) = [(w, ''TCP'', w)] \<and> sint w = p)"
proof -
  have "fst (Atoi (spec_Port (rds_Spec r))) = p" using Atoi_Itoa [of p] assms by simp
  moreover have "sint (int32 p) = p" using sint_int32 [of p] assms by simp
  ultimately show ?thesis by (simp add: endpoint_for_def service_for_def Let_def)
qed

lemma Itoa_3306: "Itoa 3306 = ''3306''"
  by (simp add: Itoa_def nat_digits.simps digit_char_def char_of_def bit_drop_bit_eq bit_numeral_rec bit_Suc_0_iff)

theorem port_round_trip_witness:
  "\<exists>w. ep_Subsets (endpoint_for (demo_rds ''id1'')) = [([''''], [w])] \<and> sint w = 3306"
  using port_round_trip [of "demo_rds ''id1''" 3306]
  by (simp add: demo Itoa_3306 demo_spec_def)

end
