(* ===== verification/Fake_Clientset.thy ===== *)
theory Fake_Clientset
  imports Clientset
begin

text \<open>
  The generated fake of the typed client: \<open>clientset/versioned/fake/clientset_generated.go\<close> and
  \<open>typed/rds/v1alpha1/fake/fake_rds.go\<close>.  A method of the fake is the action it invokes; what
  answers an action, the reaction chain and the object tracker, is client-go's \<open>testing\<close>, a
  parameter.  The state is the tracker's beside the list of the actions, which \<open>testing.Fake\<close>
  records.  The property relates the fake's methods to the ones of the client it stands for.
\<close>

section \<open>What client-go provides\<close>

text \<open>One constructor per function of \<open>testing\<close> that makes an action.\<close>

datatype Action =
    GetAction GroupVersionResource string string
  | ListAction GroupVersionResource GroupVersionKind string ListOptions
  | WatchAction GroupVersionResource string ListOptions
  | CreateAction GroupVersionResource string Rds
  | UpdateAction GroupVersionResource string Rds
  | DeleteAction GroupVersionResource string string
  | DeleteCollectionAction GroupVersionResource string ListOptions
  | PatchSubresourceAction GroupVersionResource string string string string "string list"

type_synonym 'f reaction = "Action \<Rightarrow> 'f \<Rightarrow> (bool \<times> runtime_object option \<times> gerror option) \<times> 'f"

type_synonym 'f watch_reaction = "Action \<Rightarrow> 'f \<Rightarrow> (bool \<times> handle option \<times> gerror option) \<times> 'f"

text \<open>\<open>'l\<close> are label selectors; the labels of an object are in the rest of its metadata.\<close>

record ('f, 'l) FakeApi =
  fk_NewObjectTracker :: 'f
  fk_Add :: "runtime_object \<Rightarrow> 'f \<Rightarrow> gerror option \<times> 'f"
  fk_Watch :: "GroupVersionResource \<Rightarrow> string \<Rightarrow> 'f \<Rightarrow> (gerror + handle) \<times> 'f"
  fk_ObjectReaction :: "'f reaction"
  fk_Invokes :: "Action \<Rightarrow> runtime_object \<Rightarrow> 'f \<Rightarrow> (runtime_object option \<times> gerror option) \<times> 'f"
  fk_InvokesWatch :: "Action \<Rightarrow> 'f \<Rightarrow> (handle option \<times> gerror option) \<times> 'f"
  fk_ExtractLabel :: "ListOptions \<Rightarrow> 'l option"
  fk_Everything :: 'l
  fk_Matches :: "'l \<Rightarrow> string \<Rightarrow> bool"

record 'f fake =
  fake_tracker :: 'f
  fake_actions :: "Action list"

definition invokes :: "('f, 'l) FakeApi \<Rightarrow> Action \<Rightarrow> runtime_object \<Rightarrow>
    ('f fake, runtime_object option \<times> gerror option) go" where
  "invokes F action defaultReturnObj = (\<lambda>s.
     case fk_Invokes F action defaultReturnObj (fake_tracker s) of
       (r, f) \<Rightarrow> (Ok r, s\<lparr>fake_tracker := f, fake_actions := fake_actions s @ [action]\<rparr>))"

definition invokes_watch :: "('f, 'l) FakeApi \<Rightarrow> Action \<Rightarrow> ('f fake, handle option \<times> gerror option) go" where
  "invokes_watch F action = (\<lambda>s.
     case fk_InvokesWatch F action (fake_tracker s) of
       (r, f) \<Rightarrow> (Ok r, s\<lparr>fake_tracker := f, fake_actions := fake_actions s @ [action]\<rparr>))"

section \<open>fake_rds.go\<close>

definition rdssResource :: GroupVersionResource where
  "rdssResource = \<lparr>gvr_Group = ''otc.mcsps.de'', gvr_Version = ''v1alpha1'', gvr_Resource = ''rdss''\<rparr>"

definition rdssKind :: GroupVersionKind where
  "rdssKind = \<lparr>gvk_Group = ''otc.mcsps.de'', gvk_Version = ''v1alpha1'', gvk_Kind = ''Rds''\<rparr>"

text \<open>
  The common end of \<open>Get\<close>, \<open>Create\<close>, \<open>Update\<close> and \<open>Patch\<close>: nil, or the object that is asserted to
  be a resource.
\<close>

definition assert_rds :: "runtime_object option \<times> gerror option \<Rightarrow> ('f fake, Rds option \<times> gerror option) go" where
  "assert_rds r = (case r of
      (None, err) \<Rightarrow> go_return (None, err)
    | (Some (RdsObj rds), err) \<Rightarrow> go_return (Some rds, err)
    | (Some _, err) \<Rightarrow> go_crash ExplicitPanic)"

text \<open>
  A client for one namespace; the \<open>testing.Fake\<close> it points to is the state.  The REST client of the
  fake is a nil pointer.
\<close>

record FakeRdss =
  fr_ns :: string

definition fake_Rdss :: "string \<Rightarrow> FakeRdss" where
  "fake_Rdss namespace = \<lparr>fr_ns = namespace\<rparr>"

definition fake_RESTClient :: "handle option" where
  "fake_RESTClient = None"

definition fake_Get :: "('f, 'l) FakeApi \<Rightarrow> FakeRdss \<Rightarrow> string \<Rightarrow> string \<Rightarrow>
    ('f fake, Rds option \<times> gerror option) go" where
  "fake_Get F c name options = go_bind (invokes F (GetAction rdssResource (fr_ns c) name) (RdsObj zero_rds)) assert_rds"

definition slice_append :: "'a slice \<Rightarrow> 'a \<Rightarrow> 'a slice" where
  "slice_append xs x = Some (slice_elems xs @ [x])"

definition filter_items :: "('f, 'l) FakeApi \<Rightarrow> 'l \<Rightarrow> RdsList \<Rightarrow> RdsList" where
  "filter_items F label obj =
     fold (\<lambda>item ls. if fk_Matches F label (rds_MetaRest item)
                     then ls\<lparr>list_Items := slice_append (list_Items ls) item\<rparr> else ls)
       (slice_elems (list_Items obj)) (zero_rds_list\<lparr>list_ListMeta := list_ListMeta obj\<rparr>)"

definition list_answer :: "('f, 'l) FakeApi \<Rightarrow> ListOptions \<Rightarrow> runtime_object option \<times> gerror option \<Rightarrow>
    ('f fake, RdsList option \<times> gerror option) go" where
  "list_answer F opts r = (case r of
      (None, err) \<Rightarrow> go_return (None, err)
    | (Some obj, err) \<Rightarrow>
        (let label = (case fk_ExtractLabel F opts of None \<Rightarrow> fk_Everything F | Some l \<Rightarrow> l)
         in case obj of RdsListObj l \<Rightarrow> go_return (Some (filter_items F label l), err)
            | _ \<Rightarrow> go_crash ExplicitPanic))"

definition fake_List :: "('f, 'l) FakeApi \<Rightarrow> FakeRdss \<Rightarrow> ListOptions \<Rightarrow>
    ('f fake, RdsList option \<times> gerror option) go" where
  "fake_List F c opts =
     go_bind (invokes F (ListAction rdssResource rdssKind (fr_ns c) opts) (RdsListObj zero_rds_list)) (list_answer F opts)"

definition fake_Watch :: "('f, 'l) FakeApi \<Rightarrow> FakeRdss \<Rightarrow> ListOptions \<Rightarrow>
    ('f fake, handle option \<times> gerror option) go" where
  "fake_Watch F c opts = invokes_watch F (WatchAction rdssResource (fr_ns c) opts)"

definition fake_Create :: "('f, 'l) FakeApi \<Rightarrow> FakeRdss \<Rightarrow> Rds \<Rightarrow> string \<Rightarrow>
    ('f fake, Rds option \<times> gerror option) go" where
  "fake_Create F c rds opts = go_bind (invokes F (CreateAction rdssResource (fr_ns c) rds) (RdsObj zero_rds)) assert_rds"

definition fake_Update :: "('f, 'l) FakeApi \<Rightarrow> FakeRdss \<Rightarrow> Rds \<Rightarrow> string \<Rightarrow>
    ('f fake, Rds option \<times> gerror option) go" where
  "fake_Update F c rds opts = go_bind (invokes F (UpdateAction rdssResource (fr_ns c) rds) (RdsObj zero_rds)) assert_rds"

definition fake_Delete :: "('f, 'l) FakeApi \<Rightarrow> FakeRdss \<Rightarrow> string \<Rightarrow> string \<Rightarrow> ('f fake, unit) go" where
  "fake_Delete F c name opts =
     go_bind (invokes F (DeleteAction rdssResource (fr_ns c) name) (RdsObj zero_rds)) (\<lambda>(_, err). err_result err)"

definition fake_DeleteCollection :: "('f, 'l) FakeApi \<Rightarrow> FakeRdss \<Rightarrow> string \<Rightarrow> ListOptions \<Rightarrow> ('f fake, unit) go" where
  "fake_DeleteCollection F c opts listOpts =
     go_bind (invokes F (DeleteCollectionAction rdssResource (fr_ns c) listOpts) (RdsListObj zero_rds_list))
       (\<lambda>(_, err). err_result err)"

definition fake_Patch :: "('f, 'l) FakeApi \<Rightarrow> FakeRdss \<Rightarrow> string \<Rightarrow> string \<Rightarrow> string \<Rightarrow> string \<Rightarrow> string list \<Rightarrow>
    ('f fake, Rds option \<times> gerror option) go" where
  "fake_Patch F c name pt data opts subresources =
     go_bind (invokes F (PatchSubresourceAction rdssResource (fr_ns c) name pt data subresources) (RdsObj zero_rds)) assert_rds"

section \<open>clientset_generated.go\<close>

text \<open>
  The clientset: the tracker and the reactors it registers for verbs and resources.  The
  discovery client shares the same fake and has no state of its own.
\<close>

record 'f FakeClientset =
  fc_tracker :: 'f
  fc_reactors :: "(string \<times> string \<times> 'f reaction) list"
  fc_watch_reactors :: "(string \<times> 'f watch_reaction) list"

fun action_resource :: "Action \<Rightarrow> GroupVersionResource" where
  "action_resource (GetAction r ns n) = r"
| "action_resource (ListAction r k ns lo) = r"
| "action_resource (WatchAction r ns lo) = r"
| "action_resource (CreateAction r ns x) = r"
| "action_resource (UpdateAction r ns x) = r"
| "action_resource (DeleteAction r ns n) = r"
| "action_resource (DeleteCollectionAction r ns lo) = r"
| "action_resource (PatchSubresourceAction r ns n pt d subs) = r"

fun action_namespace :: "Action \<Rightarrow> string" where
  "action_namespace (GetAction r ns n) = ns"
| "action_namespace (ListAction r k ns lo) = ns"
| "action_namespace (WatchAction r ns lo) = ns"
| "action_namespace (CreateAction r ns x) = ns"
| "action_namespace (UpdateAction r ns x) = ns"
| "action_namespace (DeleteAction r ns n) = ns"
| "action_namespace (DeleteCollectionAction r ns lo) = ns"
| "action_namespace (PatchSubresourceAction r ns n pt d subs) = ns"

definition watch_tracker :: "('f, 'l) FakeApi \<Rightarrow> 'f watch_reaction" where
  "watch_tracker F action o1 =
     (case fk_Watch F (action_resource action) (action_namespace action) o1 of
        (Inl err, o2) \<Rightarrow> ((False, None, Some err), o2)
      | (Inr watch, o2) \<Rightarrow> ((True, Some watch, None), o2))"

primrec add_objects :: "('f, 'l) FakeApi \<Rightarrow> runtime_object list \<Rightarrow> ('f, unit) go" where
  "add_objects F [] = go_return ()"
| "add_objects F (obj # objects) = (\<lambda>o1. case fk_Add F obj o1 of
     (Some err, o2) \<Rightarrow> (Crash ExplicitPanic, o2)
   | (None, o2) \<Rightarrow> add_objects F objects o2)"

definition fake_Tracker :: "'f FakeClientset \<Rightarrow> 'f" where
  "fake_Tracker c = fc_tracker c"

definition NewSimpleClientset :: "('f, 'l) FakeApi \<Rightarrow> runtime_object list \<Rightarrow> 'f FakeClientset outcome" where
  "NewSimpleClientset F objects =
     (case add_objects F objects (fk_NewObjectTracker F) of
        (Ok _, o1) \<Rightarrow> Ok \<lparr>fc_tracker = o1, fc_reactors = [(''*'', ''*'', fk_ObjectReaction F)],
          fc_watch_reactors = [(''*'', watch_tracker F)]\<rparr>
      | (Fail e, _) \<Rightarrow> Fail e
      | (Crash c, _) \<Rightarrow> Crash c)"

section \<open>The fake and the client\<close>

lemmas fake_defs_but_watch = fake_Get_def fake_List_def fake_Create_def fake_Update_def
  fake_Delete_def fake_DeleteCollection_def fake_Patch_def

definition acted :: "'f fake \<Rightarrow> 'f fake \<Rightarrow> Action list" where
  "acted s t = drop (length (fake_actions s)) (fake_actions t)"

lemma assert_rds_actions [simp]: "snd (assert_rds r s) = s"
  by (auto simp: assert_rds_def go_eval split: prod.split option.split runtime_object.split)

lemma err_result_actions [simp]: "snd (err_result e s) = s"
  by (simp add: err_result_def go_eval split: option.split)

text \<open>A method that invokes an action and then only looks at the answer.\<close>

lemma invokes_acted:
  assumes "\<And>r u. snd (k r u) = u"
  shows "acted s (snd (go_bind (invokes F a d) k s)) = [a]"
  by (simp add: go_bind_eval invokes_def acted_def assms split: prod.split)

lemma list_answer_state [simp]: "snd (list_answer F opts r s) = s"
  by (simp add: list_answer_def Let_def go_eval split: prod.split option.split runtime_object.split)

lemma delete_answer_state [simp]: "snd ((case r of (x, err) \<Rightarrow> err_result err) s) = s"
  by (simp split: prod.split)

lemma fake_acted:
  "acted f (snd (fake_Get F (fake_Rdss ns) n o1 f)) = [GetAction rdssResource ns n]"
  "acted f (snd (fake_List F (fake_Rdss ns) lo f)) = [ListAction rdssResource rdssKind ns lo]"
  "acted f (snd (fake_Watch F (fake_Rdss ns) lo f)) = [WatchAction rdssResource ns lo]"
  "acted f (snd (fake_Create F (fake_Rdss ns) r o1 f)) = [CreateAction rdssResource ns r]"
  "acted f (snd (fake_Update F (fake_Rdss ns) r o1 f)) = [UpdateAction rdssResource ns r]"
  "acted f (snd (fake_Delete F (fake_Rdss ns) n o1 f)) = [DeleteAction rdssResource ns n]"
  "acted f (snd (fake_DeleteCollection F (fake_Rdss ns) o1 lo f)) = [DeleteCollectionAction rdssResource ns lo]"
  "acted f (snd (fake_Patch F (fake_Rdss ns) n pt data o1 subs f)) = [PatchSubresourceAction rdssResource ns n pt data subs]"
  by (simp_all add: fake_defs_but_watch fake_Rdss_def invokes_acted)
    (simp add: fake_Watch_def fake_Rdss_def invokes_watch_def acted_def split: prod.split)

text \<open>\<open>describes a rq\<close>: the action \<open>a\<close> of the fake is what the API server is asked for by \<open>rq\<close>.\<close>

fun describes :: "Action \<Rightarrow> Request \<Rightarrow> bool" where
  "describes (GetAction r ns n) rq \<longleftrightarrow> rq_Verb rq = GET \<and> rq_Namespace rq = ns \<and>
     rq_Resource rq = gvr_Resource r \<and> rq_Name rq = Some n \<and> rq_Body rq = NoBody"
| "describes (ListAction r k ns lo) rq \<longleftrightarrow> rq_Verb rq = GET \<and> rq_Namespace rq = ns \<and>
     rq_Resource rq = gvr_Resource r \<and> rq_Name rq = None \<and> rq_Params rq = ListParams lo \<and> rq_Body rq = NoBody"
| "describes (WatchAction r ns lo) rq \<longleftrightarrow> rq_Verb rq = GET \<and> rq_Namespace rq = ns \<and>
     rq_Resource rq = gvr_Resource r \<and> rq_Name rq = None \<and> rq_Params rq = ListParams (lo\<lparr>lopt_Watch := True\<rparr>) \<and>
     rq_Body rq = NoBody"
| "describes (CreateAction r ns x) rq \<longleftrightarrow> rq_Verb rq = POST \<and> rq_Namespace rq = ns \<and>
     rq_Resource rq = gvr_Resource r \<and> rq_Name rq = None \<and> rq_Body rq = RdsBody x"
| "describes (UpdateAction r ns x) rq \<longleftrightarrow> rq_Verb rq = PUT \<and> rq_Namespace rq = ns \<and>
     rq_Resource rq = gvr_Resource r \<and> rq_Name rq = Some (rds_Name x) \<and> rq_Body rq = RdsBody x"
| "describes (DeleteAction r ns n) rq \<longleftrightarrow> rq_Verb rq = DELETE \<and> rq_Namespace rq = ns \<and>
     rq_Resource rq = gvr_Resource r \<and> rq_Name rq = Some n"
| "describes (DeleteCollectionAction r ns lo) rq \<longleftrightarrow> rq_Verb rq = DELETE \<and> rq_Namespace rq = ns \<and>
     rq_Resource rq = gvr_Resource r \<and> rq_Name rq = None \<and> rq_Params rq = ListParams lo"
| "describes (PatchSubresourceAction r ns n pt d subs) rq \<longleftrightarrow> rq_Verb rq = PATCH \<and> rq_Namespace rq = ns \<and>
     rq_Resource rq = gvr_Resource r \<and> rq_Name rq = Some n \<and> rq_SubResources rq = subs \<and> rq_Body rq = PatchBody pt d"

text \<open>\<open>matches_call as cs\<close>: one action and one call, whose request the action describes.\<close>

definition matches_call :: "Action list \<Rightarrow> (call \<times> bool) list \<Rightarrow> bool" where
  "matches_call as cs \<longleftrightarrow>
     (case as of [a] \<Rightarrow> (case cs of [(K8S (CRest rq), ok)] \<Rightarrow> action_resource a = gv_WithResource SchemeGroupVersion (rq_Resource rq) \<and>
        describes a rq | _ \<Rightarrow> False) | _ \<Rightarrow> False)"

text \<open>A method of the client makes the one call it performs, whatever the answer.\<close>

lemma matches_one:
  assumes "describes a rq" and "action_resource a = gv_WithResource SchemeGroupVersion (rq_Resource rq)"
  shows "matches_call [a] (made s (snd (perform_v (K8S (CRest rq)) v s)))"
    and "matches_call [a] (made s (snd (perform_e (K8S (CRest rq)) g s)))"
    and "matches_call [a] (made s (snd (go_bind (perform (K8S (CRest rq)) d) err_result s)))"
  using assms
  by (simp_all add: perform_v_eval perform_e_eval perform_eval go_bind_eval [of "perform _ _"] made_def matches_call_def
      split: prod.split sum.split option.split)

lemma rdss_resource: "gv_WithResource SchemeGroupVersion ''rdss'' = rdssResource" "gvr_Resource rdssResource = ''rdss''"
  by (simp_all add: rdssResource_def gv_WithResource_def SchemeGroupVersion_def GroupName_def V1alpha1_def)

text \<open>The fake's own selection: the items that the label selector matches, in their order.\<close>

lemma filter_items_fold:
  "slice_elems (list_Items (fold (\<lambda>item ls. if p item then ls\<lparr>list_Items := slice_append (list_Items ls) item\<rparr> else ls)
     xs (l :: RdsList))) = slice_elems (list_Items l) @ filter p xs"
  by (induction xs arbitrary: l) (simp_all add: slice_append_def)

lemma filter_items_elems:
  "slice_elems (list_Items (filter_items F label l)) =
     filter (\<lambda>r. fk_Matches F label (rds_MetaRest r)) (slice_elems (list_Items l))"
  unfolding filter_items_def by (simp add: filter_items_fold zero_rds_list_def)

section \<open>Property\<close>

text \<open>C40: each method of the fake invokes exactly one action, and it describes the one request that the
  method of the real client makes for the same arguments: the same verb, namespace, resource
  with its group and version, name, subresources, list options and body.\<close>

theorem fake_stands_for_client:
  "list_all2 matches_call
     [acted f (snd (fake_Get F (fake_Rdss ns) n o1 f)), acted f (snd (fake_List F (fake_Rdss ns) lo f)),
      acted f (snd (fake_Watch F (fake_Rdss ns) lo f)), acted f (snd (fake_Create F (fake_Rdss ns) r o1 f)),
      acted f (snd (fake_Update F (fake_Rdss ns) r o1 f)), acted f (snd (fake_Delete F (fake_Rdss ns) n o1 f)),
      acted f (snd (fake_DeleteCollection F (fake_Rdss ns) o1 lo f)), acted f (snd (fake_Patch F (fake_Rdss ns) n pt data o1 subs f))]
     [made s (snd (rdss_Get E h ns n o1 s)), made s (snd (rdss_List E h ns lo s)),
      made s (snd (rdss_Watch E h ns lo s)), made s (snd (rdss_Create E h ns r o1 s)),
      made s (snd (rdss_Update E h ns r o1 s)), made s (snd (rdss_Delete E h ns n o1 s)),
      made s (snd (rdss_DeleteCollection E h ns o1 lo s)), made s (snd (rdss_Patch E h ns n pt data o1 subs s))]"
  unfolding fake_acted client_defs by (simp add: matches_one rdss_resource)

end
