(* ===== verification/Scheme.thy ===== *)
theory Scheme
  imports Informers
begin

text \<open>
  The registration of the custom resource: \<open>addKnownTypes\<close> of \<open>register.go\<close>, and the scheme of
  the clientset, which its package initialisation fills (\<open>clientset/versioned/scheme/register.go\<close>,
  and \<open>clientset/versioned/fake/register.go\<close> for the fake).  The scheme is apimachinery's, a parameter.
\<close>

record 's SchemeApi =
  sa_NewScheme :: 's
  sa_AddKnownTypes :: "GroupVersion \<Rightarrow> gotype list \<Rightarrow> 's \<Rightarrow> 's"
  sa_AddToGroupVersion :: "GroupVersion \<Rightarrow> 's \<Rightarrow> 's"
  sa_BuilderAddToScheme :: "('s \<Rightarrow> gerror option \<times> 's) list \<Rightarrow> 's \<Rightarrow> gerror option \<times> 's"

section \<open>register.go\<close>

definition addKnownTypes :: "'s SchemeApi \<Rightarrow> 's \<Rightarrow> gerror option \<times> 's" where
  "addKnownTypes S scheme =
     (None, sa_AddToGroupVersion S SchemeGroupVersion
        (sa_AddKnownTypes S SchemeGroupVersion [''Rds'', ''RdsList''] scheme))"

definition v1alpha1_AddToScheme :: "'s SchemeApi \<Rightarrow> 's \<Rightarrow> gerror option \<times> 's" where
  "v1alpha1_AddToScheme S = sa_BuilderAddToScheme S [addKnownTypes S]"

section \<open>scheme/register.go\<close>

definition AddToScheme :: "'s SchemeApi \<Rightarrow> 's \<Rightarrow> gerror option \<times> 's" where
  "AddToScheme S = sa_BuilderAddToScheme S [v1alpha1_AddToScheme S]"

text \<open>\<open>utilruntime.Must\<close> panics on an error; \<open>package_Scheme\<close> is the scheme once its package is initialised.\<close>

definition scheme_init :: "'s SchemeApi \<Rightarrow> ('s, unit) go" where
  "scheme_init S = (\<lambda>scheme.
     case AddToScheme S (sa_AddToGroupVersion S \<lparr>gv_Group = '''', gv_Version = ''v1''\<rparr> scheme) of
       (Some err, scheme') \<Rightarrow> (Crash ExplicitPanic, scheme')
     | (None, scheme') \<Rightarrow> (Ok (), scheme'))"

definition package_Scheme :: "'s SchemeApi \<Rightarrow> unit outcome \<times> 's" where
  "package_Scheme S = scheme_init S (sa_NewScheme S)"

section \<open>fake/register.go\<close>

definition fake_AddToScheme :: "'s SchemeApi \<Rightarrow> 's \<Rightarrow> gerror option \<times> 's" where
  "fake_AddToScheme S = sa_BuilderAddToScheme S [v1alpha1_AddToScheme S]"

definition fake_scheme_init :: "'s SchemeApi \<Rightarrow> ('s, unit) go" where
  "fake_scheme_init S = (\<lambda>scheme.
     case fake_AddToScheme S (sa_AddToGroupVersion S \<lparr>gv_Group = '''', gv_Version = ''v1''\<rparr> scheme) of
       (Some err, scheme') \<Rightarrow> (Crash ExplicitPanic, scheme')
     | (None, scheme') \<Rightarrow> (Ok (), scheme'))"

definition fake_scheme :: "'s SchemeApi \<Rightarrow> unit outcome \<times> 's" where
  "fake_scheme S = fake_scheme_init S (sa_NewScheme S)"

section \<open>What is registered\<close>

text \<open>
  What apimachinery documents: a builder runs its functions in order until one fails, and the
  known types grow by the ones that are added.
\<close>

fun run_builders :: "('s \<Rightarrow> gerror option \<times> 's) list \<Rightarrow> 's \<Rightarrow> gerror option \<times> 's" where
  "run_builders [] scheme = (None, scheme)"
| "run_builders (f # fs) scheme = (case f scheme of
     (Some err, scheme') \<Rightarrow> (Some err, scheme') | (None, scheme') \<Rightarrow> run_builders fs scheme')"

definition registers :: "'s SchemeApi \<Rightarrow> ('s \<Rightarrow> (GroupVersion \<times> gotype) set) \<Rightarrow> bool" where
  "registers S known \<longleftrightarrow> sa_BuilderAddToScheme S = run_builders \<and>
     (\<forall>gv tys scheme. known (sa_AddKnownTypes S gv tys scheme) = known scheme \<union> {gv} \<times> set tys) \<and>
     (\<forall>gv scheme. known scheme \<subseteq> known (sa_AddToGroupVersion S gv scheme))"

text \<open>
  The initialisation does not panic and makes the resource and its list known, under the group
  and version that the typed client sends its requests to and that the informer factory serves; so does
  that of the fake.
\<close>

lemma scheme_init_registers:
  assumes "registers S known"
  shows "\<exists>scheme'. package_Scheme S = (Ok (), scheme') \<and> fake_scheme S = package_Scheme S \<and>
    {(SchemeGroupVersion, ''Rds''), (SchemeGroupVersion, ''RdsList'')} \<subseteq> known scheme'"
proof -
  note laws = assms [unfolded registers_def]
  let ?s1 = "sa_AddToGroupVersion S \<lparr>gv_Group = '''', gv_Version = ''v1''\<rparr> (sa_NewScheme S)"
  let ?s2 = "sa_AddKnownTypes S SchemeGroupVersion [''Rds'', ''RdsList''] ?s1"
  have "package_Scheme S = (Ok (), sa_AddToGroupVersion S SchemeGroupVersion ?s2)"
    using laws by (simp add: package_Scheme_def scheme_init_def AddToScheme_def v1alpha1_AddToScheme_def
      addKnownTypes_def)
  moreover have "fake_scheme S = package_Scheme S"
    by (simp add: package_Scheme_def fake_scheme_def scheme_init_def fake_scheme_init_def AddToScheme_def
      fake_AddToScheme_def)
  moreover have "known ?s2 \<subseteq> known (sa_AddToGroupVersion S SchemeGroupVersion ?s2)" using laws by blast
  ultimately show ?thesis using laws by auto
qed

end
