(* ===== verification/Reconcile.thy ===== *)
theory Reconcile
  imports Worker
begin

text \<open>
  What the event of an update asks of the cloud, from the status write in front of it to the plan of
  \<open>rdsUpdate\<close>: the composition of \<open>worker.go\<close> and \<open>resource.go\<close>.  The plan depends on the resource of
  the event and on the instance that the cloud lists; from it follow what happens to a resource
  that matches its instance, and what a retry repeats.
\<close>

section \<open>The requests of Update\<close>

text \<open>The instance that \<open>Update\<close> compares the resource with: the answer to its listing, if it gets that far.\<close>

definition update_lists :: "'w Ext \<Rightarrow> 'w sys \<Rightarrow> RdsInstanceResponse option" where
  "update_lists E s = (case go_bind (GetProvider E) (NewClient E RDSV3) s of
      (Ok client, u) \<Rightarrow> listed E client u | _ \<Rightarrow> None)"

definition update_requests :: "'w Ext \<Rightarrow> 'w sys \<Rightarrow> RdsCall list" where
  "update_requests E s = (case update_lists E s of None \<Rightarrow> [] | Some inst \<Rightarrow> update_plan inst (newRds s))"

lemma asked_mem: "asked s t plan r \<Longrightarrow> x \<in> set (seen mutation (made s t)) \<Longrightarrow> x \<in> set plan"
  by (auto simp: asked_def dest: set_mono_prefix split: if_splits)

lemma asked_after:
  assumes "calls u = calls s @ pre" and "seen mutation pre = []" and "asked u t plan r" and "calls t = calls u @ post"
  shows "asked s t plan r"
proof -
  have "made u t = post" "made s t = pre @ post" by (simp_all add: made_def assms(1,4))
  with assms(2,3) show ?thesis by (cases "r = Ok ()") (simp_all add: asked_def)
qed

lemma client_silent:
  "uses (\<lambda>c. mutation c = None) (go_bind (GetProvider E) (NewClient E RDSV3))"
  by (intro run_intro uses_intro) simp_all

lemma rdsUpdate_requests:
  assumes "rdsUpdate E client s = (r, t)"
  shows "asked s t (case listed E client s of None \<Rightarrow> [] | Some inst \<Rightarrow> update_plan inst (newRds s)) r"
proof (cases "listed E client s")
  case None
  from update_unlisted [OF None assms] None show ?thesis by (auto simp: asked_nothing)
next
  case (Some inst)
  from rdsUpdate_asks [OF Some assms] Some show ?thesis by simp
qed

lemma rdsUpdate_log: "rdsUpdate E client s = (r, t) \<Longrightarrow> \<exists>new. calls t = calls s @ new"
  using run_respectsD [OF rdsUpdate_reboot] by (force simp: reboot_consumed_def)

text \<open>\<open>Update\<close> wraps the errors of its parts, which does not touch the state.\<close>

lemma Update_run:
  assumes "Update E s = (r, t)"
  obtains (client) c u q where "go_bind (GetProvider E) (NewClient E RDSV3) s = (Ok c, u)"
      "rdsUpdate E c u = (q, t)" "q = Ok () \<longleftrightarrow> r = Ok ()"
  | (none) q where "go_bind (GetProvider E) (NewClient E RDSV3) s = (q, t)" "\<And>c. q \<noteq> Ok c" "r \<noteq> Ok ()"
  using assms unfolding Update_def
  by (auto simp: go_bind_eval go_wrap_eval split: outcome.splits prod.splits)

lemma client_keeps: "run_respects (same_field newRds) (go_bind (GetProvider E) (NewClient E RDSV3))"
  by (intro run_intro uses_intro) simp_all

lemma Update_asks:
  assumes "Update E s = (r, t)"
  shows "asked s t (update_requests E s) r" and "\<exists>new. calls t = calls s @ new"
proof -
  have "asked s t (update_requests E s) r \<and> (\<exists>new. calls t = calls s @ new)"
    using assms
  proof (cases rule: Update_run)
    case (client c u q)
    obtain pre where pre: "calls u = calls s @ pre" "seen mutation pre = []"
      using silent_run [OF client_silent client(1)] .
    obtain post where post: "calls t = calls u @ post" using rdsUpdate_log [OF client(2)] by blast
    have "newRds u = newRds s"
      using run_respectsD [OF client_keeps client(1)] by (simp add: same_field_def)
    with client(1) have "update_requests E s =
        (case listed E c u of None \<Rightarrow> [] | Some inst \<Rightarrow> update_plan inst (newRds u))"
      by (simp add: update_requests_def update_lists_def split: option.split)
    with rdsUpdate_requests [OF client(2)] client(3) have "asked u t (update_requests E s) r"
      by (simp add: asked_def)
    from asked_after [OF pre this post] pre(1) post show ?thesis by simp
  next
    case (none q)
    obtain pre where pre: "calls t = calls s @ pre" "seen mutation pre = []"
      using silent_run [OF client_silent none(1)] .
    moreover have "update_requests E s = []"
      using none(1,2) by (cases q) (auto simp: update_requests_def update_lists_def)
    ultimately show ?thesis by (simp add: asked_nothing made_def)
  qed
  then show "asked s t (update_requests E s) r" and "\<exists>new. calls t = calls s @ new" by simp_all
qed

section \<open>The event of an update\<close>

text \<open>The plan of the event, once its status write has ended with \<open>q\<close> in \<open>u\<close>.\<close>

definition event_requests :: "'w Ext \<Rightarrow> unit outcome \<Rightarrow> 'w sys \<Rightarrow> RdsCall list" where
  "event_requests E q u =
     (if q = Ok () \<and> HasChanged (oldRds u) (newRds u) \<and> status_Status (rds_Status (newRds u)) = ''ACTIVE''
      then update_requests E u else [])"

lemma processUpdateRds_asks:
  assumes "UpdateStatus E s = (q, u)" and "processUpdateRds E s = (r, t)"
  shows "asked s t (event_requests E q u) r"
proof -
  obtain pre where pre: "calls u = calls s @ pre" "seen mutation pre = []"
    using silent_run [OF status_write.write_uses_in [OF status_call_harmless] assms(1)] .
  show ?thesis
  proof (cases "q = Ok () \<and> HasChanged (oldRds u) (newRds u) \<and> status_Status (rds_Status (newRds u)) = ''ACTIVE''")
    case True
    obtain p v where up: "Update E u = (p, v)" by fastforce
    have "r = p" "calls t = calls v"
      using processUpdateRds_passed [of E s u] assms True up by auto
    with Update_asks [OF up] pre True show ?thesis
      by (auto simp: event_requests_def asked_def made_def)
  next
    case False
    then have "\<exists>new. calls t = calls s @ new \<and> seen mutation new = []"
      using assms pre
      by (cases q) (auto simp: processUpdateRds_def go_then_eval go_wrap_eval go_bind_eval [of "go_get _"]
        go_get_eval go_return_eval go_fail_eval perform_w_eval split: if_splits)
    with False show ?thesis by (auto simp: event_requests_def asked_nothing made_def)
  qed
qed

text \<open>C5: what the event of an update asks of the cloud is the plan computed from its resource and the
  instance that the cloud lists, if the status write succeeded, \<open>HasChanged\<close> holds and the
  resource is active, and nothing otherwise: all of it when the event is handled without an error,
  and its first requests in any case.\<close>

theorem update_event_requests:
  "case UpdateStatus E s of (q, u) \<Rightarrow> (case processUpdateRds E s of (r, t) \<Rightarrow>
     asked s t (event_requests E q u) r)"
  by (simp add: processUpdateRds_asks split: prod.split)

lemma Update_needs_listing:
  assumes "Update E s = (Ok (), t)"
  obtains inst where "update_lists E s = Some inst"
  using assms
proof (cases rule: Update_run)
  case (client c u q)
  then have "listed E c u \<noteq> None" using update_unlisted [of E c u q t] by auto
  with client(1) that show thesis by (auto simp: update_lists_def)
qed simp

section \<open>A resource that matches its instance\<close>

text \<open>The instance has what the resource asks for, and nothing else is pending.\<close>

definition reconciled :: "RdsInstanceResponse \<Rightarrow> Rds \<Rightarrow> bool" where
  "reconciled inst r \<longleftrightarrow>
     \<not> inst_VolumeSize inst <s spec_Volumesize (rds_Spec r) \<and>
     inst_FlavorRef inst = spec_Flavorref (rds_Spec r) \<and>
     \<not> status_Reboot (rds_Status r) \<and> spec_Backuprestoretime (rds_Spec r) = ''''"

lemma reconciled_plan: "reconciled inst r \<Longrightarrow> update_plan inst r = []"
  by (simp add: reconciled_def update_plan_def enlarge_plan_def resize_plan_def restart_plan_def
      restore_plan_def Let_def)

lemma reconciled_core: "resource_core r = resource_core r' \<Longrightarrow> reconciled inst r = reconciled inst r'"
  using resource_core_eqD [of r r'] by (simp add: reconciled_def)

lemma up_to_date_reconciled: "up_to_date inst old r \<Longrightarrow> reconciled inst r"
  by (simp add: up_to_date_def reconciled_def)

lemma up_to_date_core: "resource_core r' = resource_core r \<Longrightarrow> up_to_date inst old r' = up_to_date inst old r"
  using resource_core_eqD [of r' r] arg_cong [of "resource_core r'" "resource_core r" "\<lambda>r. status_Logs (rds_Status r)"]
    arg_cong [of "resource_core r'" "resource_core r" "\<lambda>r. status_Autopilot (rds_Status r)"]
  by (simp add: up_to_date_def resource_core_def)

definition quiet_calls :: "(call \<times> bool) list \<Rightarrow> bool" where
  "quiet_calls cs \<longleftrightarrow> list_all (\<lambda>(c, _). status_call c \<or> c = SYS (CSleep 30)) cs"

lemma quiet_calls_simps [simp]:
  "quiet_calls []" "quiet_calls (xs @ ys) \<longleftrightarrow> quiet_calls xs \<and> quiet_calls ys"
  "quiet_calls ((c, ok) # cs) \<longleftrightarrow> (status_call c \<or> c = SYS (CSleep 30)) \<and> quiet_calls cs"
  by (auto simp: quiet_calls_def)

lemma uses_quiet: "uses status_call m \<Longrightarrow> m s = (r, t) \<Longrightarrow> \<exists>new. calls t = calls s @ new \<and> quiet_calls new"
  by (drule (1) run_respectsD) (auto simp: emits_def quiet_calls_def list_all_iff)

lemma client_keeps_both: "run_respects (same_field (\<lambda>s. (oldRds s, newRds s))) (go_bind (GetProvider E) (NewClient E RDSV3))"
  by (intro run_intro uses_intro) simp_all

lemma client_quiet: "uses status_call (go_bind (GetProvider E) (NewClient E RDSV3))"
  by (intro run_intro uses_intro) simp_all

text \<open>\<open>Update\<close> with nothing to do, or without an instance: a listing at most.\<close>

lemma Update_quiet:
  assumes "Update E s = (r, t)" and "update_lists E s \<in> {None, Some inst}" and "up_to_date inst (oldRds s) (newRds s)"
  shows "\<exists>new. calls t = calls s @ new \<and> quiet_calls new"
  using assms(1)
proof (cases rule: Update_run)
  case (client c u q)
  obtain pre where pre: "calls u = calls s @ pre" "quiet_calls pre" using uses_quiet [OF client_quiet client(1)] by blast
  have same: "oldRds u = oldRds s" "newRds u = newRds s"
    using run_respectsD [OF client_keeps_both client(1)] by (simp_all add: same_field_def)
  obtain post where post: "calls t = calls u @ post" using rdsUpdate_log [OF client(2)] by blast
  have "listed E c u \<in> {None, Some inst}" using assms(2) client(1) by (simp add: update_lists_def)
  then have "quiet_calls (made u t)"
  proof (elim insertE emptyE)
    assume "listed E c u = None"
    from update_unlisted [OF this client(2)] show ?thesis by auto
  next
    assume "listed E c u = Some inst"
    from update_nothing_to_do [OF this] assms(3) same client(2) show ?thesis by auto
  qed
  with pre post show ?thesis by (simp add: seen_same_calls)
next
  case (none q)
  with uses_quiet [OF client_quiet none(1)] show ?thesis by blast
qed

text \<open>C13: the event of an update, be it a change or a resynchronisation of the informer, requests no
  change of the instance when the resource matches the instance that the cloud lists.  If
  moreover no logs are asked for, the databases are as many as before, the list of users is the
  same object (or absent), and the autopilot is set or not wanted, it makes no call but those of
  the status write (listings, the write of the resource, its service and endpoint), the listing of
  the update and the pause before a retry: no topic, alarm, job or statement.  So the operator comes
  to rest: it does not answer its own status writes with requests.\<close>

theorem reconciled_update_rests:
  assumes "UpdateStatus E s = (q, u)" and "update_lists E u \<in> {None, Some inst}" and "reconciled inst (newRds s)"
    and "processUpdateRds E s = (r, t)"
  shows "seen mutation (made s t) = [] \<and>
    (if up_to_date inst (oldRds s) (newRds s)
     then list_all (\<lambda>(c, _). status_call c \<or> c = SYS (CSleep 30)) (made s t) else True)"
proof -
  have core: "resource_core (newRds u) = resource_core (newRds s)" and old: "oldRds u = oldRds s"
    using status_write.write_core_eq [OF assms(1)] status_write.write_keeps_old [OF assms(1)] by simp_all
  have "event_requests E q u = []"
    using assms(2,3) reconciled_core [OF core] reconciled_plan
    by (auto simp: event_requests_def update_requests_def)
  with processUpdateRds_asks [OF assms(1,4)] have "seen mutation (made s t) = []" by (simp add: asked_nothing)
  moreover have "quiet_calls (made s t)" if "up_to_date inst (oldRds s) (newRds s)"
  proof -
    have utd: "up_to_date inst (oldRds u) (newRds u)" using that up_to_date_core [OF core] old by simp
    obtain pre where pre: "calls u = calls s @ pre" "quiet_calls pre"
      using uses_quiet [OF status_write.write_uses assms(1)] by blast
    show ?thesis
    proof (cases "q = Ok () \<and> HasChanged (oldRds u) (newRds u) \<and> status_Status (rds_Status (newRds u)) = ''ACTIVE''")
      case True
      obtain p v where up: "Update E u = (p, v)" by fastforce
      have "calls t = calls v" using processUpdateRds_passed [of E s u] assms(1,4) True up by auto
      with Update_quiet [OF up assms(2) utd] pre show ?thesis by (auto simp: made_def)
    next
      case False
      then have "\<exists>new. calls t = calls s @ new \<and> quiet_calls new"
        using assms(1,4) pre
        by (cases q) (auto simp: processUpdateRds_def go_then_eval go_wrap_eval go_bind_eval [of "go_get _"]
          go_get_eval go_return_eval go_fail_eval perform_w_eval split: if_splits)
      then show ?thesis by (auto simp: made_def)
    qed
  qed
  ultimately show ?thesis by (simp add: quiet_calls_def)
qed

text \<open>C14: a retry repeats what the failed attempt has done: the flags that an update clears are cleared in
  copies, so an event with the reboot flag still has it after a failure, and a later attempt that
  gets to the update and ends without an error asks for a restart, whether or not an earlier one
  did.\<close>

theorem retry_restarts_again:
  assumes "status_Reboot (rds_Status (newRds s))" and "processUpdateRds E s = (Fail e, t)"
    and "newRds t' = newRds t" and "UpdateStatus E' t' = (Ok (), u)"
    and "HasChanged (oldRds u) (newRds u)" and "status_Status (rds_Status (newRds u)) = ''ACTIVE''"
    and "processUpdateRds E' t' = (Ok (), v)"
  shows "CRdsRestart (status_Id (rds_Status (newRds s))) \<in> set (seen mutation (made t' v))"
proof -
  have "resource_core (newRds t) = resource_core (newRds s)"
    by (rule processUpdateRds_core(1) [OF assms(2)])
  moreover have "resource_core (newRds u) = resource_core (newRds t')"
    by (rule status_write.write_core_eq [OF assms(4)])
  ultimately have core: "resource_core (newRds u) = resource_core (newRds s)" using assms(3) by simp
  have "fst (Update E' u) = Ok ()" using processUpdateRds_passed [OF assms(4-6)] assms(7) by simp
  then obtain w where "Update E' u = (Ok (), w)" by (metis prod.collapse)
  then obtain inst where inst: "update_lists E' u = Some inst" by (rule Update_needs_listing)
  have "seen mutation (made t' v) = update_plan inst (newRds u)"
    using processUpdateRds_asks [OF assms(4,7)] assms(5,6) inst
    by (simp add: event_requests_def asked_def update_requests_def)
  moreover have "CRdsRestart (status_Id (rds_Status (newRds s))) \<in> set (update_plan inst (newRds u))"
    using assms(1) resource_core_eqD [OF core] by (simp add: update_plan_def restart_plan_def Let_def)
  ultimately show ?thesis by simp
qed

section \<open>On a concrete cloud\<close>

lemma demo_update_lists:
  "world s = Suc 0 \<Longrightarrow> status_Id (rds_Status (newRds s)) \<noteq> '''' \<Longrightarrow> update_lists demo_ext s = Some demo_instance"
  by (simp add: update_lists_def listed_def demo)

lemma demo_reconciled:
  "rds_Spec r = demo_spec \<Longrightarrow> \<not> status_Reboot (rds_Status r) \<Longrightarrow> reconciled demo_instance r"
  by (simp add: reconciled_def demo_instance_def demo_spec_def zero_spec_def)

theorem reconciled_update_rests_witness:
  "\<exists>r t. processUpdateRds demo_ext (demo_sys 1 (demo_rds ''id1'')) = (r, t) \<and>
     seen mutation (made (demo_sys 1 (demo_rds ''id1'')) t) = [] \<and>
     list_all (\<lambda>(c, _). status_call c \<or> c = SYS (CSleep 30)) (made (demo_sys 1 (demo_rds ''id1'')) t)"
proof -
  let ?s = "demo_sys 1 (demo_rds ''id1'')"
  obtain r t where run: "processUpdateRds demo_ext ?s = (r, t)" by fastforce
  have up: "UpdateStatus demo_ext ?s = (Ok (), demo_updated ?s)"
    by (rule demo_UpdateStatus) (simp_all add: demo)
  have lists: "update_lists demo_ext (demo_updated ?s) \<in> {None, Some demo_instance}"
    by (simp add: demo_update_lists demo_updated_sel demo_sys_sel demo_pushed_sel demo_rds_sel)
  have rec: "reconciled demo_instance (newRds ?s)"
    by (rule demo_reconciled) (simp_all add: demo_sys_sel demo_rds_sel zero_status_def)
  have "up_to_date demo_instance (oldRds ?s) (newRds ?s)"
    by (simp add: up_to_date_def users_ptr_neq_def demo_spec_def zero_spec_def demo)
  with reconciled_update_rests [OF up lists rec run] have "seen mutation (made ?s t) = []"
    "list_all (\<lambda>(c, _). status_call c \<or> c = SYS (CSleep 30)) (made ?s t)" by simp_all
  with run show ?thesis by blast
qed

text \<open>A cloud on which no job completes in time: a first attempt restarts and fails.\<close>

definition demo_broken :: "nat Ext" where
  "demo_broken = demo_ext\<lparr>otc := demo_otc\<lparr>o_WaitForJobCompleted :=
     (\<lambda>h t j w. (Inl (new_error ''timeout''), w))\<rparr>\<rparr>"

definition demo_reboot :: Rds where
  "demo_reboot = (demo_rds ''id1'')\<lparr>rds_Status := zero_status\<lparr>status_Id := ''id1'', status_Reboot := True\<rparr>\<rparr>"

lemma demo_broken_sel:
  "kube demo_broken = demo_kube" "sqldb demo_broken = demo_sql"
  "otc demo_broken = demo_otc\<lparr>o_WaitForJobCompleted := (\<lambda>h t j w. (Inl (new_error ''timeout''), w))\<rparr>"
  by (simp_all add: demo_broken_def demo_ext_def)

lemma demo_broken_status: "UpdateStatus demo_broken s = UpdateStatus demo_ext s"
  by (simp add: UpdateStatus_def rdsUpdateStatus_def GetProvider_def NewClient_def InClusterConfig_def
    KubeClient_def clientset_NewForConfig_def mcsps_NewForConfig_def setConfigDefaults_def rdsGetByName_def
    push_resource_def rdss_Update_def ensure_service_def demo_broken_sel demo_ext_sel
    cong: if_cong sum.case_cong)

lemma demo_reboot_sel [demo]:
  "rds_Name demo_reboot = ''db''" "rds_Namespace demo_reboot = ''ns''"
  "rds_Status demo_reboot = zero_status\<lparr>status_Id := ''id1'', status_Reboot := True\<rparr>"
  "rds_Spec demo_reboot = demo_spec"
  by (simp_all add: demo_reboot_def demo)

lemma demo_broken_lookup:
  "rds_answer demo_broken client opts (Suc 0) = (Inr (Some demo_instance), Suc 0)"
  "rds_answered demo_broken client opts (Suc 0)"
  by (simp_all add: rds_answer_def rds_answered_def demo_broken_sel demo)

lemmas demo_update_defs = processUpdateRds_def on_copies_def Update_def rdsUpdate_def recheck_spec_eval rechecked_def
  enlarge_volume_def change_flavor_def restart_instance_def restore_backup_def update_rest_def sync_sql_users_def
  set_autopilot_def refresh_status_def WaitForJobCompleted_def users_ptr_neq_def HasChanged_def

lemma demo_first_attempt:
  "\<exists>e t. processUpdateRds demo_broken (demo_sys 1 demo_reboot) = (Fail e, t) \<and> newRds t = demo_pushed demo_reboot \<and>
     seen mutation (made (demo_sys 1 demo_reboot) t) = [CRdsRestart ''id1'']"
  by (simp add: demo_update_defs demo_broken_status demo_broken_lookup demo_broken_sel demo)

lemma demo_second_attempt:
  "\<exists>t. processUpdateRds demo_ext (demo_sys 1 (demo_pushed demo_reboot)) = (Ok (), t)"
  by (simp add: demo_update_defs demo)

theorem retry_restarts_again_witness:
  "\<exists>e t v. processUpdateRds demo_broken (demo_sys 1 demo_reboot) = (Fail e, t) \<and>
     seen mutation (made (demo_sys 1 demo_reboot) t) = [CRdsRestart ''id1''] \<and>
     processUpdateRds demo_ext (demo_sys 1 (newRds t)) = (Ok (), v) \<and>
     CRdsRestart ''id1'' \<in> set (seen mutation (made (demo_sys 1 (newRds t)) v))"
proof -
  let ?s = "demo_sys 1 demo_reboot" and ?t = "demo_sys 1 (demo_pushed demo_reboot)"
  obtain e t where first: "processUpdateRds demo_broken ?s = (Fail e, t)" "newRds t = demo_pushed demo_reboot"
      "seen mutation (made ?s t) = [CRdsRestart ''id1'']"
    using demo_first_attempt by blast
  obtain v where second: "processUpdateRds demo_ext ?t = (Ok (), v)" using demo_second_attempt by blast
  have up: "UpdateStatus demo_ext ?t = (Ok (), demo_updated ?t)"
    by (rule demo_UpdateStatus) (simp_all add: demo)
  have "CRdsRestart (status_Id (rds_Status (newRds ?s))) \<in> set (seen mutation (made ?t v))"
  proof (rule retry_restarts_again [OF _ first(1) _ up _ _ second])
    show "HasChanged (oldRds (demo_updated ?t)) (newRds (demo_updated ?t))"
      by (simp add: HasChanged_def demo)
  qed (simp_all add: first(2) demo)
  with first second show ?thesis by (simp add: demo_sys_sel demo_reboot_sel)
qed

section \<open>Users are compared by address\<close>

fun opened_database :: "call \<Rightarrow> string option" where
  "opened_database (DB (CSqlOpen drv dsn)) = Some dsn"
| "opened_database c = None"

lemma session_rest_logs: "uses (\<lambda>c. True) (create_users E db us (create_databases E db dss))"
proof -
  have "uses (sql_call (\<lambda>q. True)) (create_users E db us (create_databases E db dss))"
    by (intro create_users_uses create_user_uses create_databases_uses) simp_all
  then show ?thesis by (rule uses_mono) simp
qed

lemma session_opens:
  assumes "sql_session E r s = (q, t)"
  shows "\<exists>ok new. calls t = calls s @ (DB (CSqlOpen ''mysql'' (dsn_for r)), ok) # new"
proof -
  let ?c = "DB (CSqlOpen ''mysql'' (dsn_for r))"
  let ?rest = "\<lambda>db. go_then (go_wrap ''error connecting database as root: ''
       (perform_e (DB CSqlPing) (d_Ping (sqldb E) db)))
    (go_defer (perform_w (DB CSqlClose) (d_Close (sqldb E) db))
      (go_bind (go_deref (spec_Users (rds_Spec r))) (\<lambda>(_, us).
       create_users E db us (create_databases E db (slice_elems (spec_Databases (rds_Spec r)))))))"
  have rest: "uses (\<lambda>c. True) (?rest db)" for db
    by (intro run_intro uses_intro session_rest_logs) simp_all
  obtain a w where o: "d_Open (sqldb E) ''mysql'' (dsn_for r) (world s) = (a, w)" by fastforce
  show ?thesis
  proof (cases a)
    case (Inl e)
    with assms o show ?thesis by (auto simp: sql_session_def go_bind_eval [of "go_wrap _ _"] go_wrap_eval perform_e_eval)
  next
    case (Inr db)
    with assms o have "?rest db (log_call ?c True w s) = (q, t)"
      by (simp add: sql_session_def go_bind_eval [of "go_wrap _ _"] go_wrap_eval perform_e_eval)
    from run_respectsD [OF rest this] show ?thesis by (auto simp: emits_def)
  qed
qed

lemma set_autopilot_logs: "uses (\<lambda>c. True) (set_autopilot E client)"
proof -
  have "uses (\<lambda>c. True) (UpdateStatus E)" "uses (\<lambda>c. True) (CreateAlarm E n e a b)" for n e a b
    by (rule uses_mono [OF status_write.write_uses] uses_mono [OF CreateAlarm_uses], simp)+
  then show ?thesis unfolding set_autopilot_def by (intro run_intro uses_intro) simp_all
qed

text \<open>C26: the users of a resource are compared by the address of their list, not by their contents, so an
  update of a MySQL resource that has nothing to do connects to the database, with the root password, whenever the old
  and the new object have lists of their own, as two objects of the API server always do.\<close>

theorem users_compared_by_address:
  assumes "listed E client s = Some inst" and "up_to_date inst (newRds s) (newRds s)"
    and "slice_len (spec_Databases (rds_Spec (oldRds s))) = slice_len (spec_Databases (rds_Spec (newRds s)))"
    and "spec_Users (rds_Spec (oldRds s)) = Some (a, us)" and "spec_Users (rds_Spec (newRds s)) = Some (b, us)" and "a \<noteq> b"
    and "spec_Datastoretype (rds_Spec (newRds s)) = ''MySQL''" and "rdsUpdate E client s = (r, t)"
  shows "dsn_for (newRds s) \<in> set (seen opened_database (made s t))"
proof -
  let ?c = "RDS (CRdsList (by_name_opts (rds_Name (newRds s)) (rds_Namespace (newRds s))))"
  obtain ok w where rc: "recheck_spec E client s = (Ok (), rechecked inst (log_call ?c ok w s))"
    using recheck_spec_listed [OF assms(1)] by blast
  let ?u = "rechecked inst (log_call ?c ok w s)"
  have "status_Id (rds_Status (newRds s)) \<noteq> ''''"
    using assms(1) by (auto simp: listed_def split: if_splits)
  with rc assms(2) have "rdsUpdate E client s = go_then (sync_sql_users E) (set_autopilot E client) ?u"
    by (simp add: rdsUpdate_def up_to_date_def enlarge_volume_def change_flavor_def
        restart_instance_def restore_backup_def update_rest_def go_bind_eval go_get_eval go_when_eval
        go_return_eval go_then_eval [of "recheck_spec E client"] go_then_eval [of "go_bind _ _"] rechecked_def)
  with assms(8) have run: "go_then (sync_sql_users E) (set_autopilot E client) ?u = (r, t)" by simp
  have sync: "sync_sql_users E ?u = go_wrap ''error CreateSqlUser: '' (CreateSqlUser E) ?u"
    using assms(4-6) by (simp add: sync_sql_users_def users_ptr_neq_def go_bind_eval go_get_eval go_when_eval rechecked_def)
  have opens: "\<exists>ok new. calls v = calls ?u @ (DB (CSqlOpen ''mysql'' (dsn_for (newRds s))), ok) # new"
    if synced: "sync_sql_users E ?u = (q, v)" for q v
  proof -
    obtain p where "CreateSqlUser E ?u = (p, v)"
      using synced unfolding sync by (auto simp: go_wrap_eval split: outcome.splits prod.splits)
    with assms(7) have "sql_session E (newRds s) ?u = (p, v)"
      by (simp add: CreateSqlUser_session rechecked_def)
    then show ?thesis by (rule session_opens)
  qed
  obtain new where "calls t = calls ?u @ new" "dsn_for (newRds s) \<in> set (seen opened_database new)"
    using run
  proof (cases rule: go_then_cases)
    case (stop q)
    with opens [OF stop(1)] that show thesis by auto
  next
    case (cont a v)
    with opens [OF cont(1)] run_respectsD [OF set_autopilot_logs cont(2)] that show thesis
      by (auto simp: emits_def)
  qed
  then show ?thesis by (auto simp: made_def rechecked_def)
qed


definition demo_user :: Users where
  "demo_user = \<lparr>user_Name = ''app'', user_Host = ''%'', user_Password = ''secret'', user_Privileges = None\<rparr>"

definition demo_with_users :: "addr \<Rightarrow> Rds" where
  "demo_with_users p = (demo_rds ''id1'')\<lparr>rds_Spec := demo_spec\<lparr>spec_Users := Some (p, [demo_user])\<rparr>\<rparr>"

lemma demo_with_users_sel:
  "rds_Name (demo_with_users p) = ''db''" "rds_Namespace (demo_with_users p) = ''ns''"
  "rds_Status (demo_with_users p) = zero_status\<lparr>status_Id := ''id1''\<rparr>"
  "rds_Spec (demo_with_users p) = demo_spec\<lparr>spec_Users := Some (p, [demo_user])\<rparr>"
  by (simp_all add: demo_with_users_def demo)

theorem users_compared_by_address_witness:
  "\<exists>r t. rdsUpdate demo_ext 2 ((demo_sys 1 (demo_with_users 7))\<lparr>oldRds := demo_with_users 5\<rparr>) = (r, t) \<and>
     spec_DeepEqual (rds_Spec (demo_with_users 5)) (rds_Spec (demo_with_users 7)) \<and>
     seen opened_database (made ((demo_sys 1 (demo_with_users 7))\<lparr>oldRds := demo_with_users 5\<rparr>) t) \<noteq> []"
proof -
  let ?s = "(demo_sys 1 (demo_with_users 7))\<lparr>oldRds := demo_with_users 5\<rparr>"
  obtain r t where run: "rdsUpdate demo_ext 2 ?s = (r, t)" by fastforce
  have "dsn_for (newRds ?s) \<in> set (seen opened_database (made ?s t))"
  proof (rule users_compared_by_address [where a = 5 and b = 7 and us = "[demo_user]", OF _ _ _ _ _ _ _ run])
    show "listed demo_ext 2 ?s = Some demo_instance"
      by (simp add: listed_def demo demo_with_users_sel)
    show "up_to_date demo_instance (newRds ?s) (newRds ?s)"
      by (simp add: up_to_date_def demo demo_with_users_sel users_ptr_neq_def)
  qed (simp_all add: demo_sys_sel demo_with_users_sel demo_spec_def)
  moreover have "spec_DeepEqual (rds_Spec (demo_with_users 5)) (rds_Spec (demo_with_users 7))"
    by (simp add: spec_DeepEqual_def spec_value_def demo_with_users_sel)
  ultimately show ?thesis using run by (intro exI [of _ r] exI [of _ t]) auto
qed

end
