(* ===== verification/Autopilot.thy ===== *)
theory Autopilot
  imports Reconcile Smn_Receiver
begin

text \<open>
  The autopilot as a whole: \<open>CreateAlarm\<close> (\<open>alarm.go\<close>) makes a topic and alarm rules for an instance, the
  cloud posts an alarm to the handler (\<open>autopilot.go\<close>), which updates the resource; the informer
  notifies the controller (\<open>controller.go\<close>), and a worker (\<open>worker.go\<close>) carries the change to the
  cloud (\<open>resource.go\<close>).  The properties follow this chain over the parts' own definitions.
\<close>

section \<open>From the topic to the resource\<close>

text \<open>Names in Kubernetes have letters, digits, dashes and dots: neither a colon nor an underscore.\<close>

definition plain_name :: "string \<Rightarrow> bool" where
  "plain_name w \<longleftrightarrow> CHR '':'' \<notin> set w \<and> CHR ''_'' \<notin> set w"

lemma Split_ns_rds:
  assumes "plain_name ns" and "plain_name name"
  shows "Split (ns_rds name ns) CHR ''_'' = [ns, name]"
  using Split_join [of "[ns, name]" "CHR ''_''"] assms by (auto simp: ns_rds_def plain_name_def)

fun created_topic :: "call \<Rightarrow> string option" where
  "created_topic (MON (CTopicCreate n d)) = Some n"
| "created_topic c = None"

lemma CreateAlarm_topics: "uses (\<lambda>c. created_topic c \<in> {None, Some (ns_rds n ns)}) (CreateAlarm E i ep n ns)"
  unfolding CreateAlarm_def create_rule_def Let_def by (intro run_intro uses_intro) simp_all

text \<open>What an event does once the resource is known.\<close>

definition event_for :: "'w Ext \<Rightarrow> string \<Rightarrow> string \<Rightarrow> string \<Rightarrow> ('w sys, unit) go" where
  "event_for E ns name message =
     go_bind (event_client E) (\<lambda>client.
     go_bind (rdss_Get E client ns name []) (\<lambda>(returnRds, err).
     alarm_actions E client ns message returnRds))"

text \<open>C23: an event on a topic that \<open>CreateAlarm\<close> has made for a resource is acted upon for that very resource:
  the handler gets the namespace and the name back from the topic's URN, whose last part the
  topic's name is.\<close>

theorem topic_round_trip:
  assumes "plain_name ns" and "plain_name name" and "CreateAlarm E i ep name ns s = (r, t)"
    and "topic \<in> set (seen created_topic (made s t))"
    and "length scope = 4" and "CHR '':'' \<notin> set (concat scope)"
    and "sub_Topicurn sub = join_by CHR '':'' (scope @ [topic])"
  shows "event_action E' sub = event_for E' ns name (sub_Message sub)"
proof -
  obtain c ok where "(c, ok) \<in> set (made s t)" "created_topic c = Some topic"
    using assms(4) unfolding seen_set by blast
  with uses_made [OF CreateAlarm_topics assms(3)] have topic: "topic = ns_rds name ns" by force
  have "CHR '':'' \<notin> set topic" using assms(1,2) by (auto simp: topic ns_rds_def plain_name_def)
  with assms(6) have "Split (sub_Topicurn sub) CHR '':'' = scope @ [topic]"
    unfolding assms(7) by (intro Split_join) auto
  moreover have "(scope @ [topic]) ! 4 = topic" using assms(5) by (simp add: nth_append)
  ultimately show ?thesis
    using assms(5) Split_ns_rds [OF assms(1,2)]
    by (simp add: event_action_def event_for_def fun_eq_iff go_bind_eval [of "go_index _ _"] go_index_eval topic)
qed

section \<open>From the alarm to the enlargement\<close>

text \<open>
  What the API server gives back for an object that was put: the same names, status and
  specification; the rest of the metadata and the address of the users' list are its own.
\<close>

definition stored_as :: "Rds \<Rightarrow> Rds \<Rightarrow> bool" where
  "stored_as put n \<longleftrightarrow> rds_Name n = rds_Name put \<and> rds_Namespace n = rds_Namespace put \<and>
     rds_Status n = rds_Status put \<and> spec_value (rds_Spec n) = spec_value (rds_Spec put)"

lemma spec_value_fields:
  assumes "spec_value sp = spec_value sp'"
  shows "spec_Volumesize sp = spec_Volumesize sp'" and "spec_Flavorref sp = spec_Flavorref sp'"
    and "spec_Backuprestoretime sp = spec_Backuprestoretime sp'"
  using arg_cong [OF assms, of spec_Volumesize] arg_cong [OF assms, of spec_Flavorref]
    arg_cong [OF assms, of spec_Backuprestoretime] by (simp_all add: spec_value_def)

text \<open>The size after an alarm is larger unless the sum wraps around.\<close>

lemma larger_size: "(x :: go_int) <s x + 10 \<longleftrightarrow> sint x < 2 ^ 63 - 10"
proof -
  have range: "- (2 ^ 63) \<le> sint x" "sint x < 2 ^ 63"
    using sint_greater_eq [of x] sint_lt [of x] by simp_all
  have sum: "sint (x + 10) = (sint x + 10 + 2 ^ 63) mod 2 ^ 64 - 2 ^ 63"
    by (simp add: sint_word_ariths(1) signed_take_bit_eq_take_bit_shift take_bit_eq_mod)
  show ?thesis
  proof (cases "sint x < 2 ^ 63 - 10")
    case True
    with range have "(sint x + 10 + 2 ^ 63) mod 2 ^ 64 = sint x + 10 + 2 ^ 63"
      by (intro mod_pos_pos_trivial) simp_all
    with True sum show ?thesis by (simp add: word_sless_alt)
  next
    case False
    have "(sint x + 10 + 2 ^ 63) mod 2 ^ 64 = (sint x + 10 + 2 ^ 63 - 2 ^ 64) mod 2 ^ 64"
      by (rule minus_mod_self2 [symmetric])
    also have "\<dots> = sint x + 10 + 2 ^ 63 - 2 ^ 64"
      using False range by (intro mod_pos_pos_trivial) simp_all
    finally have "(sint x + 10 + 2 ^ 63) mod 2 ^ 64 = sint x + 10 + 2 ^ 63 - 2 ^ 64" .
    with False sum range show ?thesis by (simp add: word_sless_alt)
  qed
qed

text \<open>The plan for the resource that a disk alarm has put.\<close>

definition enlarge_by_10 :: "Rds \<Rightarrow> RdsCall list" where
  "enlarge_by_10 r = (if sint (vol r) < 2 ^ 63 - 10 then [CRdsEnlarge (vol r + 10) (status_Id (rds_Status r))] else [])"

lemma larger_plan:
  assumes "stored_as (larger r) n" and "resource_core m = resource_core n"
    and "reconciled inst r" and "inst_VolumeSize inst = vol r"
  shows "update_plan inst m = enlarge_by_10 r"
proof -
  have "vol m = vol r + 10" "spec_Flavorref (rds_Spec m) = spec_Flavorref (rds_Spec r)"
    "spec_Backuprestoretime (rds_Spec m) = spec_Backuprestoretime (rds_Spec r)"
    using spec_value_fields [of "rds_Spec n" "rds_Spec (larger r)"] assms(1) resource_core_eqD [OF assms(2)]
    by (simp_all add: stored_as_def larger_def)
  moreover have "status_Id (rds_Status m) = status_Id (rds_Status r)" "status_Reboot (rds_Status m) = status_Reboot (rds_Status r)"
    using assms(1) resource_core_eqD [OF assms(2)] by (simp_all add: stored_as_def larger_def)
  ultimately show ?thesis
    using assms(3,4)
    by (simp add: update_plan_def enlarge_plan_def resize_plan_def restart_plan_def restore_plan_def
        reconciled_def enlarge_by_10_def larger_size Let_def)
qed

text \<open>The event of an update runs \<open>processUpdateRds\<close> on its two objects.\<close>

lemma processEvent_update:
  assumes "processEvent E (event_at a (updateRds_type, Some old, new)) s = (p, t)"
    and "c_heap (op_ctl s) a = Some old" and "c_heap (op_ctl s) (Suc a) = Some new"
  shows "processUpdateRds E ((op_sys s)\<lparr>oldRds := old, newRds := new\<rparr>) = (p, op_sys t)"
  using assms
  by (auto simp: processEvent_def on_objects_def addRds_type_def delRds_type_def updateRds_type_def
      Let_def split: prod.splits)

lemma alarm_put:
  assumes "alarm_actions E client ns msg r y = (q, z)" and "Contains msg ''rds039_disk_util''"
  shows "\<exists>more. seen rds_put (made y z) = (ns, larger r) # more"
proof -
  from assms(1) obtain new where "calls z = calls y @ new" "prefix [(ns, larger r)] (seen rds_put new)"
    by (rule alarm_actions_run) (simp add: assms(2))
  then show ?thesis by (auto simp: seen_same_calls prefix_def)
qed

lemma notified_update:
  assumes "watched (c_watchnamespaces c) n"
  shows "c_queue (dispatch Q (OnUpdate (RdsObject r) (RdsObject n)) c) =
      q_Add Q (event_at (c_next c) (updateRds_type, Some r, n)) (c_queue c)"
    and "c_heap (dispatch Q (OnUpdate (RdsObject r) (RdsObject n)) c) =
      (c_heap c)(c_next c \<mapsto> r, Suc (c_next c) \<mapsto> n)"
proof -
  have "wants_change (c_watchnamespaces c) (OnUpdate (RdsObject r) (RdsObject n)) = Some (updateRds_type, Some r, n)"
    using assms by (simp add: wants_change_def wants_pair_def)
  from notifications.enqueues [OF this, where Q = Q]
  show "c_queue (dispatch Q (OnUpdate (RdsObject r) (RdsObject n)) c) =
      q_Add Q (event_at (c_next c) (updateRds_type, Some r, n)) (c_queue c)"
    and "c_heap (dispatch Q (OnUpdate (RdsObject r) (RdsObject n)) c) =
      (c_heap c)(c_next c \<mapsto> r, Suc (c_next c) \<mapsto> n)"
    by (simp_all add: enqueue_def stored_two)
qed

text \<open>C6: a disk alarm ends in an enlargement: when the API server stores what the handler puts for an
  active resource that matches its instance, and notifies the controller of it, the notification
  enqueues one event, and the handling of that event asks for an enlargement of the instance by 10
  and for no other change of an instance, provided that the status write leaves the status as it was; at the top of
  the range the sum wraps around and nothing is asked for.\<close>

theorem disk_alarm_enlarges:
  assumes "alarm_actions E0 client ns msg r y = (q, z)" and "Contains msg ''rds039_disk_util''"
    and "stored_as (snd (hd (seen rds_put (made y z)))) n" and "watched (c_watchnamespaces (op_ctl s)) n"
    and "s' = s\<lparr>op_ctl := dispatch Q (OnUpdate (RdsObject r) (RdsObject n)) (op_ctl s)\<rparr>"
    and "processEvent E (event_at (c_next (op_ctl s)) (updateRds_type, Some r, n)) s' = (p, t)"
    and "UpdateStatus E ((op_sys s)\<lparr>oldRds := r, newRds := n\<rparr>) = (Ok (), u)"
    and "rds_Status (newRds u) = rds_Status r" and "status_Status (rds_Status r) = ''ACTIVE''"
    and "update_lists E u = Some inst" and "inst_VolumeSize inst = vol r" and "reconciled inst r"
  shows "c_queue (op_ctl s') = q_Add Q (event_at (c_next (op_ctl s)) (updateRds_type, Some r, n)) (c_queue (op_ctl s)) \<and>
    asked (op_sys s) (op_sys t) (enlarge_by_10 r) p"
proof -
  obtain more where "seen rds_put (made y z) = (ns, larger r) # more" using alarm_put [OF assms(1,2)] by blast
  with assms(3) have n: "stored_as (larger r) n" by simp
  let ?e = "(op_sys s)\<lparr>oldRds := r, newRds := n\<rparr>"
  have run: "processUpdateRds E ?e = (p, op_sys t)"
    using processEvent_update [OF assms(6)] by (simp add: assms(5) notified_update(2) [OF assms(4)])
  have core: "resource_core (newRds u) = resource_core n" and old: "oldRds u = r"
    using status_write.write_core_eq [OF assms(7)] status_write.write_keeps_old [OF assms(7)] by simp_all
  have "update_plan inst (newRds u) = enlarge_by_10 r" by (rule larger_plan [OF n core assms(12,11)])
  then have "event_requests E (Ok ()) u = enlarge_by_10 r"
    using assms(8-10) old
    by (simp add: event_requests_def update_requests_def HasChanged_def status_DeepEqual_def)
  with processUpdateRds_asks [OF assms(7) run] have "asked ?e (op_sys t) (enlarge_by_10 r) p" by simp
  moreover have "made ?e (op_sys t) = made (op_sys s) (op_sys t)" by (simp add: made_def)
  ultimately have "asked (op_sys s) (op_sys t) (enlarge_by_10 r) p" by (simp only: asked_def)
  then show ?thesis by (simp add: assms(5) notified_update(1) [OF assms(4)])
qed

section \<open>On the concrete cloud\<close>

lemma demo_topic_made:
  "\<exists>r t. CreateAlarm demo_ext ''node1'' ep ''db'' ''ns'' (demo_sys 1 (demo_rds ''id1'')) = (r, t) \<and>
     ''ns_db'' \<in> set (seen created_topic (made (demo_sys 1 (demo_rds ''id1'')) t))"
  by (simp add: CreateAlarm_def create_rule_def ns_rds_def demo)

text \<open>The resource of the chain: active, as the status write leaves it.\<close>

definition demo_full :: Rds where
  "demo_full = demo_pushed (demo_rds ''id1'')"

definition demo_alarmed :: "(item_queue, nat) op" where
  "demo_alarmed = demo_op\<lparr>op_ctl := dispatch demo_queue (OnUpdate (RdsObject demo_full) (RdsObject (larger demo_full))) (op_ctl demo_op)\<rparr>"

lemma demo_disk_put:
  "\<exists>q z. alarm_actions demo_ext 4 ''ns'' ''rds039_disk_util'' demo_full (demo_sys 1 demo_full) = (q, z)"
  by (cases "alarm_actions demo_ext 4 ''ns'' ''rds039_disk_util'' demo_full (demo_sys 1 demo_full)") simp

lemma demo_disk_message: "Contains ''rds039_disk_util'' ''rds039_disk_util''"
  by simp

lemma demo_larger_update:
  "\<exists>t. processUpdateRds demo_ext ((demo_sys 1 (demo_rds ''id1''))\<lparr>oldRds := demo_full, newRds := larger demo_full\<rparr>) = (Ok (), t)"
  by (simp add: demo_update_defs demo_full_def larger_def demo)

lemma demo_alarm_handled:
  "\<exists>t. processEvent demo_ext (event_at 0 (updateRds_type, Some demo_full, larger demo_full)) demo_alarmed = (Ok (), t)"
proof -
  have "watched (c_watchnamespaces (op_ctl demo_op)) (larger demo_full)"
    using demo_watched by (simp add: demo_op_def new_controller_def watched_def demo_full_def larger_def demo)
  from notified_update(2) [OF this] have "c_heap (op_ctl demo_alarmed) = [0 \<mapsto> demo_full, Suc 0 \<mapsto> larger demo_full]"
    by (simp add: demo_alarmed_def) (simp add: demo_op_def new_controller_def)
  moreover have "op_sys demo_alarmed = demo_sys 1 (demo_rds ''id1'')" by (simp add: demo_alarmed_def demo_op_def)
  ultimately show ?thesis
    using demo_larger_update
    by (auto simp: processEvent_def on_objects_def addRds_type_def delRds_type_def updateRds_type_def)
qed

theorem topic_round_trip_witness:
  "event_action demo_ext (zero_subscriber\<lparr>sub_Topicurn := ''urn:smn:eu-de:p:ns_db'', sub_Message := ''m''\<rparr>) =
     event_for demo_ext ''ns'' ''db'' ''m''"
proof -
  let ?s = "demo_sys 1 (demo_rds ''id1'')"
  let ?sub = "zero_subscriber\<lparr>sub_Topicurn := ''urn:smn:eu-de:p:ns_db'', sub_Message := ''m''\<rparr>"
  obtain r t where made: "CreateAlarm demo_ext ''node1'' ''e'' ''db'' ''ns'' ?s = (r, t)"
      "''ns_db'' \<in> set (seen created_topic (made ?s t))"
    using demo_topic_made by blast
  have "event_action demo_ext ?sub = event_for demo_ext ''ns'' ''db'' (sub_Message ?sub)"
    by (rule topic_round_trip [where scope = "[''urn'', ''smn'', ''eu-de'', ''p'']", OF _ _ made])
      (simp_all add: plain_name_def)
  then show ?thesis by simp
qed

theorem disk_alarm_enlarges_witness:
  "\<exists>t. processEvent demo_ext \<lparr>ev_eventType = updateRds_type, ev_oldObj = Some 0, ev_newObj = 1\<rparr> demo_alarmed = (Ok (), t) \<and>
     seen mutation (made (op_sys demo_op) (op_sys t)) = [CRdsEnlarge 50 ''id1'']"
proof -
  let ?r = "demo_full" and ?n = "larger demo_full" and ?e = "event_at 0 (updateRds_type, Some demo_full, larger demo_full)"
  let ?x = "(op_sys demo_op)\<lparr>oldRds := ?r, newRds := ?n\<rparr>"
  obtain q z where put: "alarm_actions demo_ext 4 ''ns'' ''rds039_disk_util'' ?r (demo_sys 1 ?r) = (q, z)"
    using demo_disk_put by blast
  have stored: "stored_as (snd (hd (seen rds_put (made (demo_sys 1 ?r) z)))) ?n"
    using alarm_put [OF put demo_disk_message] by (auto simp: stored_as_def)
  have next0: "c_next (op_ctl demo_op) = 0" by (simp add: demo_op_def new_controller_def)
  have seen: "watched (c_watchnamespaces (op_ctl demo_op)) ?n"
    using demo_watched by (simp add: demo_op_def new_controller_def watched_def demo_full_def larger_def demo)
  have up: "UpdateStatus demo_ext ?x = (Ok (), demo_updated ?x)"
    by (rule demo_UpdateStatus) (simp_all add: demo_op_def demo_full_def larger_def demo)
  obtain t where run: "processEvent demo_ext ?e demo_alarmed = (Ok (), t)"
    using demo_alarm_handled by blast
  have "asked (op_sys demo_op) (op_sys t) (enlarge_by_10 ?r) (Ok ())"
  proof (rule disk_alarm_enlarges [OF put demo_disk_message stored seen refl _ up _ _ _ _ _, THEN conjunct2])
    show "processEvent demo_ext (event_at (c_next (op_ctl demo_op)) (updateRds_type, Some ?r, ?n))
        (demo_op\<lparr>op_ctl := dispatch demo_queue (OnUpdate (RdsObject ?r) (RdsObject ?n)) (op_ctl demo_op)\<rparr>) = (Ok (), t)"
      using run by (simp add: next0 demo_alarmed_def)
    show "update_lists demo_ext (demo_updated ?x) = Some demo_instance"
      by (rule demo_update_lists) (simp_all add: demo_op_def demo_full_def larger_def demo)
    show "reconciled demo_instance ?r"
      by (rule demo_reconciled) (simp_all add: demo_full_def demo)
  qed (simp_all add: demo_op_def demo_full_def larger_def demo_pushed_def demo demo_spec_def)
  then have "seen mutation (made (op_sys demo_op) (op_sys t)) = [CRdsEnlarge 50 ''id1'']"
    by (simp add: asked_def enlarge_by_10_def demo_full_def demo demo_spec_def)
  with run show ?thesis by auto
qed

end
