(* ===== verification/Spec2Isabelle.thy ===== *)
theory Spec2Isabelle
  imports Operator Status_Contract Fake_Clientset Scheme Autopilot
begin

text \<open>
  A model of otc-rds-operator, a Kubernetes operator that manages database instances (RDS) of
  Open Telekom Cloud through a custom resource, with the properties that make it correct.

  The program.  A user writes a resource \<open>Rds\<close> (a specification, and a status that the operator
  fills).  An informer notifies the controller of additions, changes and deletions; its handlers put events
  into a work queue; workers take them out and call \<open>Create\<close>, \<open>UpdateStatus\<close>, \<open>Update\<close> and
  \<open>Delete\<close>, which talk to the cloud, to Kubernetes and to the database; a failed event is
  requeued.  A second entry is the HTTP endpoint of the autopilot, to which the cloud posts
  alarms, and which raises the volume size or the flavor in the resource.

  Go in HOL (\<open>Go_Prelude\<close>, \<open>Go_Strings\<close>, \<open>Go_Time\<close>).  A Go function with an error result is a
  function from a state to an outcome (a value, an error, or a crash: nil dereference, index out
  of range, panic, exit of the process, a wait without end) and a state.  Strings are lists of
  bytes, \<open>int\<close> is \<open>64 word\<close>, \<open>int32\<close> is \<open>32 word\<close>; \<open>strings\<close>, \<open>strconv\<close> and \<open>time.Parse\<close>
  are modelled as far as they are used (\<open>Go_Time\<close> translates no line of the program).  \<open>run_relation\<close> is the locale of what every run of a call
  respects; it is interpreted for a field that no call writes, for the log of the calls, and for
  the invariants of the components.

  The outside (\<open>Cloud\<close>).  The clients of the cloud, of Kubernetes, of the database, HTTP and the
  clock are the fields of \<open>Ext\<close>, a parameter of every definition that uses them.  They act
  on an opaque world.  Each call is recorded in the log \<open>calls\<close> of the state, with the flag whether it
  succeeded, so that properties of the order and the absence of calls are properties of the log
  (\<open>made\<close>: what a run added; \<open>seen f\<close>: the calls that \<open>f\<close> picks).  \<open>Demo_Cloud\<close> is a small
  concrete \<open>Ext\<close> for the instances of the properties.  \<open>Trace_Logic\<close> has triples for code that
  makes a prefix of a planned list of calls.

  The parts.
  \<open>Rds_Types\<close>: \<open>types.go\<close>, \<open>register.go\<close>, \<open>rds.go\<close> and the deep copies.  The pointer
  \<open>Users\<close> is an address with its contents.
  \<open>Clientset\<close>: the typed client; a method is the request it sends.  \<open>Fake_Clientset\<close>: its generated
  fake; a method is the action it invokes, and each action describes the client's request.
  \<open>Informers\<close>: the informer factory and the listers; one informer per type, started once.
  \<open>Scheme\<close>: the registration of the types in the schemes of both clientsets.
  \<open>Provider\<close>, \<open>Lookup\<close>: \<open>GetProvider\<close> and the lookups of \<open>resource.go\<close>.
  \<open>Status_Update\<close>, \<open>Status_Contract\<close>: \<open>rdsUpdateStatus\<close> and \<open>UpdateStatus\<close>.  The locale
  \<open>status_writer\<close> states what a status write may do, and the other parts use only that.
  \<open>Rds_Create\<close>, \<open>Rds_Delete\<close>, \<open>Rds_Update\<close>: the handlers of the events.  A creation requests what
  \<open>planned_instance\<close> computes from the listings, a deletion takes the steps of \<open>delete_plan\<close>.  An update runs its phases in
  order (enlarge, resize, restart, restore, logs, or users and autopilot); \<open>update_plan\<close> is the
  abstract specification of its requests, computed from the listed instance and the resource.
  \<open>Log_Job\<close> (\<open>job.go\<close> and the log phase), \<open>Sql_User\<close> (\<open>sql.go\<close>), \<open>Alarm\<close> (\<open>alarm.go\<close>): the
  phases with a file of their own.
  \<open>Flavor_Lookup\<close>: \<open>RdsFlavorLookup\<close>; its loops are shown equal to a filter, its choice meets the
  specification \<open>least_upgrade\<close>.
  \<open>Smn_Receiver\<close>: \<open>autopilot.go\<close>.  The handlers of all requests share one variable, which is
  part of their state.
  \<open>Event_Handlers\<close>: \<open>event.go\<close> and the handlers of \<open>controller.go\<close>.  The locale \<open>event_handler\<close> is
  their contract.  Events point into a heap; the work queue is the parameter \<open>QueueApi\<close>, whose
  promises, with a concrete queue that keeps them, are in \<open>Work_Queue\<close>.
  \<open>Worker\<close>: \<open>worker.go\<close>, and the operator as a step relation \<open>op_step\<close>: notifications, events that
  a worker takes, events that a worker handles, moves of the queue, changes of the environment.
  Any number of workers are busy at once (\<open>op_busy\<close>).  What the others do while a worker
  handles its event reaches it through the answers to its calls only, so each event is handled
  under an outside \<open>Ext\<close> of its own, any one at all.
  \<open>Reconcile\<close>: the event of an update from \<open>worker.go\<close> to the requests of \<open>resource.go\<close>: its status
  write, the gate of \<open>processUpdateRds\<close> and \<open>update_plan\<close> in one refinement, from which follow the
  rest of a resource that matches its instance, and what a retry repeats.
  \<open>Autopilot\<close>: the chain from \<open>CreateAlarm\<close> over the alarm that is posted, the resource that is put,
  the notification and the event to the enlargement in the cloud.  The API server in the middle is
  a hypothesis (\<open>stored_as\<close>: it stores the status and the specification that it was sent).
  \<open>Config\<close>, \<open>Runner\<close>: \<open>config.go\<close>, \<open>Run\<close> and \<open>New\<close> of \<open>controller.go\<close>, \<open>runner.go\<close>, \<open>main.go\<close>, up to
  the life cycle of the process (\<open>Runner.main_lifecycle\<close>).
  \<open>start_error\<close> says which of the things that \<open>main\<close> needs is the first that cannot be had.
  \<open>Operator\<close>: properties of whole runs: the events that workers meet are well-formed, no two workers
  share an object, which steps delete an instance, and how a worker empties the queue after the shutdown.

  Loops and bounds.  The loops are structural but two: the worker's, \<open>runWorker\<close>, is a
  \<open>partial_function\<close>, and returns once the queue is shut down and drained; the watch of a log
  job runs over the list of what the channel delivers, which may end without an ending event
  (then the receive blocks).  \<open>worker_run\<close> is the relation of such a run with the events that it handles.  The bound of 300 requeues is the source's.

  Hypotheses on the outside: the contract of \<open>uniq.Slice\<close> (\<open>uniq_contract\<close>); of the work queue
  its counts (\<open>counts_requeues\<close>), its items (\<open>holds_items\<close>), that it hands out an item to one worker
  at a time (\<open>hands_out_once\<close>) but different items to several (\<open>hands_out_both\<close>), and its behaviour
  after a shutdown (\<open>drains\<close>: it gets empty; \<open>drains_in_order\<close>: what waits is handed out in order); of the scheme what its builder runs and its types (\<open>registers\<close>);
  and single answers of a listing where a property speaks of one.

  What the model showed.  \<open>HasChanged\<close> is the disjunction of two equalities, so an update whose
  specification and status both changed is dropped (\<open>Worker.update_lost\<close>).  \<open>Create\<close> and
  \<open>UpdateStatus\<close> drop the error of the call they wrap.  The endpoint is written only when the
  service is created.  A fetch of the logs never succeeds and never revokes its token.  Deleting
  the alarms of an instance also deletes those of an instance whose name it begins, and succeeds
  although the service refuses to delete them.  The CPUs of flavors are compared as strings, so
  that 16 is not larger than 8.  A database that does not answer the ping leaks its handle.  A malformed request repeats the last alarm.  Events are keyed
  by fresh pointers, so two workers can handle events of one resource at the same time.  Flags are
  cleared in copies, so a retry repeats a restart.  Users are compared by the address of their
  list, so an update that changes nothing still connects to the database.

  Not modelled.  The bytes of HTTP and of JSON documents; what is logged; the debug transport;
  data races of the alarm handlers on the variable they share; the order of the calls that
  different workers make (the log of the operator groups them by event); the interface
  declarations of the generated code, which the definitions of their methods stand for; tests,
  chart and manifests.
\<close>

end
